(* ===== verification/Prelude.thy ===== *)
theory Prelude
  imports Main "HOL-Library.Sublist" "HOL-Library.AList" "HOL-Library.Code_Target_Nat"
begin

text \<open>
  Shared vocabulary of the development: the byte-string type the Go code works on,
  the fact collections the component theories extend, and the generic lemmas on lists,
  prefixes and association lists that several components use.
\<close>

section \<open>Types and fact collections\<close>

text \<open>
  A Go \<^verbatim>\<open>string\<close> and a \<^verbatim>\<open>[]byte\<close> are both a sequence of bytes. An Isabelle
  \<^typ>\<open>char\<close> is one byte, so both are \<^typ>\<open>string\<close>; \<open>byte\<close> reads a byte as a number.
\<close>

type_synonym bytes = string

abbreviation byte :: "char \<Rightarrow> nat" where
  "byte c \<equiv> of_char c"

lemma char_eq_byte: "c = d \<longleftrightarrow> byte c = byte d"
  by simp

named_theorems go_simps \<open>defining equations of the Go standard library fragment\<close>
named_theorems policy_simps \<open>defining equations of the policy components\<close>

section \<open>Lists and prefixes\<close>

lemma sublist_iff_append: "sublist xs ys \<longleftrightarrow> (\<exists>ps ss. ys = ps @ xs @ ss)"
  by (auto simp: sublist_def)

lemma takeWhile_no_sep [simp]: "sep \<notin> set (takeWhile (\<lambda>c. c \<noteq> sep) xs)"
  by (induction xs) auto

lemma dropWhile_sep_cases:
  "dropWhile (\<lambda>c. c \<noteq> sep) xs = [] \<or> (\<exists>ys. dropWhile (\<lambda>c. c \<noteq> sep) xs = sep # ys)"
  by (induction xs) auto

lemma list_ex_concat_iff: "list_ex P (concat xss) \<longleftrightarrow> list_ex (list_ex P) xss"
  by (induction xss) auto

section \<open>Association lists as Go maps\<close>

text \<open>
  A Go map whose iteration order matters to the code is an association list: the list
  order is the order in which this run of \<^verbatim>\<open>range\<close> visits the keys. Go leaves that order
  open, and every theorem about such a list holds for all orders because it holds for
  all lists.
\<close>

type_synonym ('k, 'v) gomap = "('k \<times> 'v) list"

definition map_get :: "('k, 'v) gomap \<Rightarrow> 'k \<Rightarrow> 'v option" where
  "map_get m k = map_of m k"

definition map_set :: "('k, 'v) gomap \<Rightarrow> 'k \<Rightarrow> 'v \<Rightarrow> ('k, 'v) gomap" where
  "map_set m k v = AList.update k v m"

definition map_del :: "('k, 'v) gomap \<Rightarrow> 'k \<Rightarrow> ('k, 'v) gomap" where
  "map_del m k = AList.delete k m"

definition map_keys :: "('k, 'v) gomap \<Rightarrow> 'k list" where
  "map_keys m = map fst m"

definition map_wf :: "('k, 'v) gomap \<Rightarrow> bool" where
  "map_wf m \<longleftrightarrow> distinct (map_keys m)"

text \<open>The law a dictionary promises its clients, stated once and used by every component.\<close>

locale go_dict =
  fixes lookup :: "'m \<Rightarrow> 'k \<Rightarrow> 'v option"
    and insert :: "'m \<Rightarrow> 'k \<Rightarrow> 'v \<Rightarrow> 'm"
    and remove :: "'m \<Rightarrow> 'k \<Rightarrow> 'm"
    and wf :: "'m \<Rightarrow> bool"
  assumes lookup_insert: "lookup (insert m k v) k' = (if k' = k then Some v else lookup m k')"
    and lookup_remove: "lookup (remove m k) k' = (if k' = k then None else lookup m k')"
    and wf_insert: "wf m \<Longrightarrow> wf (insert m k v)"
    and wf_remove: "wf m \<Longrightarrow> wf (remove m k)"
begin

lemma lookup_insert_same [simp]: "lookup (insert m k v) k = Some v"
  by (simp add: lookup_insert)

lemma lookup_remove_all:
  "lookup (foldl remove m ks) k = (if k \<in> set ks then None else lookup m k)"
  by (induction ks arbitrary: m) (auto simp: lookup_remove)

lemma wf_remove_all: "wf m \<Longrightarrow> wf (foldl remove m ks)"
  by (induction ks arbitrary: m) (auto simp: wf_remove)

lemma lookup_insert_all:
  assumes "distinct (map fst kvs)"
  shows "lookup (foldl (\<lambda>m (k, v). insert m k v) m kvs) k =
    (case map_of kvs k of Some v \<Rightarrow> Some v | None \<Rightarrow> lookup m k)"
  using assms
proof (induction kvs arbitrary: m)
  case Nil
  then show ?case by simp
next
  case (Cons kv kvs)
  obtain k0 v0 where kv: "kv = (k0, v0)" by (cases kv)
  with Cons.prems have k0: "k0 \<notin> fst ` set kvs" by auto
  then have "map_of kvs k0 = None" by (simp add: map_of_eq_None_iff)
  with Cons kv show ?case by (auto simp: lookup_insert split: option.splits)
qed

end

interpretation gm: go_dict map_get map_set map_del map_wf
proof unfold_locales
  show "map_get (map_set m k v) k' = (if k' = k then Some v else map_get m k')" for m k v k'
    by (simp add: map_get_def map_set_def update_conv)
  show "map_get (map_del m k) k' = (if k' = k then None else map_get m k')" for m k k'
    by (simp add: map_get_def map_del_def delete_conv')
  show "map_wf m \<Longrightarrow> map_wf (map_set m k v)" for m k v
    by (simp add: map_wf_def map_keys_def map_set_def distinct_update)
  show "map_wf m \<Longrightarrow> map_wf (map_del m k)" for m k
    by (simp add: map_wf_def map_keys_def map_del_def distinct_delete)
qed

lemma map_keys_set: "set (map_keys (map_set m k v)) = insert k (set (map_keys m))"
  by (auto simp: map_keys_def map_set_def dom_update)

lemma map_keys_del [simp]: "set (map_keys (map_del m k)) = set (map_keys m) - {k}"
  by (auto simp: map_keys_def map_del_def delete_keys)

lemma map_set_fresh: "map_get m k = None \<Longrightarrow> map_set m k v = m @ [(k, v)]"
  unfolding map_get_def map_set_def by (induction m) (auto split: if_splits)

lemma map_get_None_iff: "map_get m k = None \<longleftrightarrow> k \<notin> set (map_keys m)"
  by (simp add: map_get_def map_keys_def map_of_eq_None_iff)

lemma map_get_in_set: "map_get m k = Some v \<Longrightarrow> (k, v) \<in> set m"
  by (simp add: map_get_def map_of_SomeD)

end
