(* ===== verification/Go_Utf8.thy ===== *)
theory Go_Utf8
  imports Prelude
begin

text \<open>
  The part of \<^verbatim>\<open>unicode/utf8\<close> the program uses: decoding and encoding one rune, the
  test for a complete encoding, decoding from the end, and the conversions between byte
  strings and rune lists. A rune is a \<^typ>\<open>nat\<close>.
\<close>

section \<open>Decoding\<close>

definition rune_error :: nat where
  "rune_error = 0xFFFD"

definition max_rune :: nat where
  "max_rune = 0x10FFFF"

definition rune_self :: nat where
  "rune_self = 0x80"

definition is_cont :: "char \<Rightarrow> bool" where
  "is_cont c \<longleftrightarrow> 0x80 \<le> byte c \<and> byte c \<le> 0xBF"

text \<open>
  The lead byte gives the length of the encoding and the range of the second byte. A
  lead byte that starts no encoding has length 1, as in Go's table.
\<close>

definition utf8_lead :: "nat \<Rightarrow> nat \<times> nat \<times> nat" where
  "utf8_lead x =
    (if x < 0xC2 then (1, 0, 0)
     else if x \<le> 0xDF then (2, 0x80, 0xBF)
     else if x = 0xE0 then (3, 0xA0, 0xBF)
     else if x = 0xED then (3, 0x80, 0x9F)
     else if x \<le> 0xEF then (3, 0x80, 0xBF)
     else if x = 0xF0 then (4, 0x90, 0xBF)
     else if x \<le> 0xF3 then (4, 0x80, 0xBF)
     else if x = 0xF4 then (4, 0x80, 0x8F)
     else (1, 0, 0))"

definition second_ok :: "nat \<Rightarrow> char \<Rightarrow> bool" where
  "second_ok x c \<longleftrightarrow>
    (case utf8_lead x of (_, lo, hi) \<Rightarrow> lo \<le> byte c \<and> byte c \<le> hi)"

fun decode_rune :: "bytes \<Rightarrow> nat \<times> nat" where
  "decode_rune [] = (rune_error, 0)"
| "decode_rune (c # cs) =
    (let x = byte c; sz = fst (utf8_lead x) in
     if x < rune_self then (x, 1)
     else if sz = 2 then
       (case cs of
          c1 # _ \<Rightarrow>
            if second_ok x c1 then ((x - 0xC0) * 64 + (byte c1 - 0x80), 2)
            else (rune_error, 1)
        | _ \<Rightarrow> (rune_error, 1))
     else if sz = 3 then
       (case cs of
          c1 # c2 # _ \<Rightarrow>
            if second_ok x c1 \<and> is_cont c2
            then ((x - 0xE0) * 4096 + (byte c1 - 0x80) * 64 + (byte c2 - 0x80), 3)
            else (rune_error, 1)
        | _ \<Rightarrow> (rune_error, 1))
     else if sz = 4 then
       (case cs of
          c1 # c2 # c3 # _ \<Rightarrow>
            if second_ok x c1 \<and> is_cont c2 \<and> is_cont c3
            then ((x - 0xF0) * 262144 + (byte c1 - 0x80) * 4096 + (byte c2 - 0x80) * 64
                  + (byte c3 - 0x80), 4)
            else (rune_error, 1)
        | _ \<Rightarrow> (rune_error, 1))
     else (rune_error, 1))"

text \<open>\<^verbatim>\<open>utf8.FullRune\<close>: false exactly when the bytes are a proper prefix of an encoding.\<close>

fun full_rune :: "bytes \<Rightarrow> bool" where
  "full_rune [] = False"
| "full_rune (c # cs) =
    (let x = byte c; sz = fst (utf8_lead x) in
     if sz \<le> Suc (length cs) then True
     else (case cs of
             [] \<Rightarrow> False
           | c1 # cs1 \<Rightarrow>
               \<not> second_ok x c1 \<or>
               (case cs1 of [] \<Rightarrow> False | c2 # _ \<Rightarrow> \<not> is_cont c2)))"

definition rune_start :: "char \<Rightarrow> bool" where
  "rune_start c \<longleftrightarrow> \<not> is_cont c"

text \<open>
  \<^verbatim>\<open>utf8.DecodeLastRune\<close> walks back over at most three continuation bytes. \<open>back\<close> is the
  number of bytes before the last one that it steps over.
\<close>

fun last_rune_back :: "nat \<Rightarrow> bytes \<Rightarrow> nat" where
  "last_rune_back 0 _ = 0"
| "last_rune_back (Suc n) [] = 0"
| "last_rune_back (Suc n) (c # cs) = (if rune_start c then 1 else Suc (last_rune_back n cs))"

lemma last_rune_back_code [code]:
  "last_rune_back n [] = 0"
  "last_rune_back n (c # cs) = (if n = 0 then 0 else if rune_start c then 1 else Suc (last_rune_back (n - 1) cs))"
  by (cases n; simp)+

definition decode_last_rune :: "bytes \<Rightarrow> nat \<times> nat" where
  "decode_last_rune p =
    (if p = [] then (rune_error, 0)
     else if byte (last p) < rune_self then (byte (last p), 1)
     else
       let before = tl (rev p);
           back = (if list_all (\<lambda>c. \<not> rune_start c) (take 3 before) \<and> 3 < length before
                   then 4 else last_rune_back 3 before);
           start = length p - 1 - back;
           (r, size) = decode_rune (drop start p)
       in if start + size \<noteq> length p then (rune_error, 1) else (r, size))"

section \<open>Encoding\<close>

definition surrogate :: "nat \<Rightarrow> bool" where
  "surrogate r \<longleftrightarrow> 0xD800 \<le> r \<and> r \<le> 0xDFFF"

definition valid_rune :: "nat \<Rightarrow> bool" where
  "valid_rune r \<longleftrightarrow> r \<le> max_rune \<and> \<not> surrogate r"

definition encode_rune :: "nat \<Rightarrow> bytes" where
  "encode_rune r0 =
    (let r = (if valid_rune r0 then r0 else rune_error) in
     if r \<le> 0x7F then [char_of r]
     else if r \<le> 0x7FF then [char_of (0xC0 + r div 64), char_of (0x80 + r mod 64)]
     else if r \<le> 0xFFFF then
       [char_of (0xE0 + r div 4096), char_of (0x80 + r div 64 mod 64), char_of (0x80 + r mod 64)]
     else
       [char_of (0xF0 + r div 262144), char_of (0x80 + r div 4096 mod 64),
        char_of (0x80 + r div 64 mod 64), char_of (0x80 + r mod 64)])"

section \<open>Facts about one rune\<close>

lemma decode_rune_size_le: "snd (decode_rune p) \<le> length p"
  by (cases p) (auto simp: Let_def split: list.splits)

lemma decode_rune_size_pos: "p \<noteq> [] \<Longrightarrow> 0 < snd (decode_rune p)"
  by (cases p) (auto simp: Let_def split: list.splits)

lemma decode_rune_size_le_4: "snd (decode_rune p) \<le> 4"
  by (cases p) (auto simp: Let_def split: list.splits)

lemma decode_rune_ascii [simp]: "byte c < rune_self \<Longrightarrow> decode_rune (c # cs) = (byte c, 1)"
  by (simp add: Let_def)

lemma decode_rune_snd_ne_0 [simp]: "p \<noteq> [] \<Longrightarrow> snd (decode_rune p) \<noteq> 0"
  using decode_rune_size_pos [of p] by simp

lemma utf8_lead_size: "fst (utf8_lead x) \<in> {1, 2, 3, 4}"
  by (simp add: utf8_lead_def)

lemma utf8_lead_ascii [simp]: "x < rune_self \<Longrightarrow> utf8_lead x = (1, 0, 0)"
  by (simp add: utf8_lead_def rune_self_def)

text \<open>A complete encoding decodes the same whatever bytes follow it.\<close>

lemma full_rune_decode_stable:
  assumes "full_rune p"
  shows "decode_rune (p @ q) = decode_rune p"
proof (cases p)
  case Nil
  with assms show ?thesis by simp
next
  case (Cons c cs)
  have "fst (utf8_lead (byte c)) \<in> {1, 2, 3, 4}" by (rule utf8_lead_size)
  with assms Cons show ?thesis
    by (cases cs; cases "tl cs"; cases "tl (tl cs)")
       (auto simp: Let_def split: if_splits list.splits)
qed

lemma full_rune_append: "full_rune p \<Longrightarrow> full_rune (p @ q)"
  by (cases p; cases "tl p"; cases "tl (tl p)") (auto simp: Let_def split: if_splits list.splits)

lemma full_rune_long:
  assumes "4 \<le> length p"
  shows "full_rune p"
proof (cases p)
  case Nil
  with assms show ?thesis by simp
next
  case (Cons c cs)
  have "fst (utf8_lead (byte c)) \<le> 4" using utf8_lead_size [of "byte c"] by auto
  with assms Cons show ?thesis by (simp add: Let_def)
qed

lemma valid_rune_error [simp]: "valid_rune rune_error"
  by (simp add: valid_rune_def surrogate_def max_rune_def rune_error_def)

lemma encode_rune_len: "length (encode_rune r) \<in> {1, 2, 3, 4}"
  by (simp add: encode_rune_def Let_def)

lemma encode_rune_ne [simp]: "encode_rune r \<noteq> []"
  by (simp add: encode_rune_def Let_def)

lemma decode_rune_2:
  assumes "2 \<le> a" "a \<le> 31" "b < 64"
  shows "decode_rune (char_of (0xC0 + a) # char_of (0x80 + b) # q) = (a * 64 + b, 2)"
proof -
  have "byte (char_of (0xC0 + a)) = 0xC0 + a" "byte (char_of (0x80 + b)) = 0x80 + b"
    using assms by simp_all
  with assms show ?thesis
    by (simp add: Let_def rune_self_def utf8_lead_def second_ok_def)
qed

lemma decode_rune_3:
  assumes "a \<le> 15" "b < 64" "c < 64" "a = 0 \<Longrightarrow> 32 \<le> b" "a = 13 \<Longrightarrow> b \<le> 31"
  shows "decode_rune (char_of (0xE0 + a) # char_of (0x80 + b) # char_of (0x80 + c) # q) =
    (a * 4096 + b * 64 + c, 3)"
proof -
  have b: "byte (char_of (0xE0 + a)) = 0xE0 + a" "byte (char_of (0x80 + b)) = 0x80 + b"
      "byte (char_of (0x80 + c)) = 0x80 + c"
    using assms by simp_all
  have l: "fst (utf8_lead (0xE0 + a)) = 3" using assms(1) by (simp add: utf8_lead_def)
  have "second_ok (0xE0 + a) (char_of (0x80 + b))"
    using assms b by (auto simp: utf8_lead_def second_ok_def)
  moreover have "is_cont (char_of (0x80 + c))" using assms(3) b by (simp add: is_cont_def)
  moreover have "(0xE0 + a) mod 256 = 0xE0 + a" "(0x80 + b) mod 256 = 0x80 + b"
      "(0x80 + c) mod 256 = 0x80 + c"
    using assms(1-3) by simp_all
  ultimately show ?thesis using l by (simp add: Let_def rune_self_def)
qed

lemma decode_rune_4:
  assumes "a \<le> 4" "b < 64" "c < 64" "d < 64" "a = 0 \<Longrightarrow> 16 \<le> b" "a = 4 \<Longrightarrow> b \<le> 15"
  shows "decode_rune (char_of (0xF0 + a) # char_of (0x80 + b) # char_of (0x80 + c) #
      char_of (0x80 + d) # q) = (a * 262144 + b * 4096 + c * 64 + d, 4)"
proof -
  have b: "byte (char_of (0xF0 + a)) = 0xF0 + a" "byte (char_of (0x80 + b)) = 0x80 + b"
      "byte (char_of (0x80 + c)) = 0x80 + c" "byte (char_of (0x80 + d)) = 0x80 + d"
    using assms by simp_all
  have l: "fst (utf8_lead (0xF0 + a)) = 4" using assms(1) by (simp add: utf8_lead_def)
  have "second_ok (0xF0 + a) (char_of (0x80 + b))"
    using assms b by (auto simp: utf8_lead_def second_ok_def)
  moreover have "is_cont (char_of (0x80 + c))" "is_cont (char_of (0x80 + d))"
    using assms(3,4) b by (simp_all add: is_cont_def)
  moreover have "(0xF0 + a) mod 256 = 0xF0 + a" "(0x80 + b) mod 256 = 0x80 + b"
      "(0x80 + c) mod 256 = 0x80 + c" "(0x80 + d) mod 256 = 0x80 + d"
    using assms(1-4) by simp_all
  ultimately show ?thesis using l by (simp add: Let_def rune_self_def)
qed

lemma div_64_split: "(r :: nat) div 64 = 64 * (r div 4096) + r div 64 mod 64"
  using mult_div_mod_eq [of 64 "r div 64"] by (simp add: div_mult2_eq [symmetric])

lemma div_4096_split: "(r :: nat) div 4096 = 64 * (r div 262144) + r div 4096 mod 64"
  using mult_div_mod_eq [of 64 "r div 4096"] by (simp add: div_mult2_eq [symmetric])

text \<open>Encoding a valid rune and decoding it again gives the rune and its length.\<close>

lemma decode_encode_rune:
  assumes "valid_rune r"
  shows "decode_rune (encode_rune r @ q) = (r, length (encode_rune r))"
proof -
  consider "r \<le> 0x7F" | "0x7F < r" "r \<le> 0x7FF" | "0x7FF < r" "r \<le> 0xFFFF" | "0xFFFF < r"
    by linarith
  then show ?thesis
  proof cases
    case 1
    with assms show ?thesis by (simp add: encode_rune_def Let_def rune_self_def)
  next
    case 2
    then have "decode_rune (char_of (0xC0 + r div 64) # char_of (0x80 + r mod 64) # q) =
        (r div 64 * 64 + r mod 64, 2)"
      by (intro decode_rune_2) auto
    with 2 assms show ?thesis by (simp add: encode_rune_def Let_def del: decode_rune.simps)
  next
    case 3
    have "decode_rune (char_of (0xE0 + r div 4096) # char_of (0x80 + r div 64 mod 64) #
        char_of (0x80 + r mod 64) # q) = (r div 4096 * 4096 + r div 64 mod 64 * 64 + r mod 64, 3)"
    proof (rule decode_rune_3)
      show "r div 4096 = 0 \<Longrightarrow> 32 \<le> r div 64 mod 64" using div_64_split [of r] 3 by auto
      show "r div 4096 = 13 \<Longrightarrow> r div 64 mod 64 \<le> 31"
        using div_64_split [of r] 3 assms by (auto simp: valid_rune_def surrogate_def)
    qed (use 3 in auto)
    moreover have "r div 4096 * 4096 + r div 64 mod 64 * 64 + r mod 64 = r"
      using div_64_split [of r] mult_div_mod_eq [of 64 r] by linarith
    ultimately show ?thesis
      using 3 assms by (simp add: encode_rune_def Let_def del: decode_rune.simps)
  next
    case 4
    have m: "r \<le> 0x10FFFF" using assms by (simp add: valid_rune_def max_rune_def)
    have "decode_rune (char_of (0xF0 + r div 262144) # char_of (0x80 + r div 4096 mod 64) #
        char_of (0x80 + r div 64 mod 64) # char_of (0x80 + r mod 64) # q) =
        (r div 262144 * 262144 + r div 4096 mod 64 * 4096 + r div 64 mod 64 * 64 + r mod 64, 4)"
    proof (rule decode_rune_4)
      show "r div 262144 = 0 \<Longrightarrow> 16 \<le> r div 4096 mod 64" using div_4096_split [of r] 4 by auto
      show "r div 262144 = 4 \<Longrightarrow> r div 4096 mod 64 \<le> 15" using div_4096_split [of r] m by auto
    qed (use m in auto)
    moreover have
      "r div 262144 * 262144 + r div 4096 mod 64 * 4096 + r div 64 mod 64 * 64 + r mod 64 = r"
      using div_64_split [of r] div_4096_split [of r] mult_div_mod_eq [of 64 r] by linarith
    ultimately show ?thesis
      using 4 assms by (simp add: encode_rune_def Let_def del: decode_rune.simps)
  qed
qed

section \<open>Rune lists\<close>

text \<open>The conversion \<^verbatim>\<open>[]rune(s)\<close>: an invalid byte becomes \<^const>\<open>rune_error\<close>.\<close>

function runes_of :: "bytes \<Rightarrow> nat list" where
  "runes_of [] = []"
| "runes_of (c # cs) =
    fst (decode_rune (c # cs)) # runes_of (drop (snd (decode_rune (c # cs))) (c # cs))"
  by pat_completeness auto
termination
proof (relation "measure length")
  show "wf (measure (length :: bytes \<Rightarrow> nat))" by simp
  fix c and cs :: bytes
  show "(drop (snd (decode_rune (c # cs))) (c # cs), c # cs) \<in> measure length"
    using decode_rune_size_pos [of "c # cs"] by (simp del: decode_rune.simps)
qed

definition string_of_runes :: "nat list \<Rightarrow> bytes" where
  "string_of_runes rs = concat (map encode_rune rs)"

definition rune_count :: "bytes \<Rightarrow> nat" where
  "rune_count s = length (runes_of s)"

lemma runes_of_string_of_runes:
  "list_all valid_rune rs \<Longrightarrow> runes_of (string_of_runes rs) = rs"
proof (induction rs)
  case Nil
  then show ?case by (simp add: string_of_runes_def)
next
  case (Cons r rs)
  obtain c cs where e: "string_of_runes (r # rs) = c # cs"
    using encode_rune_ne [of r] by (cases "string_of_runes (r # rs)") (auto simp: string_of_runes_def)
  have split: "c # cs = encode_rune r @ string_of_runes rs"
    using e by (simp add: string_of_runes_def)
  have d: "decode_rune (c # cs) = (r, length (encode_rune r))"
    using Cons.prems unfolding split by (intro decode_encode_rune) simp
  have "drop (length (encode_rune r)) (c # cs) = string_of_runes rs"
    unfolding split by simp
  with Cons d show ?case by (simp add: e del: decode_rune.simps)
qed

section \<open>Encoding what was decoded\<close>

lemma encode_rune_2:
  assumes "r = a * 64 + b" "2 \<le> a" "a \<le> 31" "b < 64"
  shows "encode_rune r = [char_of (0xC0 + a), char_of (0x80 + b)]"
  using assms by (simp add: encode_rune_def Let_def valid_rune_def max_rune_def surrogate_def)

lemma encode_rune_3:
  assumes "r = a * 4096 + b * 64 + c" "a \<le> 15" "b < 64" "c < 64" "a = 0 \<Longrightarrow> 32 \<le> b" "a = 13 \<Longrightarrow> b \<le> 31"
  shows "encode_rune r = [char_of (0xE0 + a), char_of (0x80 + b), char_of (0x80 + c)]"
proof -
  define k where "k = a * 64 + b"
  have "r = k * 64 + c" using assms(1) by (simp add: k_def)
  with assms(4) have q: "r div 64 = a * 64 + b" "r mod 64 = c" by (simp_all add: k_def [symmetric])
  have "r div 4096 = r div 64 div 64" by (simp add: div_mult2_eq [symmetric])
  with q assms(3) have d: "r div 4096 = a" "r div 64 mod 64 = b" "r mod 64 = c" by simp_all
  have "0x7FF < r" using assms by (cases "a = 0") auto
  moreover have "r \<le> 0xFFFF" using assms by auto
  moreover have "valid_rune r"
  proof -
    have "\<not> surrogate r"
      using assms by (cases "a = 13"; cases "a < 13") (auto simp: surrogate_def)
    with \<open>r \<le> 0xFFFF\<close> show ?thesis by (simp add: valid_rune_def max_rune_def)
  qed
  ultimately show ?thesis using d by (simp add: encode_rune_def Let_def)
qed

lemma encode_rune_4:
  assumes "r = a * 262144 + b * 4096 + c * 64 + d" "a \<le> 4" "b < 64" "c < 64" "d < 64"
    "a = 0 \<Longrightarrow> 16 \<le> b" "a = 4 \<Longrightarrow> b \<le> 15"
  shows "encode_rune r = [char_of (0xF0 + a), char_of (0x80 + b), char_of (0x80 + c), char_of (0x80 + d)]"
proof -
  define j k where "j = a * 64 + b" and "k = j * 64 + c"
  have "r = k * 64 + d" using assms(1) by (simp add: j_def k_def)
  with assms(5) have "r div 64 = k" "r mod 64 = d" by simp_all
  moreover have "k div 64 = j" "k mod 64 = c" using assms(4) by (simp_all add: k_def)
  moreover have "j div 64 = a" "j mod 64 = b" using assms(3) by (simp_all add: j_def)
  moreover have "r div 4096 = r div 64 div 64" "r div 262144 = r div 64 div 64 div 64"
    by (simp_all add: div_mult2_eq [symmetric])
  ultimately have e: "r div 262144 = a" "r div 4096 mod 64 = b" "r div 64 mod 64 = c" "r mod 64 = d"
    by simp_all
  have "0xFFFF < r" using assms by (cases "a = 0") auto
  moreover have "r \<le> 0x10FFFF" using assms by (cases "a = 4") auto
  moreover have "valid_rune r"
    using calculation by (simp add: valid_rune_def max_rune_def surrogate_def)
  ultimately show ?thesis using e by (simp add: encode_rune_def Let_def)
qed

text \<open>A decoded rune that is no error encodes to the bytes it was read from.\<close>

lemma encode_decode_rune:
  assumes "decode_rune p = (r, w)" and "p \<noteq> []" and "\<not> (r = rune_error \<and> w \<le> 1)"
  shows "encode_rune r = take w p"
proof -
  obtain c cs where p: "p = c # cs" using assms(2) by (cases p) auto
  let ?x = "byte c"
  consider "?x < rune_self" | "rune_self \<le> ?x" "fst (utf8_lead ?x) = 1"
    | "rune_self \<le> ?x" "fst (utf8_lead ?x) = 2" | "rune_self \<le> ?x" "fst (utf8_lead ?x) = 3"
    | "rune_self \<le> ?x" "fst (utf8_lead ?x) = 4"
    using utf8_lead_size [of ?x] by fastforce
  then show ?thesis
  proof cases
    case 1
    with assms p show ?thesis
      by (auto simp: encode_rune_def Let_def rune_self_def valid_rune_def max_rune_def surrogate_def)
  next
    case 2
    with assms p show ?thesis by (simp add: Let_def)
  next
    case 3
    then have x: "0xC2 \<le> ?x" "?x \<le> 0xDF" by (auto simp: utf8_lead_def split: if_splits)
    from 3 assms p obtain c1 ds where cs: "cs = c1 # ds" and s: "second_ok ?x c1"
      and r: "r = (?x - 0xC0) * 64 + (byte c1 - 0x80)" "w = 2"
      by (auto simp: Let_def split: list.splits if_splits)
    from s x have y: "0x80 \<le> byte c1" "byte c1 \<le> 0xBF"
      by (auto simp: second_ok_def utf8_lead_def split: if_splits)
    from encode_rune_2 [OF r(1)] x y show ?thesis using p cs r by simp
  next
    case 4
    then have x: "0xE0 \<le> ?x" "?x \<le> 0xEF" by (auto simp: utf8_lead_def split: if_splits)
    from 4 assms p obtain c1 c2 ds where cs: "cs = c1 # c2 # ds" and s: "second_ok ?x c1" "is_cont c2"
      and r: "r = (?x - 0xE0) * 4096 + (byte c1 - 0x80) * 64 + (byte c2 - 0x80)" "w = 3"
      by (auto simp: Let_def split: list.splits if_splits)
    from s x have y: "0x80 \<le> byte c1" "byte c1 \<le> 0xBF" "0x80 \<le> byte c2" "byte c2 \<le> 0xBF"
      and z: "?x = 0xE0 \<Longrightarrow> 0xA0 \<le> byte c1" "?x = 0xED \<Longrightarrow> byte c1 \<le> 0x9F"
      by (auto simp: second_ok_def utf8_lead_def is_cont_def split: if_splits)
    have "byte c1 - 0x80 \<le> 31" if "?x - 0xE0 = 13"
      using z(2) that by (cases "?x = 0xED") auto
    moreover have "32 \<le> byte c1 - 0x80" if "?x - 0xE0 = 0"
      using z(1) that x(1) by (cases "?x = 0xE0") auto
    ultimately show ?thesis
      using encode_rune_3 [OF r(1)] x y p cs r(2) by simp
  next
    case 5
    then have x: "0xF0 \<le> ?x" "?x \<le> 0xF4" by (auto simp: utf8_lead_def split: if_splits)
    from 5 assms p obtain c1 c2 c3 ds where cs: "cs = c1 # c2 # c3 # ds"
      and s: "second_ok ?x c1" "is_cont c2" "is_cont c3"
      and r: "r = (?x - 0xF0) * 262144 + (byte c1 - 0x80) * 4096 + (byte c2 - 0x80) * 64
                + (byte c3 - 0x80)" "w = 4"
      by (auto simp: Let_def split: list.splits if_splits)
    from s x have y: "0x80 \<le> byte c1" "byte c1 \<le> 0xBF" "0x80 \<le> byte c2" "byte c2 \<le> 0xBF"
        "0x80 \<le> byte c3" "byte c3 \<le> 0xBF"
      and z: "?x = 0xF0 \<Longrightarrow> 0x90 \<le> byte c1" "?x = 0xF4 \<Longrightarrow> byte c1 \<le> 0x8F"
      by (auto simp: second_ok_def utf8_lead_def is_cont_def split: if_splits)
    have "byte c1 - 0x80 \<le> 15" if "?x - 0xF0 = 4"
      using z(2) that by (cases "?x = 0xF4") auto
    moreover have "16 \<le> byte c1 - 0x80" if "?x - 0xF0 = 0"
      using z(1) that x(1) by (cases "?x = 0xF0") auto
    ultimately show ?thesis
      using encode_rune_4 [OF r(1)] x y p cs r(2) by simp
  qed
qed

section \<open>Decoding from the end\<close>

lemma decode_rune_short:
  assumes "0x80 \<le> byte c" and "Suc (length cs) < fst (utf8_lead (byte c))"
  shows "decode_rune (c # cs) = (rune_error, 1)"
  using assms utf8_lead_size [of "byte c"] by (auto simp: Let_def rune_self_def split: list.splits)

lemma decode_last_rune_back:
  assumes lead: "\<not> is_cont lead" and mid: "list_all is_cont mid" "length mid \<le> 3" and l: "0x80 \<le> byte l"
  shows "decode_last_rune (xs @ lead # mid @ [l]) =
    (case decode_rune (lead # mid @ [l]) of
       (r, n) \<Rightarrow> if n \<noteq> length mid + 2 then (rune_error, 1) else (r, n))"
proof -
  let ?before = "rev mid @ lead # rev xs"
  have m: "list_all (\<lambda>c. \<not> rune_start c) (rev mid)" using mid(1) by (simp add: rune_start_def)
  have bk: "last_rune_back n ?before = Suc (length mid)" if "length mid < n" for n
    using that m lead
  proof (induction "rev mid" arbitrary: mid n)
    case Nil
    then show ?case by (cases n) (auto simp: rune_start_def)
  next
    case (Cons c cs)
    then obtain n' where n: "n = Suc n'" by (cases n) auto
    from Cons(2) have "mid = rev cs @ [c]" by (metis rev.simps(2) rev_swap)
    with Cons.hyps(1) [of "rev cs" n'] Cons.prems n show ?case by simp
  qed
  have "(if list_all (\<lambda>c. \<not> rune_start c) (take 3 ?before) \<and> 3 < length ?before
         then 4 else last_rune_back 3 ?before) = Suc (length mid)"
  proof (cases "length mid = 3")
    case True
    with m show ?thesis by simp
  next
    case False
    with mid have lt: "length mid < 3" by simp
    have "\<not> list_all (\<lambda>c. \<not> rune_start c) (take 3 ?before)"
      using lt lead by (auto simp: rune_start_def take_Cons' )
    with bk [OF lt] show ?thesis by auto
  qed
  with l show ?thesis
    by (simp add: decode_last_rune_def rune_self_def Let_def)
qed

lemma encode_rune_shape:
  assumes "valid_rune r"
  obtains c cs where "encode_rune r = c # cs" "\<not> is_cont c" "list_all is_cont cs" "length cs \<le> 3"
    "byte c < 0x80 \<longleftrightarrow> cs = []" "fst (utf8_lead (byte c)) = Suc (length cs)"
proof (cases "encode_rune r")
  case (Cons c cs)
  have len: "length cs \<le> 3" using encode_rune_len [of r] Cons by auto
  have d: "decode_rune (c # cs) = (r, Suc (length cs))"
    using decode_encode_rune [OF assms, of "[]"] Cons by simp
  have cont: "list_all is_cont cs"
    using Cons assms by (auto simp: encode_rune_def is_cont_def Let_def split: if_splits)
  have lead: "\<not> is_cont c" "byte c < 0x80 \<longleftrightarrow> cs = []"
    using d utf8_lead_size [of "byte c"] Cons assms
    by (auto simp: encode_rune_def is_cont_def Let_def valid_rune_def max_rune_def split: if_splits)
  have "fst (utf8_lead (byte c)) = Suc (length cs)"
  proof (cases cs)
    case Nil
    with lead show ?thesis by (simp add: utf8_lead_def)
  next
    case (Cons d ds)
    with d lead utf8_lead_size [of "byte c"] show ?thesis
      by (auto simp: Let_def rune_self_def split: if_splits list.splits)
  qed
  with that Cons lead cont len show thesis by blast
qed simp

lemma decode_last_rune_encoded:
  assumes "valid_rune r"
  shows "decode_last_rune (xs @ encode_rune r) = (r, length (encode_rune r))"
proof -
  obtain c cs where e: "encode_rune r = c # cs" "\<not> is_cont c" "list_all is_cont cs"
      "length cs \<le> 3" "byte c < 0x80 \<longleftrightarrow> cs = []"
    using encode_rune_shape [OF assms] by metis
  have d: "decode_rune (c # cs) = (r, Suc (length cs))"
    using decode_encode_rune [OF assms, of "[]"] e by simp
  show ?thesis
  proof (cases cs rule: rev_cases)
    case Nil
    with e d show ?thesis by (simp add: decode_last_rune_def rune_self_def)
  next
    case (snoc mid l)
    with e have "0x80 \<le> byte l" by (simp add: is_cont_def)
    with e snoc d decode_last_rune_back [of c mid l xs] show ?thesis
      by (simp del: decode_rune.simps)
  qed
qed

text \<open>After whole encodings, a proper part of one more is an error of width one.\<close>

lemma decode_last_rune_fragment:
  assumes rs: "list_all valid_rune rs" and r: "valid_rune r"
    and p: "strict_prefix p (encode_rune r)" "p \<noteq> []"
  shows "decode_last_rune (string_of_runes rs @ p) = (rune_error, 1)"
proof -
  obtain c cs where e: "encode_rune r = c # cs" "\<not> is_cont c" "list_all is_cont cs"
      "length cs \<le> 3" "byte c < 0x80 \<longleftrightarrow> cs = []" "fst (utf8_lead (byte c)) = Suc (length cs)"
    using encode_rune_shape [OF r] by metis
  from p e obtain ds where ds: "p = c # ds" "strict_prefix ds cs"
    by (cases p) (auto simp: strict_prefix_def)
  have c80: "0x80 \<le> byte c" using ds e by (cases cs) auto
  have short: "decode_rune (c # ds) = (rune_error, 1)"
    using c80 e(6) ds(2) prefix_length_less by (intro decode_rune_short) fastforce+
  have cont: "list_all is_cont ds" "length ds \<le> 3"
    using ds(2) e(3,4) prefix_length_less [OF ds(2)] by (auto simp: strict_prefix_def prefix_def)
  show ?thesis
  proof (cases ds rule: rev_cases)
    case (snoc mid l)
    with cont have "0x80 \<le> byte l" by (simp add: is_cont_def)
    with cont snoc e(2) short ds decode_last_rune_back [of c mid l "string_of_runes rs"]
    show ?thesis by (simp del: decode_rune.simps)
  next
    case Nil
    show ?thesis
    proof (cases rs rule: rev_cases)
      case Nil
      with \<open>ds = []\<close> ds c80 short show ?thesis
        by (simp add: decode_last_rune_def string_of_runes_def rune_self_def numeral_3_eq_3
            del: decode_rune.simps)
    next
      case (snoc qs q)
      with rs have q: "valid_rune q" by simp
      obtain b bs where f: "encode_rune q = b # bs" "\<not> is_cont b" "list_all is_cont bs" "length bs \<le> 3"
        using encode_rune_shape [OF q] by metis
      have "decode_rune (b # bs @ [c]) = (q, Suc (length bs))"
        using decode_encode_rune [OF q, of "[c]"] f by simp
      with f c80 snoc \<open>ds = []\<close> ds decode_last_rune_back [of b bs c "string_of_runes qs"]
      show ?thesis by (simp add: string_of_runes_def del: decode_rune.simps)
    qed
  qed
qed

text \<open>Where a cut at a byte position falls in a text.\<close>

lemma take_string_of_runes:
  obtains k p where "take m (string_of_runes rs) = string_of_runes (take k rs) @ p"
    and "p = [] \<or> (\<exists>r \<in> set rs. strict_prefix p (encode_rune r))"
proof (induction rs arbitrary: m thesis)
  case Nil
  show thesis by (rule Nil [of 0 "[]"]) (simp_all add: string_of_runes_def)
next
  case (Cons r rs)
  show thesis
  proof (cases "length (encode_rune r) \<le> m")
    case True
    obtain k p where kp: "take (m - length (encode_rune r)) (string_of_runes rs) = string_of_runes (take k rs) @ p"
      "p = [] \<or> (\<exists>r \<in> set rs. strict_prefix p (encode_rune r))" using Cons.IH by blast
    show thesis
      by (rule Cons.prems [of "Suc k" p]) (use True kp in \<open>auto simp: string_of_runes_def\<close>)
  next
    case False
    then have "strict_prefix (take m (encode_rune r)) (encode_rune r)"
      by (simp add: strict_prefix_def take_is_prefix)
    with False show thesis
      by (intro Cons.prems [of 0 "take m (encode_rune r)"]) (auto simp: string_of_runes_def)
  qed
qed

end
