(* ===== verification/Go_Strings.thy ===== *)
theory Go_Strings
  imports Go_Utf8
begin

text \<open>
  The functions of Go's \<^verbatim>\<open>strings\<close>, \<^verbatim>\<open>bytes\<close> and \<^verbatim>\<open>strconv\<close> packages that the program
  calls. Case mapping and white space are given on ASCII bytes: Go also maps letters and
  recognises spaces outside ASCII, which the model leaves unchanged. The names the program
  compares this way (DNS names, HTTP methods, header names, SQL identifiers after
  case folding) are ASCII; \<^verbatim>\<open>net/http\<close> refuses a request whose Host is not.
\<close>

section \<open>Case and white space\<close>

definition lower_char :: "char \<Rightarrow> char" where
  "lower_char c = (if 65 \<le> byte c \<and> byte c \<le> 90 then char_of (byte c + 32) else c)"

definition upper_char :: "char \<Rightarrow> char" where
  "upper_char c = (if 97 \<le> byte c \<and> byte c \<le> 122 then char_of (byte c - 32) else c)"

definition to_lower :: "string \<Rightarrow> string" where
  "to_lower s = map lower_char s"

definition to_upper :: "string \<Rightarrow> string" where
  "to_upper s = map upper_char s"

definition equal_fold :: "string \<Rightarrow> string \<Rightarrow> bool" where
  "equal_fold a b \<longleftrightarrow> to_lower a = to_lower b"

definition is_space :: "char \<Rightarrow> bool" where
  "is_space c \<longleftrightarrow> byte c = 32 \<or> (9 \<le> byte c \<and> byte c \<le> 13)"

definition trim_by :: "(char \<Rightarrow> bool) \<Rightarrow> string \<Rightarrow> string" where
  "trim_by p s = rev (dropWhile p (rev (dropWhile p s)))"

definition trim_space :: "string \<Rightarrow> string" where
  "trim_space s = trim_by is_space s"

text \<open>\<^verbatim>\<open>strings.Trim(s, cutset)\<close> for an ASCII cutset.\<close>

definition trim_set :: "string \<Rightarrow> string \<Rightarrow> string" where
  "trim_set s cutset = trim_by (\<lambda>c. c \<in> set cutset) s"

lemma lower_char_idem [simp]: "lower_char (lower_char c) = lower_char c"
  by (auto simp: lower_char_def)

lemma to_lower_idem [simp]: "to_lower (to_lower s) = to_lower s"
  by (simp add: to_lower_def)

lemma to_lower_Nil [simp]: "to_lower [] = []"
  by (simp add: to_lower_def)

lemma to_lower_append [simp]: "to_lower (a @ b) = to_lower a @ to_lower b"
  by (simp add: to_lower_def)

lemma length_to_lower [simp]: "length (to_lower s) = length s"
  by (simp add: to_lower_def)

lemma to_lower_eq_Nil [simp]: "to_lower s = [] \<longleftrightarrow> s = []"
  by (simp add: to_lower_def)

lemma lower_char_upper_char [simp]: "lower_char (upper_char c) = lower_char c"
  by (auto simp: lower_char_def upper_char_def)

lemma to_lower_to_upper [simp]: "to_lower (to_upper s) = to_lower s"
  by (simp add: to_lower_def to_upper_def)

lemma equal_fold_refl [simp]: "equal_fold s s"
  by (simp add: equal_fold_def)

lemma equal_fold_lower [simp]: "equal_fold (to_lower a) b = equal_fold a b"
    "equal_fold a (to_lower b) = equal_fold a b"
  by (simp_all add: equal_fold_def)

lemma equal_fold_sym: "equal_fold a b \<longleftrightarrow> equal_fold b a"
  by (auto simp: equal_fold_def)

lemma equal_fold_length: "equal_fold a b \<Longrightarrow> length a = length b"
  unfolding equal_fold_def to_lower_def by (rule map_eq_imp_length_eq)

section \<open>Searching\<close>

definition has_prefix :: "string \<Rightarrow> string \<Rightarrow> bool" where
  "has_prefix s p \<longleftrightarrow> prefix p s"

definition has_suffix :: "string \<Rightarrow> string \<Rightarrow> bool" where
  "has_suffix s p \<longleftrightarrow> suffix p s"

definition str_contains :: "string \<Rightarrow> string \<Rightarrow> bool" where
  "str_contains s sub \<longleftrightarrow> sublist sub s"

definition contains_char :: "string \<Rightarrow> char \<Rightarrow> bool" where
  "contains_char s c \<longleftrightarrow> c \<in> set s"

text \<open>\<^verbatim>\<open>strings.ContainsAny(s, chars)\<close> for ASCII \<open>chars\<close>.\<close>

definition contains_any :: "string \<Rightarrow> string \<Rightarrow> bool" where
  "contains_any s chars \<longleftrightarrow> list_ex (\<lambda>c. c \<in> set chars) s"

definition trim_suffix :: "string \<Rightarrow> string \<Rightarrow> string" where
  "trim_suffix s suf = (if suffix suf s then take (length s - length suf) s else s)"

definition trim_prefix :: "string \<Rightarrow> string \<Rightarrow> string" where
  "trim_prefix s p = (if prefix p s then drop (length p) s else s)"

definition cut_prefix :: "string \<Rightarrow> string \<Rightarrow> string option" where
  "cut_prefix s p = (if prefix p s then Some (drop (length p) s) else None)"

text \<open>
  \<^verbatim>\<open>strings.Cut(s, sep)\<close>: the text before and after the first separator, or \<open>None\<close> when
  there is none (Go then returns the whole string, the empty string and false).
\<close>

fun str_cut :: "string \<Rightarrow> string \<Rightarrow> (string \<times> string) option" where
  "str_cut [] sep = (if sep = [] then Some ([], []) else None)"
| "str_cut (c # cs) sep =
    (if prefix sep (c # cs) then Some ([], drop (length sep) (c # cs))
     else map_option (\<lambda>(a, b). (c # a, b)) (str_cut cs sep))"

text \<open>\<^verbatim>\<open>strings.Split(s, sep)\<close> for a one-byte separator.\<close>

fun split_char :: "char \<Rightarrow> string \<Rightarrow> string list" where
  "split_char sep [] = [[]]"
| "split_char sep (c # cs) =
    (if c = sep then [] # split_char sep cs
     else (case split_char sep cs of [] \<Rightarrow> [[c]] | w # ws \<Rightarrow> (c # w) # ws))"

text \<open>\<^verbatim>\<open>strings.Join\<close>.\<close>

fun str_join :: "string list \<Rightarrow> string \<Rightarrow> string" where
  "str_join [] sep = []"
| "str_join [w] sep = w"
| "str_join (w # v # ws) sep = w @ sep @ str_join (v # ws) sep"

text \<open>\<^verbatim>\<open>IndexByte\<close> and \<^verbatim>\<open>LastIndexByte\<close>, \<open>None\<close> for Go's -1.\<close>

fun index_byte :: "string \<Rightarrow> char \<Rightarrow> nat option" where
  "index_byte [] c = None"
| "index_byte (d # ds) c = (if d = c then Some 0 else map_option Suc (index_byte ds c))"

fun last_index_byte :: "string \<Rightarrow> char \<Rightarrow> nat option" where
  "last_index_byte [] c = None"
| "last_index_byte (d # ds) c =
    (case last_index_byte ds c of
       Some i \<Rightarrow> Some (Suc i)
     | None \<Rightarrow> if d = c then Some 0 else None)"

lemma str_contains_iff: "str_contains s sub \<longleftrightarrow> (\<exists>a b. s = a @ sub @ b)"
  by (simp add: str_contains_def sublist_iff_append)

lemma contains_any_iff: "contains_any s chars \<longleftrightarrow> set s \<inter> set chars \<noteq> {}"
  by (auto simp: contains_any_def list_ex_iff)

lemma trim_suffix_append [simp]: "trim_suffix (s @ suf) suf = s"
  by (simp add: trim_suffix_def suffix_def)

lemma split_char_ne [simp]: "split_char sep s \<noteq> []"
  by (induction s) (auto split: list.splits)

lemma split_char_no_sep: "w \<in> set (split_char sep s) \<Longrightarrow> sep \<notin> set w"
  by (induction s arbitrary: w) (auto split: if_splits list.splits)

lemma join_split_char [simp]: "str_join (split_char sep s) [sep] = s"
proof (induction s)
  case Nil
  then show ?case by simp
next
  case (Cons c s)
  obtain w ws where w: "split_char sep s = w # ws" by (cases "split_char sep s") auto
  with Cons show ?case by (cases ws) auto
qed

lemma split_char_single: "sep \<notin> set w \<Longrightarrow> split_char sep w = [w]"
  by (induction w) auto

lemma split_char_append:
  "sep \<notin> set w \<Longrightarrow> split_char sep (w @ sep # s) = w # split_char sep s"
  by (induction w) auto

lemma split_char_join:
  assumes "ws \<noteq> []" and "\<forall>w \<in> set ws. sep \<notin> set w"
  shows "split_char sep (str_join ws [sep]) = ws"
  using assms by (induction ws "[sep]" rule: str_join.induct)
    (auto simp: split_char_single split_char_append)

lemma index_byte_None: "index_byte s c = None \<longleftrightarrow> c \<notin> set s"
  by (induction s) auto

lemma last_index_byte_None: "last_index_byte s c = None \<longleftrightarrow> c \<notin> set s"
  by (induction s) (auto split: option.splits)

lemma index_byte_append: "c \<notin> set a \<Longrightarrow> index_byte (a @ c # b) c = Some (length a)"
  by (induction a) auto

lemma index_byte_SomeD:
  "index_byte s c = Some i \<Longrightarrow> \<exists>b. s = take i s @ c # b \<and> c \<notin> set (take i s) \<and> length (take i s) = i"
proof (induction s arbitrary: i)
  case Nil
  then show ?case by simp
next
  case (Cons d s)
  show ?case
  proof (cases "d = c")
    case True
    with Cons.prems show ?thesis by simp
  next
    case False
    with Cons.prems obtain j where j: "index_byte s c = Some j" "i = Suc j" by auto
    from Cons.IH [OF j(1)] j False show ?thesis by auto
  qed
qed

lemma last_index_byte_append: "c \<notin> set b \<Longrightarrow> last_index_byte (a @ c # b) c = Some (length a)"
proof (induction a)
  case Nil
  then have "last_index_byte b c = None" by (simp add: last_index_byte_None)
  then show ?case by simp
next
  case (Cons d a)
  then show ?case by simp
qed

lemma last_index_byte_SomeD:
  "last_index_byte s c = Some i \<Longrightarrow>
    \<exists>b. s = take i s @ c # b \<and> c \<notin> set b \<and> b = drop (Suc i) s \<and> i < length s"
proof (induction s arbitrary: i)
  case Nil
  then show ?case by simp
next
  case (Cons d s)
  show ?case
  proof (cases "last_index_byte s c")
    case None
    with Cons.prems show ?thesis by (auto simp: last_index_byte_None split: if_splits)
  next
    case (Some j)
    with Cons show ?thesis by auto
  qed
qed

section \<open>Replacing\<close>

text \<open>
  \<^verbatim>\<open>strings.ReplaceAll(s, old, new)\<close> scans left to right without overlap. With an empty
  \<open>old\<close> it inserts \<open>new\<close> before every rune and at the end.
\<close>

function replace_all :: "string \<Rightarrow> string \<Rightarrow> string \<Rightarrow> string" where
  "replace_all [] old new = (if old = [] then new else [])"
| "replace_all (c # cs) old new =
    (if old = [] then
       (let n = snd (decode_rune (c # cs)) in
        new @ take n (c # cs) @ replace_all (drop n (c # cs)) old new)
     else if prefix old (c # cs) then new @ replace_all (drop (length old) (c # cs)) old new
     else c # replace_all cs old new)"
  by pat_completeness auto
termination
proof (relation "measure (\<lambda>(s, old, new). length s)")
  show "wf (measure (\<lambda>(s, old, new). length (s :: string)))" by simp
next
  fix c and cs old new :: string and n
  assume "old = []" and "n = snd (decode_rune (c # cs))"
  then show "((drop n (c # cs), old, new), c # cs, old, new) \<in> measure (\<lambda>(s, old, new). length s)"
    using decode_rune_size_pos [of "c # cs"] by (simp del: decode_rune.simps)
next
  fix c and cs old new :: string
  assume "old \<noteq> []"
  then show "((drop (length old) (c # cs), old, new), c # cs, old, new)
      \<in> measure (\<lambda>(s, old, new). length s)"
    by (cases old) auto
qed auto

lemma replace_all_absent:
  assumes "old \<noteq> []" and "\<not> str_contains s old"
  shows "replace_all s old new = s"
  using assms
proof (induction s)
  case Nil
  then show ?case by simp
next
  case (Cons c cs)
  have "\<not> prefix old (c # cs)"
    using Cons.prems by (auto simp: str_contains_def sublist_Cons_right)
  moreover have "\<not> str_contains cs old"
    using Cons.prems by (auto simp: str_contains_def sublist_Cons_right)
  ultimately show ?case using Cons by simp
qed

lemma replace_all_leftmost:
  assumes "old \<noteq> []" and "\<not> str_contains (a @ butlast old) old"
  shows "replace_all (a @ old @ b) old new = a @ new @ replace_all b old new"
  using assms
proof (induction a)
  case Nil
  obtain c cs where "old = c # cs" using Nil.prems(1) by (cases old) auto
  then show ?case by simp
next
  case (Cons x a)
  have "\<not> prefix old (x # a @ old @ b)"
  proof
    assume p: "prefix old (x # a @ old @ b)"
    have e: "x # a @ old @ b = (x # a @ butlast old) @ last old # b"
      using Cons.prems(1) by simp
    have "length old \<le> length (x # a @ butlast old)"
      using Cons.prems(1) by (cases old rule: rev_cases) auto
    with p e have "prefix old (x # a @ butlast old)"
      by (metis prefix_length_prefix prefix_append prefix_order.refl prefixI)
    then have "sublist old (x # a @ butlast old)" by (rule prefix_imp_sublist)
    with Cons.prems(2) show False by (simp add: str_contains_def)
  qed
  moreover have "\<not> str_contains (a @ butlast old) old"
    using Cons.prems(2) by (auto simp: str_contains_def sublist_Cons_right)
  ultimately show ?case using Cons by simp
qed

section \<open>Numbers\<close>

definition is_digit :: "char \<Rightarrow> bool" where
  "is_digit c \<longleftrightarrow> 48 \<le> byte c \<and> byte c \<le> 57"

definition digit_val :: "char \<Rightarrow> nat" where
  "digit_val c = byte c - 48"

fun dec_val :: "nat \<Rightarrow> string \<Rightarrow> nat" where
  "dec_val acc [] = acc"
| "dec_val acc (c # cs) = dec_val (acc * 10 + digit_val c) cs"

text \<open>\<^verbatim>\<open>strconv.Atoi\<close>: an optional sign, at least one digit, and the range of \<^verbatim>\<open>int64\<close>.\<close>

definition atoi :: "string \<Rightarrow> int option" where
  "atoi s =
    (let (neg, ds) = (case s of
           [] \<Rightarrow> (False, [])
         | c # cs \<Rightarrow>
             if c = CHR ''-'' then (True, cs)
             else if c = CHR ''+'' then (False, cs)
             else (False, s))
     in if ds = [] \<or> \<not> list_all is_digit ds then None
        else
          let n = int (dec_val 0 ds); v = (if neg then - n else n)
          in if - (2 ^ 63) \<le> v \<and> v < 2 ^ 63 then Some v else None)"

fun itoa_nat :: "nat \<Rightarrow> string" where
  "itoa_nat n =
    (if n < 10 then [char_of (48 + n)] else itoa_nat (n div 10) @ [char_of (48 + n mod 10)])"

declare itoa_nat.simps [simp del]

definition itoa :: "int \<Rightarrow> string" where
  "itoa n = (if n < 0 then CHR ''-'' # itoa_nat (nat (- n)) else itoa_nat (nat n))"

lemma dec_val_append: "dec_val acc (xs @ ys) = dec_val (dec_val acc xs) ys"
  by (induction xs arbitrary: acc) auto

lemma itoa_nat_digits: "list_all is_digit (itoa_nat n)"
proof (induction n rule: itoa_nat.induct)
  case (1 n)
  show ?case
  proof (cases "n < 10")
    case True
    then show ?thesis by (simp add: itoa_nat.simps [of n] is_digit_def)
  next
    case False
    have "48 + n mod 10 < 256" using mod_less_divisor [of 10 n] by linarith
    then have "(48 + n mod 10) mod 256 = 48 + n mod 10" by (rule mod_less)
    with 1 False show ?thesis by (simp add: itoa_nat.simps [of n] is_digit_def)
  qed
qed

lemma itoa_nat_ne [simp]: "itoa_nat n \<noteq> []"
  by (subst itoa_nat.simps) simp

lemma dec_val_itoa_nat: "dec_val 0 (itoa_nat n) = n"
proof (induction n rule: itoa_nat.induct)
  case (1 n)
  show ?case
  proof (cases "n < 10")
    case True
    then show ?thesis by (simp add: itoa_nat.simps [of n] digit_val_def)
  next
    case False
    have "48 + n mod 10 < 256" using mod_less_divisor [of 10 n] by linarith
    then have "(48 + n mod 10) mod 256 = 48 + n mod 10" by (rule mod_less)
    with 1 False show ?thesis
      by (simp add: itoa_nat.simps [of n] dec_val_append digit_val_def)
  qed
qed

lemma itoa_nat_hd: "hd (itoa_nat n) \<noteq> CHR ''-'' \<and> hd (itoa_nat n) \<noteq> CHR ''+''"
proof -
  have "is_digit (hd (itoa_nat n))"
    using itoa_nat_digits [of n] itoa_nat_ne [of n] by (cases "itoa_nat n") auto
  then show ?thesis by (auto simp: is_digit_def)
qed

lemma atoi_itoa:
  assumes "int n < 2 ^ 63"
  shows "atoi (itoa (int n)) = Some (int n)"
proof -
  obtain c cs where e: "itoa_nat n = c # cs" using itoa_nat_ne [of n] by (cases "itoa_nat n") auto
  with itoa_nat_hd [of n] have "c \<noteq> CHR ''-''" "c \<noteq> CHR ''+''" by auto
  with e assms itoa_nat_digits [of n] dec_val_itoa_nat [of n] show ?thesis
    by (simp add: atoi_def itoa_def)
qed

end
