(* ===== verification/Go_Path.thy ===== *)
theory Go_Path
  imports Go_Strings
begin

text \<open>
  The functions of Go's \<^verbatim>\<open>path\<close> and \<^verbatim>\<open>net/url\<close> packages that the matching rules use:
  \<^verbatim>\<open>path.Match\<close> with its pattern errors, \<^verbatim>\<open>path.Clean\<close>, and the percent encoding behind
  \<^verbatim>\<open>URL.EscapedPath\<close>.
\<close>

section \<open>path.Match\<close>

text \<open>One character of a class, possibly escaped; \<open>None\<close> is \<^verbatim>\<open>ErrBadPattern\<close>.\<close>

definition get_esc :: "string \<Rightarrow> (nat \<times> string) option" where
  "get_esc chunk0 =
    (if chunk0 = [] \<or> hd chunk0 = CHR ''-'' \<or> hd chunk0 = CHR '']'' then None
     else
       let chunk = (if hd chunk0 = CHR 0x5C then tl chunk0 else chunk0) in
       if chunk = [] then None
       else
         let (r, n) = decode_rune chunk; nchunk = drop n chunk in
         if (r = rune_error \<and> n = 1) \<or> nchunk = [] then None else Some (r, nchunk))"

lemma get_esc_shrinks: "get_esc chunk = Some (r, rest) \<Longrightarrow> length rest < length chunk"
  using decode_rune_size_pos [of chunk] decode_rune_size_pos [of "tl chunk"]
  by (cases chunk)
     (auto simp: get_esc_def Let_def simp del: decode_rune.simps split: prod.splits if_splits)

text \<open>
  The ranges of a character class up to its closing bracket: whether the rune is in one
  of them, and the rest of the pattern. \<open>nrange\<close> says whether a range was read, since a
  bracket in first place is an error.
\<close>

function class_ranges :: "string \<Rightarrow> nat \<Rightarrow> bool \<Rightarrow> bool \<Rightarrow> (bool \<times> string) option" where
  "class_ranges chunk r nrange found =
    (if chunk \<noteq> [] \<and> hd chunk = CHR '']'' \<and> nrange then Some (found, tl chunk)
     else
       case get_esc chunk of
         None \<Rightarrow> None
       | Some (lo, chunk1) \<Rightarrow>
           if hd chunk1 = CHR ''-'' then
             (case get_esc (tl chunk1) of
                None \<Rightarrow> None
              | Some (hi, chunk2) \<Rightarrow> class_ranges chunk2 r True (found \<or> lo \<le> r \<and> r \<le> hi))
           else class_ranges chunk1 r True (found \<or> lo \<le> r \<and> r \<le> lo))"
  by pat_completeness auto
termination
proof (relation "measure (\<lambda>(chunk, _). length chunk)", goal_cases)
  case 1
  show ?case by simp
next
  case (2 chunk r nrange found p lo chunk1 p2 hi chunk2)
  have "length chunk2 < length (tl chunk1)" using 2 get_esc_shrinks by blast
  moreover have "length chunk1 < length chunk" using 2 get_esc_shrinks by blast
  ultimately show ?case by simp
next
  case 3
  then show ?case using get_esc_shrinks by auto
qed

declare class_ranges.simps [simp del]

lemma class_ranges_shrinks:
  "class_ranges chunk r nrange found = Some (m, rest) \<Longrightarrow> length rest < length chunk"
proof (induction chunk r nrange found arbitrary: m rest rule: class_ranges.induct)
  case (1 chunk r nrange found)
  show ?case
  proof (cases "chunk \<noteq> [] \<and> hd chunk = CHR '']'' \<and> nrange")
    case True
    then have "class_ranges chunk r nrange found = Some (found, tl chunk)"
      by (simp add: class_ranges.simps [of chunk])
    with "1.prems" True show ?thesis by (cases chunk) auto
  next
    case False
    with "1.prems" obtain lo chunk1 where g: "get_esc chunk = Some (lo, chunk1)"
      by (auto simp: class_ranges.simps [of chunk] split: option.splits)
    have l1: "length chunk1 < length chunk" using g by (rule get_esc_shrinks)
    show ?thesis
    proof (cases "hd chunk1 = CHR ''-''")
      case True
      with "1.prems" False g obtain hi chunk2 where
        h: "get_esc (tl chunk1) = Some (hi, chunk2)"
        "class_ranges chunk2 r True (found \<or> lo \<le> r \<and> r \<le> hi) = Some (m, rest)"
        by (auto simp: class_ranges.simps [of chunk] split: option.splits)
      have "length rest < length chunk2"
        using "1.IH"(1) [OF False g refl True h(1) refl] h(2) by blast
      moreover have "length chunk2 < length (tl chunk1)" using h(1) by (rule get_esc_shrinks)
      ultimately show ?thesis using l1 by simp
    next
      case no: False
      with "1.prems" False g have
        "class_ranges chunk1 r True (found \<or> lo \<le> r \<and> r \<le> lo) = Some (m, rest)"
        by (auto simp: class_ranges.simps [of chunk])
      with "1.IH"(2) [OF False g refl no] have "length rest < length chunk1" by blast
      with l1 show ?thesis by simp
    qed
  qed
qed

text \<open>
  \<^verbatim>\<open>matchChunk\<close>: match a chunk without stars at the start of the name. The outer option is
  the pattern error, the inner one the failed match; a failed match goes on reading the
  chunk to see whether the pattern is well formed. \<open>s\<close> is \<open>None\<close> once the match failed.
\<close>

function match_chunk :: "string \<Rightarrow> string option \<Rightarrow> string option option" where
  "match_chunk [] s = Some s"
| "match_chunk (p # chunk) s0 =
    (let s = (case s0 of Some [] \<Rightarrow> None | _ \<Rightarrow> s0) in
     if p = CHR ''['' then
       let r = (case s of None \<Rightarrow> 0 | Some t \<Rightarrow> fst (decode_rune t));
           s1 = map_option (\<lambda>t. drop (snd (decode_rune t)) t) s;
           negated = (chunk \<noteq> [] \<and> hd chunk = CHR ''^'');
           body = (if negated then tl chunk else chunk)
       in case class_ranges body r False False of
            None \<Rightarrow> None
          | Some (found, rest) \<Rightarrow> match_chunk rest (if found = negated then None else s1)
     else if p = CHR ''?'' then
       match_chunk chunk
         (case s of
            None \<Rightarrow> None
          | Some t \<Rightarrow> if hd t = CHR ''/'' then None else Some (drop (snd (decode_rune t)) t))
     else if p = CHR 0x5C then
       (case chunk of
          [] \<Rightarrow> None
        | q # rest \<Rightarrow>
            match_chunk rest
              (case s of None \<Rightarrow> None | Some t \<Rightarrow> if hd t = q then Some (tl t) else None))
     else
       match_chunk chunk
         (case s of None \<Rightarrow> None | Some t \<Rightarrow> if hd t = p then Some (tl t) else None))"
  by pat_completeness auto
termination
proof (relation "measure (\<lambda>(chunk, _). length chunk)", goal_cases)
  case 1
  show ?case by simp
next
  case (2 p chunk s0 s r s1 negated body a found rest)
  then have "length rest < length body" using class_ranges_shrinks by blast
  with 2 show ?case by (simp split: if_splits)
qed auto

text \<open>\<^verbatim>\<open>scanChunk\<close>: the leading stars, the chunk up to the next star outside a class, the rest.\<close>

fun scan_body :: "bool \<Rightarrow> string \<Rightarrow> string \<times> string" where
  "scan_body inrange [] = ([], [])"
| "scan_body inrange (c # cs) =
    (if c = CHR 0x5C then
       (case cs of
          [] \<Rightarrow> ([c], [])
        | d # ds \<Rightarrow> (let (a, b) = scan_body inrange ds in (c # d # a, b)))
     else if c = CHR ''*'' \<and> \<not> inrange then ([], c # cs)
     else
       let (a, b) = scan_body
             (if c = CHR ''['' then True else if c = CHR '']'' then False else inrange) cs
       in (c # a, b))"

definition scan_chunk :: "string \<Rightarrow> bool \<times> string \<times> string" where
  "scan_chunk pattern =
    (let rest = dropWhile (\<lambda>c. c = CHR ''*'') pattern in
     (rest \<noteq> pattern, scan_body False rest))"

lemma scan_body_append: "scan_body inrange s = (a, b) \<Longrightarrow> s = a @ b"
  by (induction inrange s arbitrary: a b rule: scan_body.induct)
     (auto simp: Let_def split: if_splits list.splits prod.splits)

lemma scan_body_progress:
  "s \<noteq> [] \<Longrightarrow> hd s \<noteq> CHR ''*'' \<Longrightarrow> scan_body False s = (a, b) \<Longrightarrow> a \<noteq> []"
  by (cases s) (auto simp: Let_def split: if_splits list.splits prod.splits)

lemma scan_chunk_shrinks:
  assumes "pattern \<noteq> []" and "scan_chunk pattern = (star, chunk, rest)"
  shows "length rest < length pattern"
proof -
  let ?d = "dropWhile (\<lambda>c. c = CHR ''*'') pattern"
  have sb: "scan_body False ?d = (chunk, rest)" using assms(2) by (simp add: scan_chunk_def Let_def)
  have e: "?d = chunk @ rest" using sb by (rule scan_body_append)
  have le: "length ?d \<le> length pattern" by (rule length_dropWhile_le)
  show ?thesis
  proof (cases "?d = []")
    case True
    with e assms(1) show ?thesis by auto
  next
    case False
    then have "hd ?d \<noteq> CHR ''*''" by (metis (mono_tags, lifting) hd_dropWhile)
    with False sb have "chunk \<noteq> []" using scan_body_progress by blast
    then have "length rest < length ?d" by (simp add: e)
    with le show ?thesis by linarith
  qed
qed

text \<open>The rest of a pattern that no longer matches is still checked for syntax errors.\<close>

function pattern_ok :: "string \<Rightarrow> bool" where
  "pattern_ok pattern =
    (if pattern = [] then True
     else case scan_chunk pattern of
       (_, chunk, rest) \<Rightarrow> match_chunk chunk (Some []) \<noteq> None \<and> pattern_ok rest)"
  by pat_completeness auto
termination
  by (relation "measure length") (auto dest: scan_chunk_shrinks [OF _ sym])

declare pattern_ok.simps [simp del]

text \<open>
  The retry loop of a star: match the chunk after skipping one byte more each time, never
  past a slash. \<open>None\<close> is the pattern error.
\<close>

fun star_retry :: "string \<Rightarrow> bool \<Rightarrow> string \<Rightarrow> string option option" where
  "star_retry chunk lastp [] = Some None"
| "star_retry chunk lastp (c # cs) =
    (if c = CHR ''/'' then Some None
     else case match_chunk chunk (Some cs) of
       None \<Rightarrow> None
     | Some (Some t) \<Rightarrow>
         if lastp \<and> t \<noteq> [] then star_retry chunk lastp cs else Some (Some t)
     | Some None \<Rightarrow> star_retry chunk lastp cs)"

text \<open>\<^verbatim>\<open>path.Match\<close>: \<open>None\<close> is \<^verbatim>\<open>ErrBadPattern\<close>, \<open>Some b\<close> the answer.\<close>

function path_match :: "string \<Rightarrow> string \<Rightarrow> bool option" where
  "path_match pattern name =
    (if pattern = [] then Some (name = [])
     else case scan_chunk pattern of
       (star, chunk, rest) \<Rightarrow>
         if star \<and> chunk = [] then Some (CHR ''/'' \<notin> set name)
         else
           let fail = (if pattern_ok rest then Some False else None) in
           case match_chunk chunk (Some name) of
             None \<Rightarrow> None
           | Some first \<Rightarrow>
               (case first of
                  Some t \<Rightarrow>
                    if t = [] \<or> rest \<noteq> [] then path_match rest t
                    else if star then
                      (case star_retry chunk (rest = []) name of
                         None \<Rightarrow> None
                       | Some (Some u) \<Rightarrow> path_match rest u
                       | Some None \<Rightarrow> fail)
                    else fail
                | None \<Rightarrow>
                    if star then
                      (case star_retry chunk (rest = []) name of
                         None \<Rightarrow> None
                       | Some (Some u) \<Rightarrow> path_match rest u
                       | Some None \<Rightarrow> fail)
                    else fail))"
  by pat_completeness auto
termination
  by (relation "measure (\<lambda>(pattern, _). length pattern)") (auto dest: scan_chunk_shrinks [OF _ sym])

declare path_match.simps [simp del]

text \<open>A pattern without meta characters matches exactly itself.\<close>

definition plain_pattern :: "string \<Rightarrow> bool" where
  "plain_pattern p \<longleftrightarrow> list_all (\<lambda>c. c \<notin> {CHR ''*'', CHR ''?'', CHR ''['', CHR 0x5C}) p"

lemma match_chunk_plain:
  "plain_pattern p \<Longrightarrow> match_chunk p s =
    Some (case s of None \<Rightarrow> None | Some t \<Rightarrow> if prefix p t then Some (drop (length p) t) else None)"
proof (induction p arbitrary: s)
  case Nil
  then show ?case by (simp split: option.splits)
next
  case (Cons c p)
  then have p: "plain_pattern p" and c: "c \<noteq> CHR ''['' \<and> c \<noteq> CHR ''?'' \<and> c \<noteq> CHR 0x5C"
    by (auto simp: plain_pattern_def)
  show ?case
  proof (cases s)
    case None
    with c Cons.IH [OF p, of None] show ?thesis by (simp add: Let_def)
  next
    case (Some t)
    with c Cons.IH [OF p] show ?thesis by (cases t) (auto simp: Let_def)
  qed
qed

lemma scan_body_plain: "plain_pattern p \<Longrightarrow> scan_body False p = (p, [])"
  by (induction p) (auto simp: plain_pattern_def Let_def split: if_splits)

lemma path_match_plain:
  assumes "plain_pattern p"
  shows "path_match p name = Some (name = p)"
proof (cases "p = []")
  case True
  then show ?thesis by (simp add: path_match.simps)
next
  case False
  then have "dropWhile (\<lambda>c. c = CHR ''*'') p = p"
    using assms by (cases p) (auto simp: plain_pattern_def)
  then have sc: "scan_chunk p = (False, p, [])"
    using scan_body_plain [OF assms] by (simp add: scan_chunk_def Let_def)
  have "prefix p name \<and> drop (length p) name = [] \<longleftrightarrow> name = p"
    by (auto simp: prefix_def)
  then show ?thesis
    using False sc match_chunk_plain [OF assms, of "Some name"]
    by (auto simp: path_match.simps [of p] path_match.simps [of "[]"] pattern_ok.simps [of "[]"])
qed

section \<open>path.Clean\<close>

text \<open>
  \<^verbatim>\<open>path.Clean\<close> on the segments between slashes: empty and \<open>.\<close> segments go, a \<open>..\<close> removes the
  segment before it, and at the root it goes too. \<open>out\<close> is the reversed output.
\<close>

fun clean_segs :: "bool \<Rightarrow> string list \<Rightarrow> string list \<Rightarrow> string list" where
  "clean_segs rooted out [] = rev out"
| "clean_segs rooted out (seg # segs) =
    (if seg = [] \<or> seg = ''.'' then clean_segs rooted out segs
     else if seg = ''..'' then
       (case out of
          [] \<Rightarrow> clean_segs rooted (if rooted then [] else [seg]) segs
        | o' # os \<Rightarrow>
            if o' = ''..'' then clean_segs rooted (seg # out) segs
            else clean_segs rooted os segs)
     else clean_segs rooted (seg # out) segs)"

definition path_clean :: "string \<Rightarrow> string" where
  "path_clean p =
    (if p = [] then ''.''
     else
       let rooted = (hd p = CHR ''/'');
           out = clean_segs rooted [] (split_char CHR ''/'' p);
           joined = str_join out ''/''
       in if rooted then CHR ''/'' # joined else if out = [] then ''.'' else joined)"

definition normal_seg :: "string \<Rightarrow> bool" where
  "normal_seg seg \<longleftrightarrow> seg \<noteq> [] \<and> seg \<noteq> ''.'' \<and> seg \<noteq> ''..''"

lemma clean_segs_rooted_normal:
  "list_all normal_seg out \<Longrightarrow> list_all normal_seg (clean_segs True out segs)"
proof (induction segs arbitrary: out)
  case Nil
  then show ?case by simp
next
  case (Cons seg segs)
  show ?case
  proof (cases "seg = ''..''")
    case True
    with Cons show ?thesis by (cases out) (auto simp: normal_seg_def)
  next
    case False
    with Cons show ?thesis by (auto simp: normal_seg_def)
  qed
qed

lemma clean_segs_all:
  "list_all P out \<Longrightarrow> list_all P segs \<Longrightarrow> list_all P (clean_segs rooted out segs)"
proof (induction segs arbitrary: out)
  case Nil
  then show ?case by simp
next
  case (Cons seg segs)
  then have segs: "list_all P segs" and seg: "P seg" by simp_all
  show ?case
  proof (cases "seg = ''..''")
    case True
    with Cons.IH [OF _ segs] Cons.prems(1) seg show ?thesis by (cases out) simp_all
  next
    case False
    with Cons.IH [OF _ segs] Cons.prems(1) seg show ?thesis by simp
  qed
qed

lemma clean_segs_normal_id:
  "list_all normal_seg segs \<Longrightarrow> clean_segs rooted out segs = rev out @ segs"
  by (induction segs arbitrary: out) (auto simp: normal_seg_def)

text \<open>
  The cleaned form of a rooted path is the root or a list of ordinary segments, and
  cleaning it again changes nothing.
\<close>

lemma path_clean_rooted:
  obtains out where "path_clean (CHR ''/'' # p) = CHR ''/'' # str_join out ''/''"
    and "list_all normal_seg out" and "\<forall>w \<in> set out. CHR ''/'' \<notin> set w"
proof
  let ?out = "clean_segs True [] (split_char CHR ''/'' (CHR ''/'' # p))"
  show "path_clean (CHR ''/'' # p) = CHR ''/'' # str_join ?out ''/''"
    by (simp add: path_clean_def Let_def)
  show "list_all normal_seg ?out" by (rule clean_segs_rooted_normal) simp
  have "list_all (\<lambda>w. CHR ''/'' \<notin> set w) ?out"
    by (rule clean_segs_all) (auto simp: list_all_iff dest: split_char_no_sep)
  then show "\<forall>w \<in> set ?out. CHR ''/'' \<notin> set w" by (simp add: list_all_iff)
qed

lemma split_rooted_join:
  assumes "\<forall>w \<in> set out. CHR ''/'' \<notin> set w" and "out \<noteq> []"
  shows "split_char CHR ''/'' (CHR ''/'' # str_join out ''/'') = [] # out"
  using split_char_join [OF assms(2,1)] by simp

section \<open>Percent encoding of a path\<close>

definition hex_digit :: "char \<Rightarrow> nat option" where
  "hex_digit c =
    (let b = byte c in
     if 48 \<le> b \<and> b \<le> 57 then Some (b - 48)
     else if 97 \<le> b \<and> b \<le> 102 then Some (b - 87)
     else if 65 \<le> b \<and> b \<le> 70 then Some (b - 55)
     else None)"

definition upper_hex :: "nat \<Rightarrow> char" where
  "upper_hex n = (if n < 10 then char_of (48 + n) else char_of (55 + n))"

definition is_alnum :: "char \<Rightarrow> bool" where
  "is_alnum c \<longleftrightarrow>
    (let b = byte c in 48 \<le> b \<and> b \<le> 57 \<or> 65 \<le> b \<and> b \<le> 90 \<or> 97 \<le> b \<and> b \<le> 122)"

text \<open>\<^verbatim>\<open>shouldEscape(c, encodePath)\<close>.\<close>

definition should_escape_path :: "char \<Rightarrow> bool" where
  "should_escape_path c \<longleftrightarrow> \<not> is_alnum c \<and> c \<notin> set ''-_.~$&+,/:;=@''"

definition valid_encoded_path :: "string \<Rightarrow> bool" where
  "valid_encoded_path s \<longleftrightarrow>
    list_all (\<lambda>c. c \<in> set ''!$&()*+,;=:@[]%'' \<or> c = CHR 0x27 \<or> \<not> should_escape_path c) s"

fun unescape_path :: "string \<Rightarrow> string option" where
  "unescape_path [] = Some []"
| "unescape_path (c # cs) =
    (if c = CHR ''%'' then
       (case cs of
          a # b # rest \<Rightarrow>
            (case (hex_digit a, hex_digit b) of
               (Some x, Some y) \<Rightarrow> map_option ((#) (char_of (16 * x + y))) (unescape_path rest)
             | _ \<Rightarrow> None)
        | _ \<Rightarrow> None)
     else map_option ((#) c) (unescape_path cs))"

definition escape_path :: "string \<Rightarrow> string" where
  "escape_path s =
    concat (map (\<lambda>c. if should_escape_path c
       then [CHR ''%'', upper_hex (byte c div 16), upper_hex (byte c mod 16)] else [c]) s)"

text \<open>\<^verbatim>\<open>URL.EscapedPath\<close> of the fields \<^verbatim>\<open>Path\<close> and \<^verbatim>\<open>RawPath\<close>.\<close>

definition escaped_path :: "string \<Rightarrow> string \<Rightarrow> string" where
  "escaped_path path raw =
    (if raw \<noteq> [] \<and> valid_encoded_path raw \<and> unescape_path raw = Some path then raw
     else if path = ''*'' then ''*''
     else escape_path path)"

lemma unescape_path_no_percent: "CHR ''%'' \<notin> set s \<Longrightarrow> unescape_path s = Some s"
  by (induction s rule: unescape_path.induct) auto

lemma escape_path_no_percent: "CHR ''%'' \<notin> set (escape_path s) \<Longrightarrow> escape_path s = s"
  by (induction s) (auto simp: escape_path_def split: if_splits)

lemma escaped_path_no_percent:
  "CHR ''%'' \<notin> set (escaped_path p raw) \<Longrightarrow> escaped_path p raw = p"
  by (auto simp: escaped_path_def unescape_path_no_percent escape_path_no_percent
      split: if_splits)

end
