(* ===== verification/Go_Net.thy ===== *)
theory Go_Net
  imports Go_Strings "HOL-Library.Word"
begin

text \<open>
  The parts of Go's \<^verbatim>\<open>net\<close> and \<^verbatim>\<open>net/netip\<close> packages the policies rest on: host and port
  splitting, the textual forms of IPv4 and IPv6 addresses, prefixes and membership in
  them, and the older \<^verbatim>\<open>net.IP\<close> and \<^verbatim>\<open>net.IPNet\<close> with their 4-in-6 conventions. Addresses
  are words of their width.
\<close>

unbundle bit_operations_syntax

section \<open>Host and port\<close>

text \<open>\<^verbatim>\<open>net.SplitHostPort\<close>; \<open>None\<close> is its error.\<close>

definition split_host_port :: "string \<Rightarrow> (string \<times> string) option" where
  "split_host_port hp =
    (case last_index_byte hp CHR '':'' of
       None \<Rightarrow> None
     | Some i \<Rightarrow>
         if hd hp = CHR ''['' then
           (case index_byte hp CHR '']'' of
              None \<Rightarrow> None
            | Some e \<Rightarrow>
                if Suc e \<noteq> i then None
                else if CHR ''['' \<in> set (drop 1 hp) \<or> CHR '']'' \<in> set (drop (Suc e) hp) then None
                else Some (take (e - 1) (drop 1 hp), drop (Suc i) hp))
         else
           let host = take i hp in
           if CHR '':'' \<in> set host \<or> CHR ''['' \<in> set hp \<or> CHR '']'' \<in> set hp then None
           else Some (host, drop (Suc i) hp))"

definition join_host_port :: "string \<Rightarrow> string \<Rightarrow> string" where
  "join_host_port host port =
    (if CHR '':'' \<in> set host then ''['' @ host @ '']:'' @ port else host @ '':'' @ port)"

lemma split_join_host_port:
  assumes "CHR ''['' \<notin> set host" "CHR '']'' \<notin> set host"
    and "CHR '':'' \<notin> set port" "CHR ''['' \<notin> set port" "CHR '']'' \<notin> set port"
  shows "split_host_port (join_host_port host port) = Some (host, port)"
proof (cases "CHR '':'' \<in> set host")
  case True
  have l: "last_index_byte (''['' @ host @ '']:'' @ port) CHR '':'' = Some (length host + 2)"
    using last_index_byte_append [of "CHR '':''" port "''['' @ host @ '']''"] assms by simp
  have e: "index_byte (''['' @ host @ '']:'' @ port) CHR '']'' = Some (length host + 1)"
    using index_byte_append [of "CHR '']''" "''['' @ host" "'':'' @ port"] assms by simp
  show ?thesis
    using True assms unfolding join_host_port_def split_host_port_def
    by (simp only: True if_True l e option.case) auto
next
  case False
  have l: "last_index_byte (host @ '':'' @ port) CHR '':'' = Some (length host)"
    using last_index_byte_append [of "CHR '':''" port host] assms by simp
  have h: "hd (host @ '':'' @ port) \<noteq> CHR ''[''" using assms(1) by (cases host) auto
  show ?thesis
    using False assms h unfolding join_host_port_def split_host_port_def
    by (simp add: l [simplified])
qed

section \<open>netip.Addr\<close>

datatype addr = V4 "32 word" | V6 "128 word" string

definition bytes_val :: "nat list \<Rightarrow> int" where
  "bytes_val bs = foldl (\<lambda>a b. a * 256 + int b) 0 bs"

text \<open>\<^verbatim>\<open>parseIPv4Fields\<close>: \<open>fields\<close> are the octets read so far, \<open>digLen\<close> the digits of this one.\<close>

fun ipv4_fields :: "string \<Rightarrow> nat list \<Rightarrow> nat \<Rightarrow> nat \<Rightarrow> nat list option" where
  "ipv4_fields [] fields val digLen = (if length fields < 3 then None else Some (fields @ [val]))"
| "ipv4_fields (c # cs) fields val digLen =
    (if is_digit c then
       if digLen = 1 \<and> val = 0 then None
       else
         let v = val * 10 + digit_val c in
         if 255 < v then None else ipv4_fields cs fields v (Suc digLen)
     else if c = CHR ''.'' then
       if digLen = 0 \<or> cs = [] then None
       else if length fields = 3 then None
       else ipv4_fields cs (fields @ [val]) 0 0
     else None)"

definition parse_ipv4_fields :: "string \<Rightarrow> nat list option" where
  "parse_ipv4_fields s = ipv4_fields s [] 0 0"

definition hex_val :: "char \<Rightarrow> nat option" where
  "hex_val c =
    (let b = byte c in
     if 48 \<le> b \<and> b \<le> 57 then Some (b - 48)
     else if 97 \<le> b \<and> b \<le> 102 then Some (b - 87)
     else if 65 \<le> b \<and> b \<le> 70 then Some (b - 55)
     else None)"

definition is_hex :: "char \<Rightarrow> bool" where
  "is_hex c \<longleftrightarrow> hex_val c \<noteq> None"

fun hex_num :: "int \<Rightarrow> string \<Rightarrow> int" where
  "hex_num acc [] = acc"
| "hex_num acc (c # cs) = hex_num (acc * 16 + (case hex_val c of Some d \<Rightarrow> int d | None \<Rightarrow> 0)) cs"

text \<open>
  The loop of \<^verbatim>\<open>parseIPv6\<close> over the colon-separated groups: the text left, the bytes so far
  and the position of the ellipsis.
\<close>

function ipv6_loop :: "string \<Rightarrow> nat list \<Rightarrow> nat option \<Rightarrow> (string \<times> nat list \<times> nat option) option"
where
  "ipv6_loop s ip ell =
    (if 16 \<le> length ip then Some (s, ip, ell)
     else
       let ds = takeWhile is_hex s; rest = dropWhile is_hex s in
       if 4 < length ds \<or> ds = [] then None
       else if rest \<noteq> [] \<and> hd rest = CHR ''.'' then
         if ell = None \<and> length ip \<noteq> 12 then None
         else if 16 < length ip + 4 then None
         else (case parse_ipv4_fields s of
                 None \<Rightarrow> None
               | Some fs \<Rightarrow> Some ([], ip @ fs, ell))
       else
         let v = hex_num 0 ds; ip' = ip @ [nat (v div 256), nat (v mod 256)] in
         if rest = [] then Some ([], ip', ell)
         else if hd rest \<noteq> CHR '':'' \<or> length rest = 1 then None
         else
           let s1 = tl rest in
           if hd s1 = CHR '':'' then
             if ell \<noteq> None then None
             else if tl s1 = [] then Some ([], ip', Some (length ip'))
             else ipv6_loop (tl s1) ip' (Some (length ip'))
           else ipv6_loop s1 ip' ell)"
  by pat_completeness auto
termination
  by (relation "measure (\<lambda>(s, ip, ell). 16 - length ip)") auto

declare ipv6_loop.simps [simp del]

definition parse_ipv6 :: "string \<Rightarrow> addr option" where
  "parse_ipv6 s0 =
    (let (s, zone, bad) = (case str_cut s0 ''%'' of
           None \<Rightarrow> (s0, [], False)
         | Some (a, z) \<Rightarrow> (a, z, z = []))
     in
     if bad then None
     else
       let lead = (take 2 s = ''::''); s' = (if lead then drop 2 s else s) in
       if lead \<and> s' = [] then Some (V6 0 zone)
       else
         case ipv6_loop s' [] (if lead then Some 0 else None) of
           None \<Rightarrow> None
         | Some (rest, ip, ell) \<Rightarrow>
             if rest \<noteq> [] then None
             else if length ip < 16 then
               (case ell of
                  None \<Rightarrow> None
                | Some e \<Rightarrow>
                    Some (V6 (word_of_int (bytes_val
                      (take e ip @ replicate (16 - length ip) 0 @ drop e ip))) zone))
             else if ell \<noteq> None then None
             else Some (V6 (word_of_int (bytes_val ip)) zone))"

fun parse_addr_as :: "string \<Rightarrow> string \<Rightarrow> addr option" where
  "parse_addr_as s [] = None"
| "parse_addr_as s (c # cs) =
    (if c = CHR ''.'' then map_option (\<lambda>fs. V4 (word_of_int (bytes_val fs))) (parse_ipv4_fields s)
     else if c = CHR '':'' then parse_ipv6 s
     else if c = CHR ''%'' then None
     else parse_addr_as s cs)"

text \<open>\<^verbatim>\<open>netip.ParseAddr\<close>.\<close>

definition parse_addr :: "string \<Rightarrow> addr option" where
  "parse_addr s = parse_addr_as s s"

definition is_4in6 :: "addr \<Rightarrow> bool" where
  "is_4in6 a = (case a of V4 _ \<Rightarrow> False | V6 x _ \<Rightarrow> drop_bit 32 x = 0xFFFF)"

definition unmap :: "addr \<Rightarrow> addr" where
  "unmap a =
    (case a of V4 _ \<Rightarrow> a
     | V6 x _ \<Rightarrow> if drop_bit 32 x = 0xFFFF then V4 (ucast x) else a)"

definition without_zone :: "addr \<Rightarrow> addr" where
  "without_zone a = (case a of V4 x \<Rightarrow> V4 x | V6 x _ \<Rightarrow> V6 x [])"

definition zone_of :: "addr \<Rightarrow> string" where
  "zone_of a = (case a of V4 _ \<Rightarrow> [] | V6 _ z \<Rightarrow> z)"

definition bit_len :: "addr \<Rightarrow> nat" where
  "bit_len a = (case a of V4 _ \<Rightarrow> 32 | V6 _ _ \<Rightarrow> 128)"

definition is_loopback :: "addr \<Rightarrow> bool" where
  "is_loopback a =
    (case unmap a of V4 x \<Rightarrow> drop_bit 24 x = 127 | V6 x _ \<Rightarrow> x = 1)"

lemma unmap_idem [simp]: "unmap (unmap a) = unmap a"
  by (simp add: unmap_def split: addr.splits)

lemma is_4in6_unmap [simp]: "\<not> is_4in6 (unmap a)"
  by (cases a) (simp_all add: unmap_def is_4in6_def)

lemma without_zone_idem [simp]: "without_zone (without_zone a) = without_zone a"
  by (simp add: without_zone_def split: addr.splits)

lemma zone_of_without_zone [simp]: "zone_of (without_zone a) = []"
  by (simp add: without_zone_def zone_of_def split: addr.splits)

lemma is_4in6_without_zone [simp]: "is_4in6 (without_zone a) = is_4in6 a"
  by (simp add: without_zone_def is_4in6_def split: addr.splits)

section \<open>netip.Prefix\<close>

datatype cidr = Cidr (cidr_addr: addr) (cidr_bits: nat)

definition cidr_valid :: "cidr \<Rightarrow> bool" where
  "cidr_valid p \<longleftrightarrow> cidr_bits p \<le> bit_len (cidr_addr p) \<and> zone_of (cidr_addr p) = []"

text \<open>\<^verbatim>\<open>Prefix.Masked\<close>: the bits past the prefix length are cleared.\<close>

definition cidr_masked :: "cidr \<Rightarrow> cidr" where
  "cidr_masked p =
    (case cidr_addr p of
       V4 x \<Rightarrow> Cidr (V4 (push_bit (32 - cidr_bits p) (drop_bit (32 - cidr_bits p) x))) (cidr_bits p)
     | V6 x _ \<Rightarrow>
         Cidr (V6 (push_bit (128 - cidr_bits p) (drop_bit (128 - cidr_bits p) x)) []) (cidr_bits p))"

text \<open>
  \<^verbatim>\<open>Prefix.Contains\<close>: an address of the other family, a mapped address against an IPv4
  prefix included, or one with a zone is never inside.
\<close>

definition cidr_contains :: "cidr \<Rightarrow> addr \<Rightarrow> bool" where
  "cidr_contains p a =
    (case (cidr_addr p, a) of
       (V4 x, V4 y) \<Rightarrow> drop_bit (32 - cidr_bits p) (x XOR y) = 0
     | (V6 x _, V6 y z) \<Rightarrow> z = [] \<and> drop_bit (128 - cidr_bits p) (x XOR y) = 0
     | _ \<Rightarrow> False)"

text \<open>\<^verbatim>\<open>netip.ParsePrefix\<close>: no zone, and a length without sign or leading zero.\<close>

definition parse_prefix :: "string \<Rightarrow> cidr option" where
  "parse_prefix s =
    (case last_index_byte s CHR ''/'' of
       None \<Rightarrow> None
     | Some i \<Rightarrow>
         (case parse_addr (take i s) of
            None \<Rightarrow> None
          | Some ip \<Rightarrow>
              let bits = drop (Suc i) s in
              if zone_of ip \<noteq> [] then None
              else if 1 < length bits \<and> (byte (hd bits) < 49 \<or> 57 < byte (hd bits)) then None
              else
                (case atoi bits of
                   None \<Rightarrow> None
                 | Some n \<Rightarrow>
                     if n < 0 \<or> int (bit_len ip) < n then None
                     else Some (Cidr ip (nat n)))))"

lemma xor_eq_0_word: "x XOR y = 0 \<longleftrightarrow> x = (y :: 'a::len word)"
  by (auto simp: bit_eq_iff bit_xor_iff)

lemma cidr_contains_V4: "cidr_contains (Cidr (V4 x) n) (V4 y) \<longleftrightarrow>
    drop_bit (32 - n) x = drop_bit (32 - n) y"
  by (simp add: cidr_contains_def xor_eq_0_word)

lemma cidr_contains_V6: "cidr_contains (Cidr (V6 x z) n) (V6 y z') \<longleftrightarrow>
    z' = [] \<and> drop_bit (128 - n) x = drop_bit (128 - n) y"
  by (simp add: cidr_contains_def xor_eq_0_word)

lemma cidr_contains_family:
  "cidr_contains (Cidr (V4 x) n) (V6 y z) = False" "cidr_contains (Cidr (V6 y z) n) (V4 x) = False"
  by (simp_all add: cidr_contains_def)

lemma drop_push_drop_bit [simp]:
  "drop_bit n (push_bit n (drop_bit n x)) = drop_bit n (x :: 'a::len word)"
  by (auto simp: bit_eq_iff bit_simps intro: bit_imp_le_length)

text \<open>Masking a prefix changes nothing about what it contains.\<close>

lemma cidr_contains_masked: "cidr_contains (cidr_masked p) a = cidr_contains p a"
  by (cases p; cases "cidr_addr p"; cases a)
     (auto simp: cidr_masked_def cidr_contains_V4 cidr_contains_V6 cidr_contains_family)

lemma cidr_masked_bits [simp]: "cidr_bits (cidr_masked p) = cidr_bits p"
  by (simp add: cidr_masked_def split: addr.splits)

lemma cidr_masked_idem [simp]: "cidr_masked (cidr_masked p) = cidr_masked p"
  by (simp add: cidr_masked_def split: addr.splits)

lemma parse_prefix_valid:
  assumes "parse_prefix s = Some p"
  shows "cidr_valid p"
  using assms
  by (auto simp: parse_prefix_def cidr_valid_def Let_def split: option.splits if_splits)

section \<open>net.IP and net.IPNet\<close>

text \<open>
  A \<^verbatim>\<open>net.IP\<close> from \<^verbatim>\<open>net.ParseIP\<close> has 16 bytes, an IPv4 address in its mapped form. A
  \<^verbatim>\<open>net.IPNet\<close> from \<^verbatim>\<open>net.ParseCIDR\<close> has a 4-byte network for an IPv4 literal and a
  16-byte one otherwise.
\<close>

definition addr_as16 :: "addr \<Rightarrow> 128 word" where
  "addr_as16 a = (case a of V4 x \<Rightarrow> push_bit 32 0xFFFF OR ucast x | V6 x _ \<Rightarrow> x)"

definition parse_ip :: "string \<Rightarrow> 128 word option" where
  "parse_ip s =
    (case parse_addr s of
       None \<Rightarrow> None
     | Some a \<Rightarrow> if zone_of a \<noteq> [] then None else Some (addr_as16 a))"

definition ip_to4 :: "128 word \<Rightarrow> 32 word option" where
  "ip_to4 x = (if drop_bit 32 x = 0xFFFF then Some (ucast x) else None)"

datatype ipnet = IPNet4 "32 word" nat | IPNet16 "128 word" nat

text \<open>\<^verbatim>\<open>dtoi\<close>: a decimal number below \<^verbatim>\<open>0xFFFFFF\<close> that fills the whole text.\<close>

definition dtoi_all :: "string \<Rightarrow> nat option" where
  "dtoi_all s =
    (if s = [] \<or> \<not> list_all is_digit s then None
     else if 0xFFFFFF \<le> dec_val 0 s then None
     else Some (dec_val 0 s))"

definition parse_cidr :: "string \<Rightarrow> ipnet option" where
  "parse_cidr s =
    (case str_cut s ''/'' of
       None \<Rightarrow> None
     | Some (a, m) \<Rightarrow>
         (case parse_addr a of
            None \<Rightarrow> None
          | Some ip \<Rightarrow>
              if zone_of ip \<noteq> [] then None
              else
                (case dtoi_all m of
                   None \<Rightarrow> None
                 | Some n \<Rightarrow>
                     if bit_len ip < n then None
                     else Some (case ip of
                         V4 x \<Rightarrow> IPNet4 (push_bit (32 - n) (drop_bit (32 - n) x)) n
                       | V6 x _ \<Rightarrow> IPNet16 (push_bit (128 - n) (drop_bit (128 - n) x)) n))))"

definition ipnet_contains :: "ipnet \<Rightarrow> 128 word \<Rightarrow> bool" where
  "ipnet_contains n ip =
    (case n of
       IPNet4 net b \<Rightarrow>
         (case ip_to4 ip of
            None \<Rightarrow> False
          | Some x \<Rightarrow> drop_bit (32 - b) net = drop_bit (32 - b) x)
     | IPNet16 net b \<Rightarrow>
         (case (ip_to4 net, ip_to4 ip) of
            (Some net4, Some x) \<Rightarrow> drop_bit (32 - (b - 96)) net4 = drop_bit (32 - (b - 96)) x
          | (None, None) \<Rightarrow> drop_bit (128 - b) net = drop_bit (128 - b) ip
          | _ \<Rightarrow> False))"

section \<open>Printing addresses\<close>

definition lower_hex :: "nat \<Rightarrow> char" where
  "lower_hex n = (if n < 10 then char_of (48 + n) else char_of (87 + n))"

fun hex_string :: "nat \<Rightarrow> string" where
  "hex_string n = (if n < 16 then [lower_hex n] else hex_string (n div 16) @ [lower_hex (n mod 16)])"

declare hex_string.simps [simp del]

definition ipv4_string :: "32 word \<Rightarrow> string" where
  "ipv4_string w =
    str_join (map (\<lambda>i. itoa_nat (unat (take_bit 8 (drop_bit (24 - 8 * i) w)))) [0, 1, 2, 3]) ''.''"

definition ipv6_groups :: "128 word \<Rightarrow> nat list" where
  "ipv6_groups w =
    map (\<lambda>i. unat (take_bit 16 (drop_bit (112 - 16 * i) w))) [0, 1, 2, 3, 4, 5, 6, 7]"

text \<open>The first longest run of at least two zero groups, as its start and length.\<close>

fun best_run :: "nat \<Rightarrow> nat list \<Rightarrow> nat \<times> nat \<Rightarrow> nat \<times> nat" where
  "best_run i [] best = best"
| "best_run i (g # gs) best =
    (let k = length (takeWhile (\<lambda>x. x = 0) (g # gs)) in
     best_run (Suc i) gs (if 2 \<le> k \<and> snd best < k then (i, k) else best))"

definition ipv6_string :: "128 word \<Rightarrow> string" where
  "ipv6_string w =
    (let gs = map hex_string (ipv6_groups w); (start, len) = best_run 0 (ipv6_groups w) (0, 0) in
     if len = 0 then str_join gs '':''
     else str_join (take start gs) '':'' @ ''::'' @ str_join (drop (start + len) gs) '':'')"

text \<open>\<^verbatim>\<open>Addr.String\<close> and \<^verbatim>\<open>Prefix.String\<close> of valid values.\<close>

definition addr_string :: "addr \<Rightarrow> string" where
  "addr_string a =
    (case a of
       V4 w \<Rightarrow> ipv4_string w
     | V6 w z \<Rightarrow>
       (if is_4in6 a then ''::ffff:'' @ ipv4_string (ucast w) else ipv6_string w)
         @ (if z = [] then [] else ''%'' @ z))"

definition prefix_string :: "cidr \<Rightarrow> string" where
  "prefix_string p = addr_string (cidr_addr p) @ ''/'' @ itoa (int (cidr_bits p))"

end
