(* ===== verification/Go_Http.thy ===== *)
theory Go_Http
  imports Go_Path Go_Net
begin

text \<open>
  The parts of \<^verbatim>\<open>net/http\<close>, \<^verbatim>\<open>net/url\<close> and \<^verbatim>\<open>encoding/json\<close> the components share: the
  header map with its canonical keys, requests and responses with lazily buffered bodies,
  and the JSON spelling of a string.
\<close>

section \<open>Header names\<close>

text \<open>\<^verbatim>\<open>textproto.validHeaderFieldByte\<close>: the token characters of RFC 7230.\<close>

definition token_char :: "char \<Rightarrow> bool" where
  "token_char c \<longleftrightarrow> is_alnum c \<or> c \<in> set ''!#$%&*+-.^_|~'' \<or> c = CHR 0x27 \<or> c = CHR 0x60"

fun canonical_from :: "bool \<Rightarrow> string \<Rightarrow> string" where
  "canonical_from upper [] = []"
| "canonical_from upper (c # cs) =
    (let d = (if upper then upper_char c else lower_char c) in
     d # canonical_from (d = CHR ''-'') cs)"

text \<open>\<^verbatim>\<open>http.CanonicalHeaderKey\<close>: a name with a byte outside the token set is left alone.\<close>

definition canonical_key :: "string \<Rightarrow> string" where
  "canonical_key s = (if list_all token_char s then canonical_from True s else s)"

text \<open>A character that is no letter is the case mapping of itself only.\<close>

lemma lower_char_eq_iff:
  assumes "\<not> (97 \<le> byte d \<and> byte d \<le> 122)" "\<not> (65 \<le> byte d \<and> byte d \<le> 90)"
  shows "lower_char c = d \<longleftrightarrow> c = d"
  using assms unfolding char_eq_byte by (auto simp: lower_char_def)

lemma upper_char_eq_iff:
  assumes "\<not> (97 \<le> byte d \<and> byte d \<le> 122)" "\<not> (65 \<le> byte d \<and> byte d \<le> 90)"
  shows "upper_char c = d \<longleftrightarrow> c = d"
  using assms unfolding char_eq_byte by (auto simp: upper_char_def)

lemma upper_char_dash [simp]: "upper_char c = CHR ''-'' \<longleftrightarrow> c = CHR ''-''"
  by (simp add: upper_char_eq_iff)

lemma lower_char_dash [simp]: "lower_char c = CHR ''-'' \<longleftrightarrow> c = CHR ''-''"
  by (simp add: lower_char_eq_iff)

lemma upper_char_idem [simp]: "upper_char (upper_char c) = upper_char c"
  by (auto simp: upper_char_def)

lemma upper_lower_char [simp]: "upper_char (lower_char c) = upper_char c"
  by (auto simp: upper_char_def lower_char_def)

lemma canonical_from_idem [simp]: "canonical_from b (canonical_from b s) = canonical_from b s"
  by (induction s arbitrary: b) (auto simp: Let_def)

lemma canonical_from_lower: "canonical_from b (to_lower s) = canonical_from b s"
  by (induction s arbitrary: b) (auto simp: Let_def to_lower_def)

lemma to_lower_canonical_from: "to_lower (canonical_from b s) = to_lower s"
  by (induction s arbitrary: b) (auto simp: Let_def to_lower_def)

lemma token_char_upper [simp]: "token_char (upper_char c) = token_char c"
  by (auto simp: token_char_def is_alnum_def upper_char_def Let_def)

lemma token_char_lower [simp]: "token_char (lower_char c) = token_char c"
  by (auto simp: token_char_def is_alnum_def lower_char_def Let_def)

lemma list_all_token_canonical [simp]:
  "list_all token_char (canonical_from b s) = list_all token_char s"
  by (induction s arbitrary: b) (auto simp: Let_def)

lemma list_all_token_lower [simp]: "list_all token_char (to_lower s) = list_all token_char s"
  by (induction s) (auto simp: to_lower_def)

lemma canonical_key_idem [simp]: "canonical_key (canonical_key s) = canonical_key s"
  by (simp add: canonical_key_def)

lemma to_lower_canonical_key [simp]: "to_lower (canonical_key s) = to_lower s"
  by (simp add: canonical_key_def to_lower_canonical_from)

text \<open>For names made of token characters the canonical key decides equality up to case.\<close>

lemma canonical_key_eq_iff:
  assumes "list_all token_char a"
  shows "canonical_key a = canonical_key b \<longleftrightarrow> equal_fold a b"
proof
  assume e: "canonical_key a = canonical_key b"
  have "to_lower (canonical_key a) = to_lower (canonical_key b)" by (simp add: e)
  then show "equal_fold a b" by (simp add: equal_fold_def)
next
  assume e: "equal_fold a b"
  have "list_all token_char b"
    using e assms list_all_token_lower [of a] list_all_token_lower [of b]
    by (simp add: equal_fold_def)
  with assms e canonical_from_lower [of True a] canonical_from_lower [of True b]
  show "canonical_key a = canonical_key b" by (simp add: canonical_key_def equal_fold_def)
qed

section \<open>http.Header\<close>

type_synonym header = "(string, string list) gomap"

definition h_values :: "header \<Rightarrow> string \<Rightarrow> string list" where
  "h_values h name = (case map_get h (canonical_key name) of Some vs \<Rightarrow> vs | None \<Rightarrow> [])"

definition h_get :: "header \<Rightarrow> string \<Rightarrow> string" where
  "h_get h name = (case h_values h name of [] \<Rightarrow> [] | v # _ \<Rightarrow> v)"

definition h_set :: "header \<Rightarrow> string \<Rightarrow> string \<Rightarrow> header" where
  "h_set h name v = map_set h (canonical_key name) [v]"

definition h_add :: "header \<Rightarrow> string \<Rightarrow> string \<Rightarrow> header" where
  "h_add h name v = map_set h (canonical_key name) (h_values h name @ [v])"

definition h_del :: "header \<Rightarrow> string \<Rightarrow> header" where
  "h_del h name = map_del h (canonical_key name)"

text \<open>A header map whose keys are all canonical, as the HTTP server delivers it.\<close>

definition header_wf :: "header \<Rightarrow> bool" where
  "header_wf h \<longleftrightarrow> map_wf h \<and> (\<forall>k \<in> set (map_keys h). canonical_key k = k)"

lemma header_wf_empty [simp]: "header_wf []"
  by (simp add: header_wf_def map_wf_def map_keys_def)

lemma header_wf_set: "header_wf h \<Longrightarrow> header_wf (h_set h name v)"
  by (auto simp: header_wf_def h_set_def map_keys_set gm.wf_insert)

lemma header_wf_add: "header_wf h \<Longrightarrow> header_wf (h_add h name v)"
  by (auto simp: header_wf_def h_add_def map_keys_set gm.wf_insert)

lemma header_wf_del: "header_wf h \<Longrightarrow> header_wf (h_del h name)"
  by (auto simp: header_wf_def h_del_def gm.wf_remove)

lemma h_values_set:
  "h_values (h_set h a v) b = (if canonical_key a = canonical_key b then [v] else h_values h b)"
  by (simp add: h_values_def h_set_def gm.lookup_insert)

lemma h_values_add:
  "h_values (h_add h a v) b =
    (if canonical_key a = canonical_key b then h_values h b @ [v] else h_values h b)"
  by (simp add: h_values_def h_add_def gm.lookup_insert)

lemma h_values_del:
  "h_values (h_del h a) b = (if canonical_key a = canonical_key b then [] else h_values h b)"
  by (simp add: h_values_def h_del_def gm.lookup_remove)

lemmas h_values_simps = h_values_set h_values_add h_values_del

section \<open>Buffered bodies\<close>

text \<open>
  A reader delivers its content and then either ends or fails. A \<^verbatim>\<open>BufferedBody\<close> holds
  the reader until a transform reads it or it is streamed.
\<close>

record reader =
  rd_content :: bytes
  rd_fails :: bool

record buffered_body =
  bb_once :: bool
  bb_original :: "reader option"
  bb_data :: bytes
  bb_pos :: nat
  bb_max :: int

datatype body = Buffered buffered_body | PlainBody bytes

section \<open>URLs, requests and responses\<close>

record url =
  u_scheme :: string
  u_host :: string
  u_path :: string
  u_rawpath :: string
  u_rawquery :: string
  u_user :: bool

definition url_escaped_path :: "url \<Rightarrow> string" where
  "url_escaped_path u = escaped_path (u_path u) (u_rawpath u)"

text \<open>
  A request as the handlers see it. \<open>r_tls\<close> is the server name of the TLS connection state,
  \<open>None\<close> for plain HTTP; \<open>r_ctx\<close> is the value the credential transform keeps in the request
  context.
\<close>

record 'x request =
  r_method :: string
  r_host :: string
  r_url :: url
  r_header :: header
  r_body :: body
  r_tls :: "string option"
  r_remote :: string
  r_content_length :: int
  r_ctx :: "'x option"

record response =
  p_status :: nat
  p_header :: header
  p_body :: body
  p_content_length :: int
  p_trailer :: header

section \<open>JSON strings\<close>

definition json_char :: "char \<Rightarrow> string" where
  "json_char c =
    (if c = CHR 0x22 then [CHR 0x5C, CHR 0x22]
     else if c = CHR 0x5C then [CHR 0x5C, CHR 0x5C]
     else if byte c = 8 then [CHR 0x5C, CHR ''b'']
     else if byte c = 12 then [CHR 0x5C, CHR ''f'']
     else if byte c = 10 then [CHR 0x5C, CHR ''n'']
     else if byte c = 13 then [CHR 0x5C, CHR ''r'']
     else if byte c = 9 then [CHR 0x5C, CHR ''t'']
     else if byte c < 32 \<or> c = CHR ''<'' \<or> c = CHR ''>'' \<or> c = CHR ''&''
       then CHR 0x5C # ''u00'' @ [lower_hex (byte c div 16), lower_hex (byte c mod 16)]
     else [c])"

text \<open>The body of a JSON string as \<^verbatim>\<open>json.Marshal\<close> writes it, with HTML characters escaped.\<close>

function json_escape :: "bytes \<Rightarrow> string" where
  "json_escape [] = []"
| "json_escape (c # cs) =
    (if byte c < rune_self then json_char c @ json_escape cs
     else
       let (r, n) = decode_rune (c # cs) in
       (if r = rune_error \<and> n = 1 then CHR 0x5C # ''ufffd''
        else if r = 0x2028 then CHR 0x5C # ''u2028''
        else if r = 0x2029 then CHR 0x5C # ''u2029''
        else take n (c # cs)) @ json_escape (drop n (c # cs)))"
  by pat_completeness auto
termination
proof (relation "measure length", goal_cases)
  case 1
  show ?case by simp
next
  case (2 c cs)
  show ?case by simp
next
  case (3 c cs p r n)
  then have "n = snd (decode_rune (c # cs))" by (metis snd_conv)
  then show ?case using decode_rune_size_pos [of "c # cs"] by (simp del: decode_rune.simps)
qed

definition json_quote :: "bytes \<Rightarrow> string" where
  "json_quote s = [CHR 0x22] @ json_escape s @ [CHR 0x22]"

text \<open>\<^verbatim>\<open>json.Marshal\<close> of a string map, whose keys it writes in sorted order: the caller lists
  the entries in that order.\<close>

definition json_object :: "(string \<times> string) list \<Rightarrow> string" where
  "json_object kvs =
    ''{'' @ str_join (map (\<lambda>(k, v). json_quote k @ '':'' @ json_quote v) kvs) '','' @ ''}''"

end
