(* ===== verification/Host_Match.thy ===== *)
theory Host_Match
  imports Go_Http
begin

text \<open>
  \<^verbatim>\<open>internal/hostmatch\<close>: domain globs, literal-IP CIDR ranges and scoped path patterns, and the
  rules compiled from them. The lemmas say exactly which hosts a glob admits, that a scoped
  path pattern never admits a path that normalises outside its scope, and what the rule
  compiler accepts.
\<close>

section \<open>Matcher (hostmatch.go)\<close>

record matcher =
  m_domains :: "string list"
  m_cidrs :: "ipnet list"

fun compile_nets :: "string list \<Rightarrow> string + ipnet list" where
  "compile_nets [] = Inr []"
| "compile_nets (c # cs) =
    (case parse_cidr c of
       None \<Rightarrow> Inl c
     | Some net \<Rightarrow> (case compile_nets cs of Inl e \<Rightarrow> Inl e | Inr nets \<Rightarrow> Inr (net # nets)))"

definition new_matcher :: "string list \<Rightarrow> string list \<Rightarrow> string + matcher" where
  "new_matcher domains cidrs =
    (case compile_nets cidrs of
       Inl bad \<Rightarrow> Inl bad
     | Inr nets \<Rightarrow> Inr \<lparr>m_domains = domains, m_cidrs = nets\<rparr>)"

definition match_glob :: "string \<Rightarrow> string \<Rightarrow> bool" where
  "match_glob pat nam =
    (let pattern = to_lower pat; name = to_lower nam in
     if pattern = ''*'' then True
     else if has_prefix pattern ''*.'' then
       has_suffix name (drop 1 pattern) \<or> name = drop 2 pattern
     else path_match pattern name = Some True)"

definition matcher_matches :: "matcher \<Rightarrow> string \<Rightarrow> bool" where
  "matcher_matches m host =
    (if list_ex (\<lambda>pattern. match_glob pattern host) (m_domains m) then True
     else if m_cidrs m \<noteq> [] then
       (case parse_ip host of
          Some ip \<Rightarrow> list_ex (\<lambda>net. ipnet_contains net ip) (m_cidrs m)
        | None \<Rightarrow> False)
     else False)"

definition strip_port :: "string \<Rightarrow> string" where
  "strip_port host =
    (case split_host_port host of
       Some (h, _) \<Rightarrow> trim_set h ''[]''
     | None \<Rightarrow> trim_set host ''[]'')"

section \<open>Paths (path.go)\<close>

definition match_path :: "string \<Rightarrow> string \<Rightarrow> bool" where
  "match_path pattern reqPath =
    (if reqPath \<noteq> ''/'' \<and> path_clean reqPath \<noteq> trim_suffix reqPath ''/'' then False
     else if has_suffix pattern ''/*'' then
       has_prefix reqPath (take (length pattern - 1) pattern)
         \<or> reqPath = take (length pattern - 2) pattern
     else path_match pattern reqPath = Some True)"

definition match_any_path :: "string list \<Rightarrow> string \<Rightarrow> bool" where
  "match_any_path patterns reqPath = list_ex (\<lambda>p. match_path p reqPath) patterns"

section \<open>Rules (rule.go)\<close>

record rule_config =
  rc_host :: string
  rc_cidr :: string
  rc_methods :: "string list"
  rc_paths :: "string list"
  rc_private :: "string list"

text \<open>A nil map of methods, and a nil slice of paths, admit everything.\<close>

record rule =
  rl_matcher :: matcher
  rl_methods :: "string list option"
  rl_paths :: "string list option"

definition rule_matches_host :: "rule \<Rightarrow> string \<Rightarrow> bool" where
  "rule_matches_host r host = matcher_matches (rl_matcher r) host"

definition rule_matches :: "rule \<Rightarrow> string \<Rightarrow> string \<Rightarrow> string \<Rightarrow> bool" where
  "rule_matches r host method path =
    (if \<not> rule_matches_host r host then False
     else if (case rl_methods r of Some ms \<Rightarrow> method \<notin> set ms | None \<Rightarrow> False) then False
     else if (case rl_paths r of Some ps \<Rightarrow> \<not> match_any_path ps path | None \<Rightarrow> False) then False
     else True)"

datatype rule_error =
    HostAndCidr nat
  | HostOrCidrRequired nat
  | BadCidr nat string
  | BadPath nat string

definition is_wildcard :: "string list \<Rightarrow> bool" where
  "is_wildcard methods \<longleftrightarrow> methods = [] \<or> methods = [''*'']"

definition compile_rule :: "nat \<Rightarrow> rule_config \<Rightarrow> rule_error + rule" where
  "compile_rule i rc =
    (if rc_host rc \<noteq> [] \<and> rc_cidr rc \<noteq> [] then Inl (HostAndCidr i)
     else if rc_host rc = [] \<and> rc_cidr rc = [] then Inl (HostOrCidrRequired i)
     else
       (case new_matcher (if rc_host rc \<noteq> [] then [rc_host rc] else [])
                         (if rc_cidr rc \<noteq> [] then [rc_cidr rc] else []) of
          Inl bad \<Rightarrow> Inl (BadCidr i bad)
        | Inr m \<Rightarrow>
          (case find (\<lambda>p. \<not> has_prefix p ''/'') (rc_paths rc) of
             Some p \<Rightarrow> Inl (BadPath i p)
           | None \<Rightarrow>
             Inr \<lparr>rl_matcher = m,
                  rl_methods = (if is_wildcard (rc_methods rc) then None
                                else Some (map to_upper (rc_methods rc))),
                  rl_paths = (if rc_paths rc = [] then None else Some (rc_paths rc))\<rparr>)))"

fun compile_rules_from :: "nat \<Rightarrow> rule_config list \<Rightarrow> rule_error + rule list" where
  "compile_rules_from i [] = Inr []"
| "compile_rules_from i (rc # rcs) =
    (case compile_rule i rc of
       Inl e \<Rightarrow> Inl e
     | Inr r \<Rightarrow>
       (case compile_rules_from (Suc i) rcs of Inl e \<Rightarrow> Inl e | Inr rs \<Rightarrow> Inr (r # rs)))"

definition compile_rules :: "rule_config list \<Rightarrow> rule_error + rule list" where
  "compile_rules configs = compile_rules_from 0 configs"

definition match_any_rule :: "rule list \<Rightarrow> 'x request \<Rightarrow> bool" where
  "match_any_rule rules req =
    (let host = strip_port (r_host req) in
     list_ex (\<lambda>r. rule_matches r host (r_method req) (u_path (r_url req))) rules)"

section \<open>What a glob admits\<close>

lemma match_glob_wildcard [simp, policy_simps]: "match_glob ''*'' name"
  by (simp add: match_glob_def to_lower_def lower_char_def)

lemma match_glob_subdomain [policy_simps]:
  "match_glob (''*.'' @ d) name \<longleftrightarrow>
    equal_fold name d \<or> (\<exists>sub. equal_fold name (sub @ ''.'' @ d))"
proof -
  have l: "to_lower (''*.'' @ d) = ''*.'' @ to_lower d"
    by (simp add: to_lower_def lower_char_def)
  have s: "has_suffix (to_lower name) (CHR ''.'' # to_lower d) \<longleftrightarrow>
      (\<exists>sub. to_lower name = to_lower (sub @ ''.'' @ d))" (is "?L \<longleftrightarrow> ?R")
  proof
    assume ?L
    then obtain sub where sub: "to_lower name = sub @ CHR ''.'' # to_lower d"
      by (auto simp: has_suffix_def suffix_def)
    have "to_lower name = to_lower (to_lower name)" by simp
    also have "\<dots> = to_lower (sub @ ''.'' @ d)"
      unfolding sub by (simp add: to_lower_def o_def lower_char_def)
    finally show ?R by blast
  next
    assume ?R
    then show ?L by (auto simp: has_suffix_def suffix_def to_lower_def lower_char_def)
  qed
  show ?thesis
    unfolding match_glob_def l Let_def
    by (simp add: has_prefix_def s equal_fold_def disj_commute)
qed

lemma match_glob_plain [policy_simps]:
  assumes "plain_pattern pat"
  shows "match_glob pat name \<longleftrightarrow> equal_fold pat name"
proof -
  have p: "plain_pattern (to_lower pat)"
    using assms by (simp add: plain_pattern_def to_lower_def list_all_iff lower_char_eq_iff)
  have "to_lower pat \<noteq> ''*'' \<and> \<not> has_prefix (to_lower pat) ''*.''"
    using p by (auto simp: plain_pattern_def has_prefix_def prefix_def)
  then show ?thesis
    by (auto simp: match_glob_def Let_def path_match_plain [OF p] equal_fold_def)
qed

lemma match_glob_case: "match_glob pat name = match_glob pat (to_lower name)"
  by (simp add: match_glob_def)

section \<open>Scoped paths\<close>

lemma trim_suffix_slash_append:
  "trim_suffix (s @ ''/'') ''/'' = s"
  by (simp add: trim_suffix_def)

lemma trim_suffix_slash_cases:
  obtains "s = trim_suffix s ''/''" | "s = trim_suffix s ''/'' @ ''/''"
  by (cases "suffix ''/'' s") (auto simp: trim_suffix_def suffix_def)

lemma match_path_clean:
  assumes "match_path pattern p" and "p \<noteq> ''/''"
  shows "path_clean p = trim_suffix p ''/''"
  using assms by (simp add: match_path_def split: if_splits)

lemma match_path_scope [policy_simps]:
  "match_path (base @ ''/*'') p \<longleftrightarrow>
    (p = ''/'' \<or> path_clean p = trim_suffix p ''/'') \<and> (prefix (base @ ''/'') p \<or> p = base)"
  by (auto simp: match_path_def has_prefix_def has_suffix_def suffix_def)

lemma path_clean_root [simp]: "path_clean ''/'' = ''/''"
  by (simp add: path_clean_def)

text \<open>A path admitted under a scope still lies under it after the upstream normalises it.\<close>

lemma match_path_scope_clean:
  assumes m: "match_path (base @ ''/*'') p" and b: "\<not> suffix ''/'' base"
  shows "path_clean p = base \<or> prefix (base @ ''/'') (path_clean p)"
proof (cases "p = ''/''")
  case True
  with m b show ?thesis
    by (auto simp: match_path_scope prefix_def append_eq_Cons_conv)
next
  case False
  with m have c: "path_clean p = trim_suffix p ''/''" by (rule match_path_clean)
  from m consider "p = base" | r where "p = base @ ''/'' @ r"
    by (auto simp: match_path_scope prefix_def)
  then show ?thesis
  proof cases
    case 1
    with b c show ?thesis by (simp add: trim_suffix_def)
  next
    case (2 r)
    show ?thesis
    proof (cases r rule: rev_cases)
      case Nil
      with 2 c show ?thesis using trim_suffix_slash_append [of base] by simp
    next
      case (snoc r' x)
      show ?thesis
      proof (cases "x = CHR ''/''")
        case True
        with 2 snoc c trim_suffix_slash_append [of "base @ ''/'' @ r'"] show ?thesis by simp
      next
        case False
        with 2 snoc have "trim_suffix p ''/'' = p" by (auto simp: trim_suffix_def suffix_def)
        with 2 c show ?thesis by simp
      qed
    qed
  qed
qed

text \<open>No pattern admits a rooted path with an empty, \<^verbatim>\<open>.\<close> or \<^verbatim>\<open>..\<close> segment inside it.\<close>

lemma match_path_segments:
  assumes m: "match_path pattern p" and r: "has_prefix p ''/''" and ne: "p \<noteq> ''/''"
  obtains segs where "trim_suffix p ''/'' = CHR ''/'' # str_join segs ''/''"
    and "list_all normal_seg segs"
proof -
  from r obtain q where q: "p = CHR ''/'' # q" by (auto simp: has_prefix_def prefix_def)
  obtain out where o: "path_clean p = CHR ''/'' # str_join out ''/''" "list_all normal_seg out"
    using path_clean_rooted [of q] q by metis
  with match_path_clean [OF m ne] that [of out] show ?thesis by simp
qed

section \<open>What the compiler accepts\<close>

definition rule_config_ok :: "rule_config \<Rightarrow> bool" where
  "rule_config_ok rc \<longleftrightarrow>
    (rc_host rc = [] \<longleftrightarrow> rc_cidr rc \<noteq> [])
    \<and> (rc_cidr rc \<noteq> [] \<longrightarrow> parse_cidr (rc_cidr rc) \<noteq> None)
    \<and> list_all (\<lambda>p. has_prefix p ''/'') (rc_paths rc)"

lemma compile_rule_ok_iff: "(\<exists>r. compile_rule i rc = Inr r) \<longleftrightarrow> rule_config_ok rc"
  by (auto simp: compile_rule_def rule_config_ok_def new_matcher_def list_all_iff find_None_iff
      find_Some_iff split: option.splits sum.splits)

lemma compile_rule_index:
  "compile_rule i rc = Inr r \<Longrightarrow> compile_rule j rc = Inr r"
  by (auto simp: compile_rule_def split: if_splits option.splits sum.splits)

lemma compile_rules_from_ok_iff:
  "(\<exists>rs. compile_rules_from i rcs = Inr rs) \<longleftrightarrow> list_all rule_config_ok rcs"
proof (induction rcs arbitrary: i)
  case (Cons rc rcs)
  show ?case
    using Cons.IH [of "Suc i"] compile_rule_ok_iff [of i rc] by (auto split: sum.splits)
qed simp

lemma compile_rules_from_nth:
  "compile_rules_from i rcs = Inr rs \<Longrightarrow>
    length rs = length rcs \<and> (\<forall>k < length rcs. compile_rule (i + k) (rcs ! k) = Inr (rs ! k))"
proof (induction rcs arbitrary: i rs)
  case (Cons rc rcs)
  then obtain r rs' where r: "compile_rule i rc = Inr r" "rs = r # rs'"
    and rs': "compile_rules_from (Suc i) rcs = Inr rs'"
    by (auto split: sum.splits)
  show ?case
    using Cons.IH [OF rs'] r by (auto simp: nth_Cons split: nat.splits)
qed simp

lemma compile_rule_SomeD:
  assumes "compile_rule i rc = Inr r"
  shows "rl_paths r = (if rc_paths rc = [] then None else Some (rc_paths rc))"
    and "rl_methods r =
      (if is_wildcard (rc_methods rc) then None else Some (map to_upper (rc_methods rc)))"
    and "\<forall>p \<in> set (rc_paths rc). has_prefix p ''/''"
  using assms
  by (auto simp: compile_rule_def find_None_iff split: if_splits option.splits sum.splits)

lemma compile_rule_host:
  assumes "compile_rule i rc = Inr r" and "rc_host rc \<noteq> []"
  shows "rule_matches_host r host = match_glob (rc_host rc) host"
  using assms
  by (auto simp: compile_rule_def rule_matches_host_def matcher_matches_def new_matcher_def
      split: if_splits option.splits sum.splits)

lemma compile_rule_cidr:
  assumes "compile_rule i rc = Inr r" and "rc_host rc = []"
  shows "rule_matches_host r host \<longleftrightarrow>
    (\<exists>net ip. parse_cidr (rc_cidr rc) = Some net \<and> parse_ip host = Some ip \<and> ipnet_contains net ip)"
  using assms
  by (auto simp: compile_rule_def rule_matches_host_def matcher_matches_def new_matcher_def
      split: if_splits option.splits sum.splits)

text \<open>The meaning of a compiled rule, read off its configuration.\<close>

lemma compile_rule_matches:
  assumes "compile_rule i rc = Inr r"
  shows "rule_matches r host method path \<longleftrightarrow>
    rule_matches_host r host
    \<and> (is_wildcard (rc_methods rc) \<or> method \<in> to_upper ` set (rc_methods rc))
    \<and> (rc_paths rc = [] \<or> match_any_path (rc_paths rc) path)"
  using compile_rule_SomeD [OF assms] by (auto simp: rule_matches_def split: if_splits)

lemma match_any_path_iff: "match_any_path ps p \<longleftrightarrow> (\<exists>q \<in> set ps. match_path q p)"
  by (simp add: match_any_path_def list_ex_iff)

section \<open>The promises of the matcher\<close>

text \<open>
  A pattern with a leading wildcard label admits the domain itself and the names below it
  at a label boundary, in any letter case, and nothing else; a lone star admits every name;
  a pattern without wildcards admits its own name only.
\<close>

theorem match_glob_spec:
  "match_glob ''*'' name
    \<and> (match_glob (''*.'' @ d) name \<longleftrightarrow> equal_fold name d \<or> (\<exists>sub. equal_fold name (sub @ ''.'' @ d)))
    \<and> (plain_pattern pat \<longrightarrow> (match_glob pat name \<longleftrightarrow> equal_fold pat name))"
  using match_glob_subdomain [of d name] match_glob_plain [of pat name] by simp

theorem match_glob_spec_witness:
  "plain_pattern ''api.example.com'' \<and> match_glob ''api.example.com'' ''API.example.com''
    \<and> \<not> match_glob ''*.example.com'' ''notexample.com''"
proof -
  have "plain_pattern ''api.example.com''" "equal_fold ''api.example.com'' ''API.example.com''"
    and "\<not> match_glob ''*.example.com'' ''notexample.com''" by code_simp+
  with match_glob_spec [of "''API.example.com''" "''example.com''" "''api.example.com''"] show ?thesis by simp
qed

text \<open>
  C16: A path a scope pattern \<open>base/*\<close> admits is already in cleaned form, so it names \<open>base\<close> or
  something below it after any normalisation an upstream applies: dot segments and
  doubled slashes cannot leave the scope.
\<close>

theorem match_path_no_escape:
  assumes "match_path (base @ ''/*'') p" "\<not> suffix ''/'' base"
  shows "(path_clean p = base \<or> prefix (base @ ''/'') (path_clean p))
    \<and> (p = ''/'' \<or> path_clean p = trim_suffix p ''/'')"
  using match_path_scope_clean [OF assms] assms(1) by (simp add: match_path_scope)

theorem match_path_no_escape_witness:
  "prefix ''/v1/'' (path_clean ''/v1/chat/'') \<and> \<not> match_path ''/v1/*'' ''/v1/../admin''"
proof -
  have m: "match_path (''/v1'' @ ''/*'') ''/v1/chat/''" "\<not> match_path ''/v1/*'' ''/v1/../admin''"
    and c: "path_clean ''/v1/chat/'' \<noteq> ''/v1''" by code_simp+
  have "\<not> suffix ''/'' ''/v1''" by (simp add: suffix_def)
  from match_path_no_escape [OF m(1) this] c m(2) show ?thesis by (simp only: append.simps) blast
qed

text \<open>What a rule of the configuration means for a request.\<close>

definition config_admits :: "rule_config \<Rightarrow> string \<Rightarrow> string \<Rightarrow> string \<Rightarrow> bool" where
  "config_admits rc host method path \<longleftrightarrow>
    (if rc_host rc \<noteq> [] then match_glob (rc_host rc) host
     else (\<exists>net ip. parse_cidr (rc_cidr rc) = Some net \<and> parse_ip host = Some ip \<and> ipnet_contains net ip))
    \<and> (is_wildcard (rc_methods rc) \<or> method \<in> to_upper ` set (rc_methods rc))
    \<and> (rc_paths rc = [] \<or> (\<exists>q \<in> set (rc_paths rc). match_path q path))"

lemma compile_rule_admits:
  assumes "compile_rule i rc = Inr r"
  shows "rule_matches r host method path \<longleftrightarrow> config_admits rc host method path"
proof -
  have "rule_matches_host r host \<longleftrightarrow>
    (if rc_host rc \<noteq> [] then match_glob (rc_host rc) host
     else (\<exists>net ip. parse_cidr (rc_cidr rc) = Some net \<and> parse_ip host = Some ip \<and> ipnet_contains net ip))"
  proof (cases "rc_host rc = []")
    case True
    with assms compile_rule_ok_iff [of i rc] have "rc_cidr rc \<noteq> []" by (auto simp: rule_config_ok_def)
    with compile_rule_cidr [OF assms] True show ?thesis by (auto split: option.splits)
  qed (simp add: compile_rule_host [OF assms])
  then show ?thesis
    by (simp add: compile_rule_matches [OF assms] config_admits_def match_any_path_iff)
qed

text \<open>
  C24: A list of rules compiles exactly when each has one of host and CIDR, the CIDR parses
  and every path pattern is absolute; the compiled rules then admit a request exactly when
  one of the configured rules does, by the host without its port.
\<close>

theorem compile_rules_spec:
  "(\<exists>rs. compile_rules rcs = Inr rs) = list_all rule_config_ok rcs
    \<and> (\<forall>rs. compile_rules rcs = Inr rs \<longrightarrow>
        match_any_rule rs req =
          (\<exists>rc \<in> set rcs. config_admits rc (strip_port (r_host req)) (r_method req) (u_path (r_url req))))"
proof -
  have "match_any_rule rs req =
      (\<exists>rc \<in> set rcs. config_admits rc (strip_port (r_host req)) (r_method req) (u_path (r_url req)))"
    if "compile_rules rcs = Inr rs" for rs
  proof -
    from that compile_rules_from_nth [of 0 rcs rs] have n: "length rs = length rcs"
      and k: "\<And>k. k < length rcs \<Longrightarrow> compile_rule k (rcs ! k) = Inr (rs ! k)"
      by (auto simp: compile_rules_def)
    show ?thesis
      unfolding match_any_rule_def Let_def list_ex_iff
      using n compile_rule_admits [OF k] by (simp add: Bex_set_list_ex list_ex_length cong: conj_cong)
  qed
  then show ?thesis by (simp add: compile_rules_def compile_rules_from_ok_iff)
qed

definition sample_rules :: "rule_config list" where
  "sample_rules =
    [\<lparr>rc_host = ''*.example.com'', rc_cidr = [], rc_methods = [''get''], rc_paths = [''/v1/*''], rc_private = []\<rparr>,
     \<lparr>rc_host = [], rc_cidr = ''10.0.0.0/8'', rc_methods = [''*''], rc_paths = [], rc_private = []\<rparr>]"

theorem compile_rules_spec_witness:
  "\<exists>rs. compile_rules sample_rules = Inr rs
    \<and> (\<forall>req :: unit request. match_any_rule rs req =
        (\<exists>rc \<in> set sample_rules. config_admits rc (strip_port (r_host req)) (r_method req) (u_path (r_url req))))"
proof -
  have "list_all rule_config_ok sample_rules" by code_simp
  with compile_rules_spec [where rcs = sample_rules and 'a = unit] show ?thesis by metis
qed

end
