(* ===== verification/Buffered_Body.thy ===== *)
theory Buffered_Body
  imports Go_Http
begin

text \<open>
  \<^verbatim>\<open>internal/transform/body.go\<close>: the lazily buffered request and response bodies. A body is
  streamed untouched until a transform reads it; from then on everybody sees the buffer. The
  lemmas give the representation invariant, the two streaming laws and what a failed read
  leaves behind.
\<close>

section \<open>Operations (body.go)\<close>

definition empty_reader :: reader where
  "empty_reader = \<lparr>rd_content = [], rd_fails = False\<rparr>"

definition new_buffered_body :: "reader option \<Rightarrow> int \<Rightarrow> buffered_body" where
  "new_buffered_body body maxBytes =
    \<lparr>bb_once = False,
     bb_original = Some (case body of None \<Rightarrow> empty_reader | Some r \<Rightarrow> r),
     bb_data = [], bb_pos = 0, bb_max = maxBytes\<rparr>"

definition new_buffered_body_from_bytes :: "bytes \<Rightarrow> buffered_body" where
  "new_buffered_body_from_bytes data =
    \<lparr>bb_once = True, bb_original = None, bb_data = data, bb_pos = 0, bb_max = 0\<rparr>"

text \<open>
  \<^verbatim>\<open>io.ReadAll\<close> over the reader, through \<^verbatim>\<open>io.LimitReader\<close> when the limit is positive: the
  bytes read and whether the reader failed. A limited reader that has delivered its limit
  ends without touching the reader again.
\<close>

definition read_all_limited :: "reader \<Rightarrow> int \<Rightarrow> bytes \<times> bool" where
  "read_all_limited r maxBytes =
    (if 0 < maxBytes \<and> nat maxBytes \<le> length (rd_content r)
     then (take (nat maxBytes) (rd_content r), False)
     else (rd_content r, rd_fails r))"

text \<open>
  \<open>buffer\<close> runs its body once. On a body whose reader has been handed out it dereferences
  nil, and the once counts as done all the same.
\<close>

datatype buffer_outcome = BufOk | BufErr | BufPanic

definition bb_buffer :: "buffered_body \<Rightarrow> buffered_body \<times> buffer_outcome" where
  "bb_buffer b =
    (if bb_once b then (b, BufOk)
     else
       (case bb_original b of
          None \<Rightarrow> (b\<lparr>bb_once := True\<rparr>, BufPanic)
        | Some r \<Rightarrow>
          (let (data, failed) = read_all_limited r (bb_max b) in
           (b\<lparr>bb_once := True, bb_data := data, bb_original := None\<rparr>,
            if failed then BufErr else BufOk))))"

datatype read_outcome = ReadData bytes | ReadEOF | ReadErr | ReadPanic

definition bb_read :: "nat \<Rightarrow> buffered_body \<Rightarrow> buffered_body \<times> read_outcome" where
  "bb_read n b =
    (case bb_buffer b of
       (b, BufErr) \<Rightarrow> (b, ReadErr)
     | (b, BufPanic) \<Rightarrow> (b, ReadPanic)
     | (b, BufOk) \<Rightarrow>
       (if length (bb_data b) \<le> bb_pos b then (b, ReadEOF)
        else
          (let chunk = take n (drop (bb_pos b) (bb_data b)) in
           (b\<lparr>bb_pos := bb_pos b + length chunk\<rparr>, ReadData chunk))))"

definition bb_reset :: "buffered_body \<Rightarrow> buffered_body" where
  "bb_reset b = b\<lparr>bb_pos := 0\<rparr>"

definition streaming_reader :: "buffered_body \<Rightarrow> buffered_body \<times> reader" where
  "streaming_reader b =
    (case bb_original b of
       Some r \<Rightarrow> (b\<lparr>bb_original := None\<rparr>, r)
     | None \<Rightarrow> (b, \<lparr>rd_content = drop (bb_pos b) (bb_data b), rd_fails = False\<rparr>))"

definition bb_len :: "buffered_body \<Rightarrow> int" where
  "bb_len b = (if bb_original b \<noteq> None then -1 else int (length (bb_data b)))"

text \<open>Closing a reader has no outcome the model distinguishes.\<close>

definition bb_close :: "buffered_body \<Rightarrow> buffered_body" where
  "bb_close b = b\<lparr>bb_original := None\<rparr>"

definition require_buffered_body :: "body \<Rightarrow> buffered_body option" where
  "require_buffered_body body = (case body of Buffered b \<Rightarrow> Some b | PlainBody _ \<Rightarrow> None)"

text \<open>
  \<^verbatim>\<open>io.ReadAll\<close> over a buffered body, as the transforms use it: reads of any positive size
  until the end or an error.
\<close>

definition bb_read_all :: "buffered_body \<Rightarrow> buffered_body \<times> read_outcome" where
  "bb_read_all b =
    (case bb_buffer b of
       (b, BufErr) \<Rightarrow> (b, ReadErr)
     | (b, BufPanic) \<Rightarrow> (b, ReadPanic)
     | (b, BufOk) \<Rightarrow>
       (b\<lparr>bb_pos := max (bb_pos b) (length (bb_data b))\<rparr>,
        ReadData (drop (bb_pos b) (bb_data b))))"

section \<open>Invariant\<close>

text \<open>A body that still owns its reader has buffered nothing; the position is in range.\<close>

definition bb_wf :: "buffered_body \<Rightarrow> bool" where
  "bb_wf b \<longleftrightarrow> bb_pos b \<le> length (bb_data b)
    \<and> (bb_original b \<noteq> None \<longrightarrow> \<not> bb_once b \<and> bb_data b = [])"

text \<open>A body that has not been handed out: reading it cannot panic.\<close>

definition bb_live :: "buffered_body \<Rightarrow> bool" where
  "bb_live b \<longleftrightarrow> bb_once b \<or> bb_original b \<noteq> None"

named_theorems bb_simps
declare new_buffered_body_def [bb_simps] new_buffered_body_from_bytes_def [bb_simps]
  bb_buffer_def [bb_simps] bb_read_def [bb_simps] bb_reset_def [bb_simps]
  streaming_reader_def [bb_simps] bb_len_def [bb_simps] bb_close_def [bb_simps]
  bb_read_all_def [bb_simps] bb_wf_def [bb_simps] bb_live_def [bb_simps]

lemma bb_wf_new [simp]: "bb_wf (new_buffered_body r m)" "bb_live (new_buffered_body r m)"
  by (simp_all add: bb_simps)

lemma bb_wf_from_bytes [simp]:
  "bb_wf (new_buffered_body_from_bytes d)" "bb_live (new_buffered_body_from_bytes d)"
  by (simp_all add: bb_simps)

lemma bb_buffer_wf: "bb_wf b \<Longrightarrow> bb_wf (fst (bb_buffer b))"
  by (auto simp: bb_simps split: option.splits prod.splits)

lemma bb_buffer_live: "bb_live (fst (bb_buffer b))"
  by (auto simp: bb_simps split: option.splits prod.splits)

lemma bb_read_wf: "bb_wf b \<Longrightarrow> bb_wf (fst (bb_read n b))"
  using bb_buffer_wf [of b]
  by (auto simp: bb_read_def Let_def bb_wf_def split: prod.splits buffer_outcome.splits)

lemma bb_read_all_wf: "bb_wf b \<Longrightarrow> bb_wf (fst (bb_read_all b))"
  using bb_buffer_wf [of b]
  by (auto simp: bb_read_all_def bb_wf_def split: prod.splits buffer_outcome.splits)

lemma bb_reset_wf: "bb_wf b \<Longrightarrow> bb_wf (bb_reset b)"
  by (simp add: bb_simps)

lemma streaming_reader_wf: "bb_wf b \<Longrightarrow> bb_wf (fst (streaming_reader b))"
  by (auto simp: bb_simps split: option.splits)

lemma bb_close_wf: "bb_wf b \<Longrightarrow> bb_wf (bb_close b)"
  by (simp add: bb_simps)

lemmas bb_wf_intros = bb_buffer_wf bb_read_wf bb_read_all_wf bb_reset_wf streaming_reader_wf bb_close_wf

lemma bb_live_keeps [simp]:
  "bb_live b \<Longrightarrow> bb_live (bb_reset b)"
  by (simp add: bb_simps)

lemma bb_read_live: "bb_live (fst (bb_read n b))"
  using bb_buffer_live [of b]
  by (auto simp: bb_read_def Let_def bb_live_def split: prod.splits buffer_outcome.splits)

lemma bb_read_all_live: "bb_live (fst (bb_read_all b))"
  using bb_buffer_live [of b]
  by (auto simp: bb_read_all_def bb_live_def split: prod.splits buffer_outcome.splits)

lemma bb_live_no_panic: "bb_live b \<Longrightarrow> snd (bb_read_all b) \<noteq> ReadPanic"
  by (auto simp: bb_simps split: option.splits prod.splits)

section \<open>Streaming\<close>

text \<open>A body nobody read leaves as it came, failure included.\<close>

lemma streaming_untouched:
  "snd (streaming_reader (new_buffered_body (Some r) m)) = r"
  by (simp add: bb_simps)

text \<open>A body that was read and rewound leaves as its buffered bytes, cut at the limit.\<close>

lemma streaming_after_read_all:
  assumes "\<not> rd_fails r"
  shows "rd_content (snd (streaming_reader (bb_reset (fst (bb_read_all (new_buffered_body (Some r) m))))))
    = (if 0 < m then take (nat m) (rd_content r) else rd_content r)"
  using assms by (simp add: bb_simps read_all_limited_def)

text \<open>Successive reads deliver the buffered bytes in order, whatever the read sizes.\<close>

fun bb_reads :: "nat list \<Rightarrow> buffered_body \<Rightarrow> bytes" where
  "bb_reads [] b = []"
| "bb_reads (n # ns) b =
    (case bb_read n b of
       (b', ReadData chunk) \<Rightarrow> chunk @ bb_reads ns b'
     | _ \<Rightarrow> [])"

lemma bb_reads_buffered:
  "bb_once b \<Longrightarrow> bb_reads ns b = take (sum_list ns) (drop (bb_pos b) (bb_data b))"
proof (induction ns arbitrary: b)
  case (Cons n ns)
  show ?case
  proof (cases "length (bb_data b) \<le> bb_pos b")
    case True
    then show ?thesis using Cons.prems by (simp add: bb_read_def bb_buffer_def)
  next
    case False
    let ?d = "drop (bb_pos b) (bb_data b)"
    have "bb_reads (n # ns) b = take n ?d @ take (sum_list ns) (drop (length (take n ?d)) ?d)"
      using False Cons by (simp add: bb_read_def bb_buffer_def Let_def add.commute)
    also have "drop (length (take n ?d)) ?d = drop n ?d"
      by (cases "n \<le> length ?d") simp_all
    finally show ?thesis by (simp add: take_add)
  qed
qed simp

text \<open>
  A read failure is reported to the first reader alone: afterwards the body behaves as if
  the bytes received before the failure were all of it.
\<close>

lemma bb_failure_forgotten:
  assumes "rd_fails r" and "m \<le> 0 \<or> length (rd_content r) < nat m"
  defines "b \<equiv> fst (bb_read_all (new_buffered_body (Some r) m))"
  shows "snd (bb_read_all (new_buffered_body (Some r) m)) = ReadErr"
    and "snd (bb_read_all b) = ReadData (rd_content r)"
    and "snd (streaming_reader b) = \<lparr>rd_content = rd_content r, rd_fails = False\<rparr>"
    and "bb_len b = int (length (rd_content r))"
  using assms(1,2) unfolding b_def by (auto simp: bb_simps read_all_limited_def)

section \<open>The promises of the body\<close>

text \<open>
  A body no transform looked at is streamed from its source, whatever the limit. Once a
  transform read it, everything read again, in reads of any size after a reset, and what is
  streamed on is the buffered content, cut at the limit.
\<close>

theorem buffered_body_content:
  assumes "\<not> rd_fails r"
  shows "snd (streaming_reader (new_buffered_body (Some r) m)) = r
    \<and> rd_content (snd (streaming_reader (bb_reset (fst (bb_read_all (new_buffered_body (Some r) m))))))
      = (if 0 < m then take (nat m) (rd_content r) else rd_content r)
    \<and> bb_reads ns (bb_reset (fst (bb_read_all (new_buffered_body (Some r) m))))
      = take (sum_list ns) (if 0 < m then take (nat m) (rd_content r) else rd_content r)"
proof -
  have "bb_once (bb_reset (fst (bb_read_all (new_buffered_body (Some r) m))))"
    and "bb_pos (bb_reset (fst (bb_read_all (new_buffered_body (Some r) m)))) = 0"
    and "bb_data (bb_reset (fst (bb_read_all (new_buffered_body (Some r) m))))
      = (if 0 < m then take (nat m) (rd_content r) else rd_content r)"
    using assms by (auto simp: bb_read_all_def bb_buffer_def bb_reset_def new_buffered_body_def read_all_limited_def)
  then show ?thesis
    by (simp add: bb_reads_buffered streaming_untouched streaming_after_read_all [OF assms])
qed

theorem buffered_body_content_witness:
  "bb_reads [2, 9] (bb_reset (fst (bb_read_all (new_buffered_body (Some \<lparr>rd_content = ''abcdef'', rd_fails = False\<rparr>) 4))))
    = ''abcd''"
  using buffered_body_content [of "\<lparr>rd_content = ''abcdef'', rd_fails = False\<rparr>" 4 "[2, 9]"] by simp

text \<open>
  A read error of the source is reported once. After it, the part that had arrived is a
  complete body to every later reader, and its length is the length announced upstream.
\<close>

theorem read_error_forgotten:
  assumes "rd_fails r" and "m \<le> 0 \<or> length (rd_content r) < nat m"
  shows "snd (bb_read_all (new_buffered_body (Some r) m)) = ReadErr
    \<and> snd (bb_read_all (fst (bb_read_all (new_buffered_body (Some r) m)))) = ReadData (rd_content r)
    \<and> snd (streaming_reader (fst (bb_read_all (new_buffered_body (Some r) m))))
      = \<lparr>rd_content = rd_content r, rd_fails = False\<rparr>
    \<and> bb_len (fst (bb_read_all (new_buffered_body (Some r) m))) = int (length (rd_content r))"
  using bb_failure_forgotten [OF assms] by simp

theorem read_error_forgotten_witness:
  "snd (streaming_reader (fst (bb_read_all (new_buffered_body (Some \<lparr>rd_content = ''half'', rd_fails = True\<rparr>) 0))))
    = \<lparr>rd_content = ''half'', rd_fails = False\<rparr>"
  using read_error_forgotten [of "\<lparr>rd_content = ''half'', rd_fails = True\<rparr>" 0] by simp

end
