(* ===== verification/Pipeline.thy ===== *)
theory Pipeline
  imports Buffered_Body
begin

text \<open>
  \<^verbatim>\<open>internal/transform\<close>: the transform interface, the pipeline that runs the transforms over
  requests and responses, the private-address permission and the reloadable pipeline holder.
  The lemmas say when a request goes on, that the first refusal decides, what the trace
  records, and that a reload leaves no connection open that the new pipeline would refuse.
\<close>

section \<open>Types (transform.go)\<close>

datatype action = ActionContinue | ActionReject | ActionStub

datatype mode = ModeMITM | ModeSNIOnly | ModeSSH

text \<open>The values transforms annotate their trace with.\<close>

datatype anyval =
    AStr string
  | ANum int
  | ABool bool
  | AList "anyval list"
  | AObj "(string \<times> anyval) list"

record trace =
  tr_name :: string
  tr_action :: action
  tr_err :: "string option"
  tr_annotations :: "(string, anyval) gomap"

record tunnel_info =
  tun_target :: string
  tun_transforms :: "trace list"

record body_capture =
  bc_request_body :: string
  bc_truncated :: bool

record transform_context =
  tc_sni :: string
  tc_mode :: mode
  tc_tunnel :: "tunnel_info option"
  tc_tunnel_admission :: bool
  tc_body_capture :: "body_capture option"
  tc_annotations :: "(string, anyval) gomap"

definition mode_string :: "mode \<Rightarrow> string" where
  "mode_string m =
    (case m of ModeMITM \<Rightarrow> ''mitm'' | ModeSNIOnly \<Rightarrow> ''sni-only'' | ModeSSH \<Rightarrow> ''ssh'')"

definition annotate :: "transform_context \<Rightarrow> string \<Rightarrow> anyval \<Rightarrow> transform_context" where
  "annotate tctx key v = tctx\<lparr>tc_annotations := map_set (tc_annotations tctx) key v\<rparr>"

definition drain_annotations ::
    "transform_context \<Rightarrow> transform_context \<times> (string, anyval) gomap" where
  "drain_annotations tctx = (tctx\<lparr>tc_annotations := []\<rparr>, tc_annotations tctx)"

definition short_circuit_action :: "trace list \<Rightarrow> action" where
  "short_circuit_action traces =
    (if traces \<noteq> [] then
       (case tr_action (last traces) of
          ActionReject \<Rightarrow> ActionReject
        | ActionStub \<Rightarrow> ActionStub
        | ActionContinue \<Rightarrow> ActionContinue)
     else ActionContinue)"

record transform_result =
  res_action :: action
  res_response :: "response option"

definition continue_result :: transform_result where
  "continue_result = \<lparr>res_action = ActionContinue, res_response = None\<rparr>"

definition reject_result :: transform_result where
  "reject_result = \<lparr>res_action = ActionReject, res_response = None\<rparr>"

text \<open>How a call of a transform ends: a result, an error, or a panic.\<close>

datatype outcome = Done transform_result | Failed string | Panicked

text \<open>
  The \<^verbatim>\<open>Transformer\<close> interface. A transform may also be a \<^verbatim>\<open>PrivateIPs\<close> policy and an
  \<^verbatim>\<open>io.Closer\<close>; a closer is represented by the error its \<^verbatim>\<open>Close\<close> returns.
\<close>

record 'x transformer =
  t_name :: string
  t_request :: "transform_context \<Rightarrow> 'x request \<Rightarrow>
    transform_context \<times> 'x request \<times> outcome"
  t_response :: "transform_context \<Rightarrow> 'x request \<Rightarrow> response \<Rightarrow>
    transform_context \<times> 'x request \<times> response \<times> outcome"
  t_private_ips :: "('x request \<Rightarrow> cidr list) option"
  t_closer :: "string option option"

text \<open>The \<^verbatim>\<open>TransformResponse\<close> of a transform that only looks at requests.\<close>

definition response_continue ::
    "transform_context \<Rightarrow> 'x request \<Rightarrow> response \<Rightarrow>
      transform_context \<times> 'x request \<times> response \<times> outcome" where
  "response_continue tctx req resp = (tctx, req, resp, Done continue_result)"

section \<open>The pipeline (pipeline.go)\<close>

record body_limits =
  bl_max_request :: int
  bl_max_response :: int

record 'x pipeline =
  pl_transforms :: "'x transformer list"
  pl_body_limits :: body_limits

definition forbidden_response :: "'x request \<Rightarrow> string \<Rightarrow> response" where
  "forbidden_response req policy =
    (let host = (case split_host_port (r_host req) of Some (h, _) \<Rightarrow> h | None \<Rightarrow> r_host req);
         (code, nextStep) =
           (if policy = ''allowlist'' then
              (''EGRESS_DOMAIN_NOT_ALLOWED'',
               ''Add '' @ host @ '' to egressPolicy.allowDomains (box.egress.update); a listed host is refused only for a method or path outside its rule.'')
            else
              (''EGRESS_REQUEST_REFUSED'',
               ''The '' @ policy @ '' policy refused this request; box.egress.denials() lists every refusal.''));
         body = json_object [(''code'', code), (''host'', host), (''nextStep'', nextStep), (''policy'', policy)]
     in \<lparr>p_status = 403, p_header = [(''Content-Type'', [''application/json''])],
         p_body = PlainBody body, p_content_length = int (length body), p_trailer = []\<rparr>)"

text \<open>How a pipeline run ends: it goes on, short-circuits, fails, or panics on a bare body.\<close>

datatype run = RunContinue | RunRespond response | RunError string | RunPanic

text \<open>What the pipeline does after every transform: rewind the body, drain the annotations.\<close>

definition settle ::
    "'x transformer \<Rightarrow> transform_context \<Rightarrow> 'x request \<Rightarrow> buffered_body \<Rightarrow>
      transform_context \<times> 'x request \<times> trace" where
  "settle t tctx req b =
    (let req = req\<lparr>r_body := Buffered (bb_reset b)\<rparr>;
         (tctx, notes) = drain_annotations tctx
     in (tctx, req, \<lparr>tr_name = t_name t, tr_action = ActionContinue, tr_err = None,
                     tr_annotations = notes\<rparr>))"

fun process_request ::
    "'x transformer list \<Rightarrow> transform_context \<Rightarrow> 'x request \<Rightarrow> trace list \<Rightarrow>
      transform_context \<times> 'x request \<times> trace list \<times> run" where
  "process_request [] tctx req traces = (tctx, req, traces, RunContinue)"
| "process_request (t # ts) tctx req traces =
    (let (tctx, req, res) = t_request t tctx req in
     case (res, require_buffered_body (r_body req)) of
       (Panicked, _) \<Rightarrow> (tctx, req, traces, RunPanic)
     | (_, None) \<Rightarrow> (tctx, req, traces, RunPanic)
     | (Failed e, Some b) \<Rightarrow>
         (let (tctx, req, tr) = settle t tctx req b in
          (tctx, req, traces @ [tr\<lparr>tr_err := Some e\<rparr>],
           RunError (''transform '' @ t_name t @ '' request: '' @ e)))
     | (Done r, Some b) \<Rightarrow>
         (let (tctx, req, tr) = settle t tctx req b;
              traces = traces @ [tr\<lparr>tr_action := res_action r\<rparr>] in
          if res_action r = ActionReject \<or> res_action r = ActionStub then
            (tctx, req, traces,
             RunRespond (case res_response r of
               Some p \<Rightarrow> p | None \<Rightarrow> forbidden_response req (t_name t)))
          else process_request ts tctx req traces))"

fun process_response ::
    "'x transformer list \<Rightarrow> transform_context \<Rightarrow> 'x request \<Rightarrow> response \<Rightarrow> trace list \<Rightarrow>
      transform_context \<times> 'x request \<times> trace list \<times> run" where
  "process_response [] tctx req resp traces = (tctx, req, traces, RunRespond resp)"
| "process_response (t # ts) tctx req resp traces =
    (let (tctx, req, resp, res) = t_response t tctx req resp in
     case (res, require_buffered_body (r_body req), require_buffered_body (p_body resp)) of
       (Panicked, _, _) \<Rightarrow> (tctx, req, traces, RunPanic)
     | (_, None, _) \<Rightarrow> (tctx, req, traces, RunPanic)
     | (_, _, None) \<Rightarrow> (tctx, req, traces, RunPanic)
     | (Failed e, Some b, Some _) \<Rightarrow>
         (let (tctx, req, tr) = settle t tctx req b in
          (tctx, req, traces @ [tr\<lparr>tr_err := Some e\<rparr>],
           RunError (''transform '' @ t_name t @ '' response: '' @ e)))
     | (Done r, Some b, Some pb) \<Rightarrow>
         (let (tctx, req, tr) = settle t tctx req b;
              resp = resp\<lparr>p_body := Buffered (bb_reset pb)\<rparr>;
              traces = traces @ [tr\<lparr>tr_action := res_action r\<rparr>] in
          if res_action r = ActionReject \<or> res_action r = ActionStub then
            (tctx, req, traces,
             RunRespond (case res_response r of
               Some p \<Rightarrow> p | None \<Rightarrow> forbidden_response req (t_name t)))
          else process_response ts tctx req resp traces))"

definition pipeline_empty :: "'x pipeline \<Rightarrow> bool" where
  "pipeline_empty p \<longleftrightarrow> pl_transforms p = []"

text \<open>\<^verbatim>\<open>Close\<close> closes every closer and keeps the first error.\<close>

definition pipeline_close :: "'x pipeline \<Rightarrow> string option" where
  "pipeline_close p =
    fold (\<lambda>t firstErr.
       case t_closer t of
         Some (Some e) \<Rightarrow> (if firstErr = None then Some e else firstErr)
       | _ \<Rightarrow> firstErr) (pl_transforms p) None"

definition pipeline_names :: "'x pipeline \<Rightarrow> string" where
  "pipeline_names p =
    str_join (map t_name (pl_transforms p)) ([CHR '' ''] @ map char_of [0xE2::nat, 0x86, 0x92] @ [CHR '' ''])"

section \<open>Private addresses (private\_ips.go)\<close>

fun private_checks :: "'x transformer list \<Rightarrow> 'x request \<Rightarrow> cidr list list option" where
  "private_checks [] req = Some []"
| "private_checks (t # ts) req =
    (case t_private_ips t of
       None \<Rightarrow> private_checks ts req
     | Some policy \<Rightarrow>
       (if policy req = [] then None
        else map_option (\<lambda>checks. policy req # checks) (private_checks ts req)))"

definition private_ip_permission :: "'x pipeline \<Rightarrow> 'x request \<Rightarrow> (addr \<Rightarrow> bool) option" where
  "private_ip_permission p req =
    (case private_checks (pl_transforms p) req of
       None \<Rightarrow> None
     | Some checks \<Rightarrow>
       (if checks = [] then None
        else Some (\<lambda>ip. list_all (\<lambda>prefixes. list_ex (\<lambda>prefix. cidr_contains prefix ip) prefixes) checks)))"

section \<open>The holder (holder.go, private\_ips.go)\<close>

text \<open>
  Every operation runs under the holder's mutex. \<open>h_closed\<close> lists the connections whose
  socket has been closed and \<open>h_retired\<close> the pipelines that were closed after a swap.
\<close>

record 'p private_connection =
  pc_id :: nat
  pc_allowed :: "'p \<Rightarrow> bool"

record 'p holder =
  h_current :: "'p option"
  h_connections :: "'p private_connection list"
  h_closed :: "nat list"
  h_retired :: "'p list"

definition new_pipeline_holder :: "'p option \<Rightarrow> 'p holder" where
  "new_pipeline_holder initial =
    \<lparr>h_current = initial, h_connections = [], h_closed = [], h_retired = []\<rparr>"

definition holder_load :: "'p holder \<Rightarrow> 'p option" where
  "holder_load h = h_current h"

definition conn_refused :: "'p option \<Rightarrow> 'p private_connection \<Rightarrow> bool" where
  "conn_refused next c = (case next of None \<Rightarrow> True | Some p \<Rightarrow> \<not> pc_allowed c p)"

definition holder_store :: "'p option \<Rightarrow> 'p holder \<Rightarrow> 'p holder" where
  "holder_store next h =
    (let old = h_current h;
         revoked = filter (conn_refused next) (h_connections h) in
     h\<lparr>h_current := next,
       h_connections := filter (\<lambda>c. \<not> conn_refused next c) (h_connections h),
       h_closed := map pc_id revoked @ h_closed h,
       h_retired := (case old of
          Some p \<Rightarrow> if old \<noteq> next then p # h_retired h else h_retired h
        | None \<Rightarrow> h_retired h)\<rparr>)"

definition track_private_connection ::
    "'p private_connection \<Rightarrow> 'p holder \<Rightarrow> 'p holder \<times> bool" where
  "track_private_connection c h =
    (if conn_refused (holder_load h) c then (h, False)
     else (h\<lparr>h_connections := c # h_connections h\<rparr>, True))"

definition private_connection_close :: "nat \<Rightarrow> 'p holder \<Rightarrow> 'p holder" where
  "private_connection_close i h =
    h\<lparr>h_connections := filter (\<lambda>c. pc_id c \<noteq> i) (h_connections h), h_closed := i # h_closed h\<rparr>"

section \<open>Running a request through the transforms\<close>

definition clean_trace :: "trace \<Rightarrow> bool" where
  "clean_trace t \<longleftrightarrow> tr_action t = ActionContinue \<and> tr_err t = None"

text \<open>What a run appended to the trace, for each way it can end.\<close>

fun traces_of_run :: "run \<Rightarrow> 'x transformer list \<Rightarrow> trace list \<Rightarrow> bool" where
  "traces_of_run RunContinue ts new \<longleftrightarrow> length new = length ts \<and> list_all clean_trace new"
| "traces_of_run (RunRespond _) ts new \<longleftrightarrow>
    new \<noteq> [] \<and> list_all clean_trace (butlast new)
    \<and> tr_err (last new) = None \<and> tr_action (last new) \<noteq> ActionContinue"
| "traces_of_run (RunError _) ts new \<longleftrightarrow>
    new \<noteq> [] \<and> list_all clean_trace (butlast new)
    \<and> tr_err (last new) \<noteq> None \<and> tr_action (last new) = ActionContinue"
| "traces_of_run RunPanic ts new \<longleftrightarrow> length new < length ts \<and> list_all clean_trace new"

lemma traces_of_run_Cons:
  "traces_of_run out ts new \<Longrightarrow> clean_trace tr \<Longrightarrow> traces_of_run out (t # ts) (tr # new)"
  by (cases out) auto

text \<open>One transform of a run, by its outcome.\<close>

lemma process_request_Cons_cases:
  assumes "process_request (t # ts) tctx req traces = (tctx', req', traces', out)"
    and "t_request t tctx req = (tctx1, req1, res)"
  obtains (panic) "out = RunPanic" "traces' = traces" "tctx' = tctx1" "req' = req1"
  | (stop) b tr where "r_body req1 = Buffered b" "traces' = traces @ [tr]" "tr_name tr = t_name t"
      "tctx' = tctx1\<lparr>tc_annotations := []\<rparr>" "req' = req1\<lparr>r_body := Buffered (bb_reset b)\<rparr>"
      "(\<exists>p. out = RunRespond p) \<and> tr_err tr = None \<and> tr_action tr \<noteq> ActionContinue
       \<or> (\<exists>e. out = RunError e) \<and> tr_err tr \<noteq> None \<and> tr_action tr = ActionContinue"
  | (go) b r tr where "r_body req1 = Buffered b" "res = Done r" "res_action r = ActionContinue"
      "tr_name tr = t_name t" "clean_trace tr"
      "process_request ts (tctx1\<lparr>tc_annotations := []\<rparr>) (req1\<lparr>r_body := Buffered (bb_reset b)\<rparr>)
         (traces @ [tr]) = (tctx', req', traces', out)"
proof (cases "res = Panicked \<or> require_buffered_body (r_body req1) = None")
  case True
  with assms panic show thesis by (cases res) auto
next
  case False
  then obtain b where b: "r_body req1 = Buffered b"
    by (auto simp: require_buffered_body_def split: body.splits)
  from False consider e where "res = Failed e" | r where "res = Done r" by (cases res) auto
  then show thesis
  proof cases
    case (1 e)
    with assms b show thesis
      by (intro stop) (auto simp: require_buffered_body_def settle_def drain_annotations_def)
  next
    case (2 r)
    show thesis
    proof (cases "res_action r")
      case ActionContinue
      with 2 assms b show thesis
        by (intro go [of b r]) (auto simp: require_buffered_body_def settle_def
            drain_annotations_def clean_trace_def)
    qed (use 2 assms b in \<open>auto simp: require_buffered_body_def settle_def drain_annotations_def
           Let_def intro!: stop\<close>)
  qed
qed

lemma process_request_traces:
  assumes "process_request ts tctx req traces = (tctx', req', traces', out)"
  shows "\<exists>new. traces' = traces @ new \<and> map tr_name new = map t_name (take (length new) ts)
    \<and> traces_of_run out ts new"
  using assms
proof (induction ts arbitrary: tctx req traces)
  case (Cons t ts)
  obtain tctx1 req1 res where t: "t_request t tctx req = (tctx1, req1, res)" by (metis prod_cases3)
  from Cons.prems t show ?case
  proof (cases rule: process_request_Cons_cases)
    case panic
    then show ?thesis by simp
  next
    case (stop b tr)
    then show ?thesis by (intro exI [of _ "[tr]"]) auto
  next
    case (go b r tr)
    from Cons.IH [OF go(6)] obtain new where "traces' = (traces @ [tr]) @ new"
      "map tr_name new = map t_name (take (length new) ts)" "traces_of_run out ts new" by blast
    with go show ?thesis by (intro exI [of _ "tr # new"]) (simp add: traces_of_run_Cons)
  qed
qed simp

lemma process_request_append:
  "process_request (ts @ us) tctx req traces =
    (case process_request ts tctx req traces of
       (tctx', req', traces', RunContinue) \<Rightarrow> process_request us tctx' req' traces'
     | r \<Rightarrow> r)"
proof (induction ts arbitrary: tctx req traces)
  case (Cons t ts)
  obtain tctx1 req1 res where t: "t_request t tctx req = (tctx1, req1, res)" by (metis prod_cases3)
  show ?case
    by (cases "require_buffered_body (r_body req1)"; cases res)
      (simp_all add: t Cons.IH settle_def drain_annotations_def Let_def)
qed simp

text \<open>A request that goes on was let through by every transform, on the request the earlier
  ones left.\<close>

lemma process_request_continue_each:
  assumes "process_request (ts @ t # us) tctx req traces = (tctx', req', traces', RunContinue)"
  obtains tctx1 req1 traces1 r where
    "process_request ts tctx req traces = (tctx1, req1, traces1, RunContinue)"
    and "snd (snd (t_request t tctx1 req1)) = Done r" and "res_action r = ActionContinue"
proof -
  obtain tctx1 req1 traces1 out where ts: "process_request ts tctx req traces = (tctx1, req1, traces1, out)"
    by (metis prod_cases4)
  have out: "out = RunContinue"
    using assms ts by (cases out) (auto simp: process_request_append)
  with assms ts have run: "process_request (t # us) tctx1 req1 traces1 = (tctx', req', traces', RunContinue)"
    by (simp add: process_request_append)
  obtain tctx2 req2 res where t: "t_request t tctx1 req1 = (tctx2, req2, res)" by (metis prod_cases3)
  from run t have "\<exists>r. res = Done r \<and> res_action r = ActionContinue"
    by (cases rule: process_request_Cons_cases) auto
  with ts out t that show thesis by fastforce
qed

lemma short_circuit_action_run:
  assumes "traces_of_run out ts new" and "new \<noteq> []"
  shows "short_circuit_action (traces @ new) \<noteq> ActionContinue \<longleftrightarrow> (\<exists>p. out = RunRespond p)"
proof -
  have "list_all clean_trace new \<Longrightarrow> clean_trace (last new)"
    using assms(2) by (simp add: list_all_iff)
  with assms show ?thesis
    by (cases out) (auto simp: short_circuit_action_def clean_trace_def split: action.splits)
qed

section \<open>Invariants of a pipeline\<close>

text \<open>
  The contract between a pipeline and its transforms: a property of the request that every
  transform keeps, and that the rewinding between transforms keeps, holds at the end.
\<close>

locale request_contract =
  fixes I :: "transform_context \<Rightarrow> 'x request \<Rightarrow> bool"
    and T :: "'x transformer \<Rightarrow> bool"
  assumes step: "\<lbrakk>T t; I tctx req; t_request t tctx req = (tctx', req', res)\<rbrakk> \<Longrightarrow> I tctx' req'"
    and rewind: "\<lbrakk>I tctx req; r_body req = Buffered b\<rbrakk> \<Longrightarrow>
      I (tctx\<lparr>tc_annotations := []\<rparr>) (req\<lparr>r_body := Buffered (bb_reset b)\<rparr>)"
begin

lemma process_request_keeps:
  "\<lbrakk>list_all T ts; I tctx req;
    process_request ts tctx req traces = (tctx', req', traces', out)\<rbrakk> \<Longrightarrow> I tctx' req'"
proof (induction ts arbitrary: tctx req traces)
  case (Cons t ts)
  obtain tctx1 req1 res where t: "t_request t tctx req = (tctx1, req1, res)" by (metis prod_cases3)
  with Cons.prems step have I1: "I tctx1 req1" by auto
  from Cons.prems(3) t show ?case
  proof (cases rule: process_request_Cons_cases)
    case (go b r tr)
    from Cons.IH [OF _ rewind [OF I1 go(1)] go(6)] Cons.prems show ?thesis by simp
  qed (use I1 rewind [OF I1] in auto)
qed simp

lemma process_request_no_panic:
  assumes ok: "\<And>t tctx req. \<lbrakk>T t; I tctx req\<rbrakk> \<Longrightarrow> snd (snd (t_request t tctx req)) \<noteq> Panicked"
    and buffered: "\<And>tctx req. I tctx req \<Longrightarrow> \<exists>b. r_body req = Buffered b"
    and "list_all T ts" and "I tctx req"
    and "process_request ts tctx req traces = (tctx', req', traces', out)"
  shows "out \<noteq> RunPanic"
  using assms(3-5)
proof (induction ts arbitrary: tctx req traces)
  case (Cons t ts)
  obtain tctx1 req1 res where t: "t_request t tctx req = (tctx1, req1, res)" by (metis prod_cases3)
  with Cons.prems step have I1: "I tctx1 req1" by auto
  with buffered obtain b where b: "r_body req1 = Buffered b" by blast
  have np: "res \<noteq> Panicked" using ok [of t tctx req] Cons.prems t by auto
  from Cons.prems(3) t show ?case
  proof (cases rule: process_request_Cons_cases)
    case panic
    with Cons.prems t b np show ?thesis
      by (cases res) (auto simp: require_buffered_body_def settle_def drain_annotations_def Let_def
          split: if_splits dest: process_request_traces)
  next
    case (go b r tr)
    from Cons.IH [OF _ rewind [OF I1 go(1)] go(6)] Cons.prems show ?thesis by simp
  qed auto
qed auto

end

section \<open>Private address permission\<close>

lemma private_checks_SomeD:
  "private_checks ts req = Some checks \<Longrightarrow>
    checks = map (\<lambda>t. the (t_private_ips t) req) (filter (\<lambda>t. t_private_ips t \<noteq> None) ts)
    \<and> [] \<notin> set checks"
  by (induction ts arbitrary: checks) (auto split: option.splits if_splits)

lemma private_checks_empty:
  "\<lbrakk>t \<in> set ts; t_private_ips t = Some policy; policy req = []\<rbrakk> \<Longrightarrow> private_checks ts req = None"
  by (induction ts) (auto split: option.splits)

lemma private_ip_permission_iff:
  assumes "private_ip_permission p req = Some f"
  shows "f ip \<longleftrightarrow> (\<forall>t \<in> set (pl_transforms p). \<forall>policy. t_private_ips t = Some policy \<longrightarrow>
           (\<exists>prefix \<in> set (policy req). cidr_contains prefix ip))"
    and "\<exists>t \<in> set (pl_transforms p). t_private_ips t \<noteq> None"
proof -
  obtain checks where c: "private_checks (pl_transforms p) req = Some checks" "checks \<noteq> []"
    and f: "f = (\<lambda>ip. list_all (\<lambda>prefixes. list_ex (\<lambda>prefix. cidr_contains prefix ip) prefixes) checks)"
    using assms by (auto simp: private_ip_permission_def split: option.splits if_splits)
  note checks = private_checks_SomeD [OF c(1), THEN conjunct1]
  show "f ip \<longleftrightarrow> (\<forall>t \<in> set (pl_transforms p). \<forall>policy. t_private_ips t = Some policy \<longrightarrow>
           (\<exists>prefix \<in> set (policy req). cidr_contains prefix ip))"
    unfolding f checks by (fastforce simp: list_all_iff list_ex_iff)
  from c(2) show "\<exists>t \<in> set (pl_transforms p). t_private_ips t \<noteq> None"
    unfolding checks by (auto simp: filter_empty_conv)
qed

lemma private_ip_permission_denied:
  "\<lbrakk>t \<in> set (pl_transforms p); t_private_ips t = Some policy; policy req = []\<rbrakk> \<Longrightarrow>
    private_ip_permission p req = None"
  by (simp add: private_ip_permission_def private_checks_empty)

section \<open>Reloading\<close>

text \<open>The states a holder goes through; \<open>opened\<close> collects the connections ever tracked.\<close>

inductive holder_reach :: "'p holder \<Rightarrow> nat set \<Rightarrow> bool" where
  start: "holder_reach (new_pipeline_holder initial) {}"
| store: "holder_reach h opened \<Longrightarrow> holder_reach (holder_store next h) opened"
| track: "\<lbrakk>holder_reach h opened; pc_id c \<notin> opened; track_private_connection c h = (h', True)\<rbrakk> \<Longrightarrow>
    holder_reach h' (insert (pc_id c) opened)"
| shut: "\<lbrakk>holder_reach h opened; i \<in> opened\<rbrakk> \<Longrightarrow>
    holder_reach (private_connection_close i h) opened"

inductive_cases holder_reachE: "holder_reach h opened"

definition holder_inv :: "'p holder \<Rightarrow> nat set \<Rightarrow> bool" where
  "holder_inv h opened \<longleftrightarrow>
    list_all (\<lambda>c. \<not> conn_refused (h_current h) c) (h_connections h)
    \<and> opened = pc_id ` set (h_connections h) \<union> set (h_closed h)
    \<and> pc_id ` set (h_connections h) \<inter> set (h_closed h) = {}
    \<and> distinct (map pc_id (h_connections h))"

lemma holder_reach_inv: "holder_reach h opened \<Longrightarrow> holder_inv h opened"
proof (induction rule: holder_reach.induct)
  case (start initial)
  show ?case by (simp add: holder_inv_def new_pipeline_holder_def)
next
  case (store h opened "next")
  then show ?case
    by (auto simp: holder_inv_def holder_store_def Let_def list_all_iff distinct_map
        inj_on_def disjoint_iff)
next
  case (track h opened c h')
  then show ?case
    by (auto simp: holder_inv_def track_private_connection_def holder_load_def disjoint_iff
        split: if_splits)
next
  case (shut h opened i)
  then show ?case
    by (auto simp: holder_inv_def private_connection_close_def list_all_iff distinct_map inj_on_def)
qed

section \<open>The promises of the pipeline\<close>

text \<open>
  C26: The trace of a request tells how its run ended: one clean entry per transform in order
  when all let it continue; otherwise clean entries up to the transform that stopped it and
  a last entry with that transform's rejection or stub, or its error. Nothing runs after it.
\<close>

theorem process_request_trace:
  assumes "process_request ts tctx req [] = (tctx', req', traces, out)"
  shows "map tr_name traces = map t_name (take (length traces) ts) \<and> traces_of_run out ts traces"
  using process_request_traces [OF assms] by auto

definition stub_transform :: "action \<Rightarrow> unit transformer" where
  "stub_transform act =
    \<lparr>t_name = ''stub'', t_request = (\<lambda>tctx req. (tctx, req, Done \<lparr>res_action = act, res_response = None\<rparr>)),
     t_response = response_continue, t_private_ips = None, t_closer = None\<rparr>"

definition plain_request :: "unit request" where
  "plain_request =
    \<lparr>r_method = ''GET'', r_host = ''a.b'', r_url = \<lparr>u_scheme = [], u_host = [], u_path = ''/'',
       u_rawpath = [], u_rawquery = [], u_user = False\<rparr>, r_header = [],
     r_body = Buffered (new_buffered_body_from_bytes []), r_tls = None, r_remote = [],
     r_content_length = 0, r_ctx = None\<rparr>"

definition plain_context :: transform_context where
  "plain_context =
    \<lparr>tc_sni = [], tc_mode = ModeMITM, tc_tunnel = None, tc_tunnel_admission = False,
     tc_body_capture = None, tc_annotations = []\<rparr>"

theorem process_request_trace_witness:
  "\<exists>tctx' req' traces p. process_request [stub_transform ActionContinue, stub_transform ActionReject, stub_transform ActionStub]
      plain_context plain_request [] = (tctx', req', traces, RunRespond p)
    \<and> list_all clean_trace (butlast traces) \<and> tr_action (last traces) \<noteq> ActionContinue"
proof -
  let ?run = "process_request [stub_transform ActionContinue, stub_transform ActionReject, stub_transform ActionStub]
      plain_context plain_request []"
  obtain tctx' req' traces out where run: "?run = (tctx', req', traces, out)" by (metis prod_cases4)
  have "case snd (snd (snd ?run)) of RunRespond _ \<Rightarrow> True | _ \<Rightarrow> False" by code_simp
  then obtain p where "out = RunRespond p" unfolding run by (cases out) auto
  with process_request_trace [OF run] run show ?thesis by (auto simp del: process_request.simps)
qed

text \<open>
  A private address is dialled only if every transform with a private address policy
  lists a range for this request that contains it, and at least one such transform exists;
  one policy with no range for the request withdraws the permission.
\<close>

theorem private_ip_needs_all:
  "(case private_ip_permission p req of
      Some f \<Rightarrow> (\<exists>t \<in> set (pl_transforms p). t_private_ips t \<noteq> None)
        \<and> (\<forall>ip. f ip = list_all (\<lambda>t. case t_private_ips t of
             Some policy \<Rightarrow> list_ex (\<lambda>prefix. cidr_contains prefix ip) (policy req) | None \<Rightarrow> True) (pl_transforms p))
    | None \<Rightarrow> list_all (\<lambda>t. t_private_ips t = None) (pl_transforms p)
        \<or> (\<exists>t \<in> set (pl_transforms p). \<exists>policy. t_private_ips t = Some policy \<and> policy req = []))"
proof (cases "private_ip_permission p req")
  case None
  have "private_checks ts req = None \<Longrightarrow> \<exists>t \<in> set ts. \<exists>policy. t_private_ips t = Some policy \<and> policy req = []" for ts
    by (induction ts) (auto split: option.splits if_splits)
  moreover have "private_checks ts req = Some [] \<Longrightarrow> list_all (\<lambda>t. t_private_ips t = None) ts" for ts
    by (induction ts) (auto split: option.splits if_splits)
  ultimately show ?thesis
    using None by (auto simp: private_ip_permission_def split: option.splits if_splits)
next
  case (Some f)
  from private_ip_permission_iff [OF this] Some show ?thesis
    by (auto simp: list_all_iff list_ex_iff split: option.splits)
qed

text \<open>
  C10: In every state the holder of the pipeline can reach, by reloads and by connections
  opening and closing in any order, each open private connection is admitted by the
  pipeline now installed, every connection ever tracked is open or closed and not both.
\<close>

theorem holder_no_stale_connection:
  assumes "holder_reach h opened" "c \<in> set (h_connections h)"
  shows "(\<exists>p. h_current h = Some p \<and> pc_allowed c p) \<and> pc_id c \<notin> set (h_closed h)
    \<and> opened = pc_id ` set (h_connections h) \<union> set (h_closed h)"
proof -
  note inv = holder_reach_inv [OF assms(1), unfolded holder_inv_def]
  from inv assms(2) have "\<not> conn_refused (h_current h) c" by (simp add: list_all_iff)
  with inv assms(2) show ?thesis by (auto simp: conn_refused_def split: option.splits)
qed

definition even_connection :: "nat private_connection" where
  "even_connection = \<lparr>pc_id = 7, pc_allowed = even\<rparr>"

theorem holder_no_stale_connection_witness:
  "\<exists>h. holder_reach (h :: nat holder) {7} \<and> h_connections h = [even_connection] \<and> h_current h = Some 4
    \<and> pc_id even_connection \<notin> set (h_closed h)"
proof -
  define h0 :: "nat holder" where "h0 = new_pipeline_holder (Some 2)"
  define h1 where "h1 = h0\<lparr>h_connections := even_connection # h_connections h0\<rparr>"
  have "holder_reach h1 (insert (pc_id even_connection) {})"
  proof (rule holder_reach.track)
    show "holder_reach h0 {}" unfolding h0_def by (rule holder_reach.start)
    show "track_private_connection even_connection h0 = (h1, True)"
      by (simp add: track_private_connection_def h1_def h0_def new_pipeline_holder_def conn_refused_def
          holder_load_def even_connection_def)
  qed simp
  then have r: "holder_reach (holder_store (Some 4) h1) {7}"
    using holder_reach.store by (simp add: even_connection_def)
  have c: "h_connections (holder_store (Some 4) h1) = [even_connection]" "h_current (holder_store (Some 4) h1) = Some 4"
    by (simp_all add: holder_store_def h1_def h0_def new_pipeline_holder_def conn_refused_def Let_def even_connection_def)
  with holder_no_stale_connection [OF r, of even_connection] r show ?thesis by auto
qed

end
