(* ===== verification/Header_Transforms.thy ===== *)
theory Header_Transforms
  imports Host_Match Pipeline
begin

text \<open>
  The small request transforms: \<^verbatim>\<open>internal/headers\<close> (wire-cased header writes),
  \<^verbatim>\<open>header_allowlist\<close>, \<^verbatim>\<open>annotate\<close> and \<^verbatim>\<open>body_capture\<close>. Compiled regular expressions are
  predicates; \<^verbatim>\<open>regexp.Compile\<close> is a parameter of the constructors that call it.
\<close>

type_synonym regexp_compile = "string \<Rightarrow> (string \<Rightarrow> bool) option"

section \<open>Wire-cased writes (headers/headers.go)\<close>

definition headers_set :: "header \<Rightarrow> string \<Rightarrow> string \<Rightarrow> header" where
  "headers_set h name v = map_set (h_del h name) name [v]"

definition headers_values :: "header \<Rightarrow> string \<Rightarrow> string list" where
  "headers_values h name = (case map_get h name of Some vs \<Rightarrow> vs | None \<Rightarrow> [])"

definition headers_add :: "header \<Rightarrow> string \<Rightarrow> string \<Rightarrow> header" where
  "headers_add h name v = map_set h name (headers_values h name @ [v])"

definition headers_apply :: "header \<Rightarrow> (string \<times> string) list \<Rightarrow> header" where
  "headers_apply h m = fold (\<lambda>(k, v) h. headers_set h k v) m h"

definition headers_swap :: "header \<Rightarrow> string \<Rightarrow> string \<Rightarrow> (string \<Rightarrow> string) \<Rightarrow> header" where
  "headers_swap h canonical wireName fn =
    (let vals = h_values h canonical in
     if vals = [] then h
     else
       (let h' = h_del h canonical in
        map_set h' wireName (headers_values h' wireName @ map fn vals)))"

section \<open>header\_allowlist (headerallowlist.go)\<close>

datatype header_matcher = HeaderName string | HeaderRe "string \<Rightarrow> bool"

definition header_matcher_matches :: "header_matcher \<Rightarrow> string \<Rightarrow> bool" where
  "header_matcher_matches m canonical =
    (case m of HeaderRe re \<Rightarrow> re canonical | HeaderName name \<Rightarrow> name = canonical)"

record header_allowlist =
  ha_matchers :: "header_matcher list"
  ha_rules :: "rule list"

record header_allowlist_config =
  hac_headers :: "string list"
  hac_rules :: "rule_config list"

datatype header_allowlist_error = NoHeaders | BadHeaderRegex string | HeaderRuleError rule_error

fun parse_header_matchers ::
    "regexp_compile \<Rightarrow> string list \<Rightarrow> header_allowlist_error + header_matcher list" where
  "parse_header_matchers compile [] = Inr []"
| "parse_header_matchers compile (p # ps) =
    (let m = (if 2 \<le> length p \<and> has_prefix p ''/'' \<and> has_suffix p ''/'' then
                (case compile (''(?i)'' @ take (length p - 2) (drop 1 p)) of
                   None \<Rightarrow> Inl (BadHeaderRegex p)
                 | Some re \<Rightarrow> Inr (HeaderRe re))
              else Inr (HeaderName (canonical_key p)))
     in case m of
          Inl e \<Rightarrow> Inl e
        | Inr m \<Rightarrow>
          (case parse_header_matchers compile ps of Inl e \<Rightarrow> Inl e | Inr ms \<Rightarrow> Inr (m # ms)))"

definition new_header_allowlist ::
    "regexp_compile \<Rightarrow> header_allowlist_config \<Rightarrow> header_allowlist_error + header_allowlist" where
  "new_header_allowlist compile c =
    (if hac_headers c = [] then Inl NoHeaders
     else
       (case parse_header_matchers compile (hac_headers c) of
          Inl e \<Rightarrow> Inl e
        | Inr ms \<Rightarrow>
          (case compile_rules (hac_rules c) of
             Inl e \<Rightarrow> Inl (HeaderRuleError e)
           | Inr rules \<Rightarrow> Inr \<lparr>ha_matchers = ms, ha_rules = rules\<rparr>)))"

definition header_allowed :: "header_allowlist \<Rightarrow> string \<Rightarrow> bool" where
  "header_allowed h name =
    (let canonical = canonical_key name in
     list_ex (\<lambda>m. header_matcher_matches m canonical) (ha_matchers h))"

text \<open>
  The loop over the map: \<open>keys\<close> are the keys not reached yet; a key deleted before it is
  reached is not produced.
\<close>

fun strip_headers ::
    "header_allowlist \<Rightarrow> string list \<Rightarrow> header \<Rightarrow> string list \<Rightarrow> header \<times> string list" where
  "strip_headers a [] h stripped = (h, stripped)"
| "strip_headers a (name # keys) h stripped =
    (if map_get h name = None \<or> header_allowed a name then strip_headers a keys h stripped
     else strip_headers a keys (h_del h name) (stripped @ [name]))"

definition header_allowlist_request ::
    "header_allowlist \<Rightarrow> transform_context \<Rightarrow> 'x request \<Rightarrow>
      transform_context \<times> 'x request \<times> outcome" where
  "header_allowlist_request a tctx req =
    (if ha_rules a \<noteq> [] \<and> \<not> match_any_rule (ha_rules a) req then (tctx, req, Done continue_result)
     else
       (let (h, stripped) = strip_headers a (map_keys (r_header req)) (r_header req) [];
            tctx = (if stripped \<noteq> [] then annotate tctx ''stripped_headers'' (AList (map AStr stripped))
                    else tctx)
        in (tctx, req\<lparr>r_header := h\<rparr>, Done continue_result)))"

definition header_allowlist_transform :: "header_allowlist \<Rightarrow> 'x transformer" where
  "header_allowlist_transform a =
    \<lparr>t_name = ''header_allowlist'', t_request = header_allowlist_request a,
     t_response = response_continue, t_private_ips = None, t_closer = None\<rparr>"

section \<open>annotate (annotate.go)\<close>

record annotation_group =
  ag_rules :: "rule_config list"
  ag_headers :: "string list"

record compiled_group =
  cg_rules :: "rule list"
  cg_headers :: "string list"

datatype annotate_error = NoGroups | NoGroupRules nat | NoGroupHeaders nat | GroupRuleError nat rule_error

fun compile_groups :: "nat \<Rightarrow> annotation_group list \<Rightarrow> annotate_error + compiled_group list" where
  "compile_groups i [] = Inr []"
| "compile_groups i (ag # ags) =
    (if ag_rules ag = [] then Inl (NoGroupRules i)
     else if ag_headers ag = [] then Inl (NoGroupHeaders i)
     else
       (case compile_rules (ag_rules ag) of
          Inl e \<Rightarrow> Inl (GroupRuleError i e)
        | Inr compiled \<Rightarrow>
          (case compile_groups (Suc i) ags of
             Inl e \<Rightarrow> Inl e
           | Inr gs \<Rightarrow>
             Inr (\<lparr>cg_rules = compiled, cg_headers = map canonical_key (ag_headers ag)\<rparr> # gs))))"

definition new_annotate :: "annotation_group list \<Rightarrow> annotate_error + compiled_group list" where
  "new_annotate groups = (if groups = [] then Inl NoGroups else compile_groups 0 groups)"

definition annotate_header :: "header \<Rightarrow> string \<Rightarrow> transform_context \<Rightarrow> transform_context" where
  "annotate_header hdr h tctx =
    (let v = h_get hdr h in if v \<noteq> [] then annotate tctx (''header:'' @ h) (AStr v) else tctx)"

definition annotate_request ::
    "compiled_group list \<Rightarrow> transform_context \<Rightarrow> 'x request \<Rightarrow>
      transform_context \<times> 'x request \<times> outcome" where
  "annotate_request groups tctx req =
    (fold (\<lambda>g tctx. if match_any_rule (cg_rules g) req
                     then fold (annotate_header (r_header req)) (cg_headers g) tctx else tctx)
       groups tctx, req, Done continue_result)"

definition annotate_transform :: "compiled_group list \<Rightarrow> 'x transformer" where
  "annotate_transform groups =
    \<lparr>t_name = ''annotate'', t_request = annotate_request groups,
     t_response = response_continue, t_private_ips = None, t_closer = None\<rparr>"

section \<open>body\_capture (bodycapture.go)\<close>

definition default_max_request_body_bytes :: int where
  "default_max_request_body_bytes = 16 * 1024"

record body_capturer =
  bcap_rules :: "rule list"
  bcap_max :: int

definition new_body_capture :: "rule_config list \<Rightarrow> int \<Rightarrow> rule_error + body_capturer" where
  "new_body_capture rules maxBytes =
    (case compile_rules rules of
       Inl e \<Rightarrow> Inl e
     | Inr rs \<Rightarrow>
       Inr \<lparr>bcap_rules = rs,
            bcap_max = (if maxBytes \<le> 0 then default_max_request_body_bytes else maxBytes)\<rparr>)"

text \<open>Dropping a split trailing rune: at most \<open>n\<close> bytes go.\<close>

fun drop_partial_rune :: "nat \<Rightarrow> bytes \<Rightarrow> bytes" where
  "drop_partial_rune 0 d = d"
| "drop_partial_rune (Suc n) d =
    (if d = [] then d
     else
       (let (r, size) = decode_last_rune d in
        if r \<noteq> rune_error \<or> 1 < size then d else drop_partial_rune n (butlast d)))"

definition capture_body :: "int \<Rightarrow> bytes \<Rightarrow> body_capture" where
  "capture_body maxBytes d =
    (if maxBytes < int (length d)
     then \<lparr>bc_request_body = drop_partial_rune 3 (take (nat maxBytes) d), bc_truncated = True\<rparr>
     else \<lparr>bc_request_body = d, bc_truncated = False\<rparr>)"

text \<open>The pipeline always hands over a \<^verbatim>\<open>BufferedBody\<close>; the read error's text is a parameter.\<close>

definition body_capture_request ::
    "string \<Rightarrow> body_capturer \<Rightarrow> transform_context \<Rightarrow> 'x request \<Rightarrow>
      transform_context \<times> 'x request \<times> outcome" where
  "body_capture_request read_error b tctx req =
    (if \<not> match_any_rule (bcap_rules b) req then (tctx, req, Done continue_result)
     else
       (case require_buffered_body (r_body req) of
          None \<Rightarrow> (tctx, req, Panicked)
        | Some bb \<Rightarrow>
          (case bb_read_all bb of
             (bb, ReadData data) \<Rightarrow>
               (if data = [] then (tctx, req\<lparr>r_body := Buffered bb\<rparr>, Done continue_result)
                else
                  (let c = capture_body (bcap_max b) data;
                       tctx = tctx\<lparr>tc_body_capture := Some c\<rparr>;
                       tctx = annotate tctx ''captured_bytes'' (ANum (int (length (bc_request_body c))));
                       tctx = annotate tctx ''truncated'' (ABool (bc_truncated c))
                   in (tctx, req\<lparr>r_body := Buffered bb\<rparr>, Done continue_result)))
           | (bb, ReadPanic) \<Rightarrow> (tctx, req\<lparr>r_body := Buffered bb\<rparr>, Panicked)
           | (bb, _) \<Rightarrow>
               (annotate tctx ''body_capture_error'' (AStr read_error),
                req\<lparr>r_body := Buffered bb\<rparr>, Done continue_result))))"

definition body_capture_transform :: "string \<Rightarrow> body_capturer \<Rightarrow> 'x transformer" where
  "body_capture_transform read_error b =
    \<lparr>t_name = ''body_capture'', t_request = body_capture_request read_error b,
     t_response = response_continue, t_private_ips = None, t_closer = None\<rparr>"

section \<open>Wire-cased writes\<close>

lemma map_get_headers_set:
  "map_get (headers_set h name v) k =
    (if k = name then Some [v] else if k = canonical_key name then None else map_get h k)"
  by (auto simp: headers_set_def h_del_def gm.lookup_insert gm.lookup_remove)

lemma headers_set_fresh:
  assumes "header_wf h" and "equal_fold k name" and "k \<noteq> name" and "list_all token_char name"
  shows "map_get (headers_set h name v) k = None"
proof -
  have "list_all token_char k"
    using assms(2,4) list_all_token_lower [of k] list_all_token_lower [of name]
    by (simp add: equal_fold_def)
  with assms have c: "canonical_key k = canonical_key name" by (simp add: canonical_key_eq_iff)
  show ?thesis
  proof (cases "k \<in> set (map_keys h)")
    case True
    with assms(1) have "canonical_key k = k" by (simp add: header_wf_def)
    with c assms(3) show ?thesis by (simp add: map_get_headers_set)
  next
    case False
    with assms(3) show ?thesis by (simp add: map_get_headers_set map_get_None_iff)
  qed
qed

section \<open>Stripping headers\<close>

lemma map_get_strip_headers:
  "\<forall>k \<in> set keys. canonical_key k = k \<Longrightarrow>
    map_get (fst (strip_headers a keys h st)) k =
      (if k \<in> set keys \<and> \<not> header_allowed a k then None else map_get h k)"
  by (induction keys arbitrary: h st) (auto simp: h_del_def gm.lookup_remove)

lemma strip_headers_stripped:
  "\<lbrakk>\<forall>k \<in> set keys. canonical_key k = k; distinct keys\<rbrakk> \<Longrightarrow>
    snd (strip_headers a keys h st) =
      st @ filter (\<lambda>k. map_get h k \<noteq> None \<and> \<not> header_allowed a k) keys"
proof (induction keys arbitrary: h st)
  case (Cons name keys)
  have "filter (\<lambda>k. map_get (h_del h name) k \<noteq> None \<and> \<not> header_allowed a k) keys =
      filter (\<lambda>k. map_get h k \<noteq> None \<and> \<not> header_allowed a k) keys"
    using Cons.prems by (auto simp: h_del_def gm.lookup_remove intro!: filter_cong)
  with Cons show ?case by simp
qed simp

lemma strip_headers_wf: "header_wf h \<Longrightarrow> header_wf (fst (strip_headers a keys h st))"
  by (induction keys arbitrary: h st) (auto simp: header_wf_del)

text \<open>A name that is not in canonical form is reported as stripped and stays.\<close>

lemma strip_headers_noncanonical:
  assumes "canonical_key name \<noteq> name" and "\<not> header_allowed a name" and "map_get h name = Some vs"
  shows "strip_headers a [name] h [] = (h_del h name, [name])"
    and "map_get (h_del h name) name = Some vs"
  using assms by (simp_all add: h_del_def gm.lookup_remove)

section \<open>Captured bodies\<close>

lemma drop_partial_rune_prefix: "prefix (drop_partial_rune n d) d"
proof (induction n d rule: drop_partial_rune.induct)
  case (2 n d)
  then show ?case
    by (auto simp: Let_def split: prod.splits intro: prefix_order.trans [OF _ prefixeq_butlast])
qed simp

lemma drop_partial_rune_length: "length d - n \<le> length (drop_partial_rune n d)"
proof (induction n d rule: drop_partial_rune.induct)
  case (2 n d)
  then show ?case by (fastforce simp: Let_def split: prod.splits)
qed simp

lemma encode_rune_error_len: "length (encode_rune rune_error) = 3"
  by (simp add: encode_rune_def rune_error_def valid_rune_def max_rune_def surrogate_def)

lemma drop_partial_rune_whole:
  assumes "list_all valid_rune rs"
  shows "drop_partial_rune n (string_of_runes rs) = string_of_runes rs"
proof (cases rs rule: rev_cases)
  case Nil
  then show ?thesis by (cases n) (simp_all add: string_of_runes_def)
next
  case (snoc qs q)
  with assms have q: "valid_rune q" by simp
  have "string_of_runes rs = string_of_runes qs @ encode_rune q"
    using snoc by (simp add: string_of_runes_def)
  with decode_last_rune_encoded [OF q, of "string_of_runes qs"] encode_rune_error_len
  show ?thesis by (cases n) auto
qed

lemma drop_partial_rune_fragment:
  assumes "list_all valid_rune rs" "valid_rune r" "strict_prefix p (encode_rune r)" "length p \<le> n"
  shows "drop_partial_rune n (string_of_runes rs @ p) = string_of_runes rs"
  using assms(3,4)
proof (induction n arbitrary: p)
  case 0
  then show ?case by simp
next
  case (Suc n)
  show ?case
  proof (cases p rule: rev_cases)
    case Nil
    with assms(1) show ?thesis by (simp only: append_Nil2 drop_partial_rune_whole)
  next
    case (snoc p' x)
    have "decode_last_rune (string_of_runes rs @ p) = (rune_error, 1)"
      using assms Suc.prems snoc by (intro decode_last_rune_fragment) auto
    moreover have "strict_prefix p' (encode_rune r)"
      using Suc.prems(1) snoc by (auto simp: strict_prefix_def prefix_def)
    ultimately show ?thesis using Suc.IH [of p'] Suc.prems snoc by (simp add: butlast_append)
  qed
qed

text \<open>A text cut for the audit log is still a text: the cut never splits a character.\<close>

lemma capture_body_text:
  assumes "list_all valid_rune rs"
  obtains k where "bc_request_body (capture_body m (string_of_runes rs)) = string_of_runes (take k rs)"
proof (cases "m < int (length (string_of_runes rs))")
  case False
  then show thesis by (intro that [of "length rs"]) (simp add: capture_body_def)
next
  case True
  obtain k p where kp: "take (nat m) (string_of_runes rs) = string_of_runes (take k rs) @ p"
    "p = [] \<or> (\<exists>r \<in> set rs. strict_prefix p (encode_rune r))" by (rule take_string_of_runes)
  have v: "list_all valid_rune (take k rs)" using assms by (auto simp: list_all_iff dest: in_set_takeD)
  have "drop_partial_rune 3 (string_of_runes (take k rs) @ p) = string_of_runes (take k rs)"
  proof (cases "p = []")
    case True
    with v show ?thesis by (simp add: drop_partial_rune_whole)
  next
    case False
    with kp obtain r where r: "r \<in> set rs" "strict_prefix p (encode_rune r)" by blast
    moreover have "length p \<le> 3"
      using prefix_length_less [OF r(2)] encode_rune_len [of r] by auto
    ultimately show ?thesis
      using assms v by (intro drop_partial_rune_fragment) (auto simp: list_all_iff)
  qed
  with True kp show thesis by (intro that [of k]) (simp add: capture_body_def)
qed

section \<open>The promises of the header transforms\<close>

text \<open>
  C27: With headers keyed in canonical form, a header allowlist that covers the request removes
  exactly the names no matcher admits, leaves the others with their values, and continues. The
  context it hands on is the one it got, with the names it removed, all of them and no others, under
  the annotation stripped_headers if there are any.
\<close>

theorem header_allowlist_exact:
  assumes "header_wf (r_header req)"
    and "ha_rules a = [] \<or> match_any_rule (ha_rules a) req"
    and "header_allowlist_request a tctx req = (tctx', req', res)"
  shows "map_get (r_header req') k = (if header_allowed a k then map_get (r_header req) k else None)
    \<and> tctx' = (let stripped = filter (\<lambda>k. \<not> header_allowed a k) (map_keys (r_header req)) in
        if stripped = [] then tctx else annotate tctx ''stripped_headers'' (AList (map AStr stripped)))
    \<and> res = Done continue_result"
proof -
  let ?h = "r_header req"
  have d: "distinct (map_keys ?h)" and c: "\<forall>k \<in> set (map_keys ?h). canonical_key k = k"
    using assms(1) by (simp_all add: header_wf_def map_wf_def)
  have "map_get ?h k \<noteq> None \<longleftrightarrow> k \<in> set (map_keys ?h)" for k by (simp add: map_get_None_iff)
  then have "filter (\<lambda>k. map_get ?h k \<noteq> None \<and> \<not> header_allowed a k) (map_keys ?h)
      = filter (\<lambda>k. \<not> header_allowed a k) (map_keys ?h)" by (intro filter_cong) auto
  moreover have "map_get (fst (strip_headers a (map_keys ?h) ?h [])) k
      = (if header_allowed a k then map_get ?h k else None)"
    using map_get_strip_headers [OF c] by (auto simp: map_get_None_iff)
  ultimately show ?thesis
    using assms(2,3) strip_headers_stripped [OF c d, of a ?h "[]"]
    by (auto simp: header_allowlist_request_def Let_def split: prod.splits if_splits)
qed

definition accept_only :: header_allowlist where
  "accept_only = \<lparr>ha_matchers = [HeaderName ''Accept''], ha_rules = []\<rparr>"

definition two_headers :: "unit request" where
  "two_headers = plain_request\<lparr>r_header := [(''Accept'', [''text/plain'']), (''X-Debug'', [''1''])]\<rparr>"

theorem header_allowlist_exact_witness:
  "map_get (r_header (fst (snd (header_allowlist_request accept_only plain_context two_headers)))) ''X-Debug'' = None
    \<and> fst (header_allowlist_request accept_only plain_context two_headers)
      = annotate plain_context ''stripped_headers'' (AList [AStr ''X-Debug''])"
proof -
  have h: "header_wf (r_header two_headers)" "\<not> header_allowed accept_only ''X-Debug''" "ha_rules accept_only = []"
    and s: "filter (\<lambda>k. \<not> header_allowed accept_only k) (map_keys (r_header two_headers)) = [''X-Debug'']" by code_simp+
  obtain tctx' req' res where r: "header_allowlist_request accept_only plain_context two_headers = (tctx', req', res)"
    by (metis prod.collapse)
  from header_allowlist_exact [OF h(1) disjI1 [OF h(3)] r, of "''X-Debug''"] h(2) s r show ?thesis by simp
qed

text \<open>
  A captured body that was valid text is valid text, however the limit falls: it is the
  text of a prefix of its characters.
\<close>

theorem capture_whole_characters:
  assumes "list_all valid_rune rs"
  shows "\<exists>k. bc_request_body (capture_body m (string_of_runes rs)) = string_of_runes (take k rs)"
  using assms by (rule capture_body_text) blast

theorem capture_whole_characters_witness:
  "\<exists>k. bc_request_body (capture_body 4 (string_of_runes [0x61, 0x20AC, 0x20AC])) = string_of_runes (take k [0x61, 0x20AC, 0x20AC])"
  by (rule capture_whole_characters) code_simp

text \<open>
  A header stored under a name that is not canonical is reported as stripped and is
  still sent.
\<close>

theorem header_strip_noncanonical:
  assumes "canonical_key name \<noteq> name" "\<not> header_allowed a name" "map_get h name = Some vs"
  shows "snd (strip_headers a [name] h []) = [name] \<and> map_get (fst (strip_headers a [name] h [])) name = Some vs"
  using strip_headers_noncanonical [OF assms] by simp

theorem header_strip_noncanonical_witness:
  "map_get (fst (strip_headers \<lparr>ha_matchers = [], ha_rules = []\<rparr> [''x-secret''] [(''x-secret'', [''v''])] []))
    ''x-secret'' = Some [''v'']"
proof -
  have "canonical_key ''x-secret'' \<noteq> ''x-secret''" "\<not> header_allowed \<lparr>ha_matchers = [], ha_rules = []\<rparr> ''x-secret''"
    "map_get [(''x-secret'', [''v''])] ''x-secret'' = Some [''v'']" by code_simp+
  from header_strip_noncanonical [OF this] show ?thesis by simp
qed

end
