(* ===== verification/Go_Query.thy ===== *)
theory Go_Query
  imports Go_Path "HOL-Library.Char_ord" "HOL-Library.List_Lexorder"
begin

text \<open>
  The query part of \<^verbatim>\<open>net/url\<close>: escaping and unescaping a component, \<^verbatim>\<open>ParseQuery\<close> and
  \<^verbatim>\<open>Values.Encode\<close>. Values are a Go map from names to lists of values.
\<close>

fun query_unescape :: "string \<Rightarrow> string option" where
  "query_unescape [] = Some []"
| "query_unescape (c # cs) =
    (if c = CHR ''%'' then
       (case cs of
          a # b # rest \<Rightarrow>
            (case (hex_digit a, hex_digit b) of
               (Some x, Some y) \<Rightarrow> map_option ((#) (char_of (16 * x + y))) (query_unescape rest)
             | _ \<Rightarrow> None)
        | _ \<Rightarrow> None)
     else if c = CHR ''+'' then map_option ((#) CHR '' '') (query_unescape cs)
     else map_option ((#) c) (query_unescape cs))"

definition query_safe :: "char \<Rightarrow> bool" where
  "query_safe c \<longleftrightarrow> is_alnum c \<or> c \<in> set ''-_.~''"

definition query_escape_char :: "char \<Rightarrow> string" where
  "query_escape_char c =
    (if query_safe c then [c]
     else if c = CHR '' '' then ''+''
     else [CHR ''%'', upper_hex (byte c div 16), upper_hex (byte c mod 16)])"

definition query_escape :: "string \<Rightarrow> string" where
  "query_escape s = concat (map query_escape_char s)"

text \<open>\<^verbatim>\<open>strings.Cut(s, sep)\<close> without its third result.\<close>

definition cut_at :: "string \<Rightarrow> string \<Rightarrow> string \<times> string" where
  "cut_at s sep = (case str_cut s sep of Some p \<Rightarrow> p | None \<Rightarrow> (s, []))"

definition add_value :: "(string, string list) gomap \<Rightarrow> string \<Rightarrow> string \<Rightarrow> (string, string list) gomap" where
  "add_value m k v = map_set m k ((case map_get m k of Some vs \<Rightarrow> vs | None \<Rightarrow> []) @ [v])"

definition parse_pair ::
    "string \<Rightarrow> (string, string list) gomap \<times> bool \<Rightarrow> (string, string list) gomap \<times> bool" where
  "parse_pair piece st =
    (let (m, err) = st in
     if contains_char piece CHR '';'' then (m, True)
     else if piece = [] then (m, err)
     else
       (let (key, val) = cut_at piece ''='' in
        case query_unescape key of
          None \<Rightarrow> (m, True)
        | Some key \<Rightarrow>
          (case query_unescape val of
             None \<Rightarrow> (m, True)
           | Some val \<Rightarrow> (add_value m key val, err))))"

text \<open>The values read and whether an error occurred.\<close>

definition parse_query :: "string \<Rightarrow> (string, string list) gomap \<times> bool" where
  "parse_query raw = fold parse_pair (split_char CHR ''&'' raw) ([], False)"

definition encode_query :: "(string, string list) gomap \<Rightarrow> string" where
  "encode_query m =
    str_join (concat (map (\<lambda>k. map (\<lambda>v. query_escape k @ ''='' @ query_escape v)
        (case map_get m k of Some vs \<Rightarrow> vs | None \<Rightarrow> [])) (sort (map_keys m)))) ''&''"

lemma hex_digit_upper: "n < 16 \<Longrightarrow> hex_digit (upper_hex n) = Some n"
  by (auto simp: hex_digit_def upper_hex_def Let_def)

lemma query_unescape_char: "query_unescape (query_escape_char c @ s) = map_option ((#) c) (query_unescape s)"
proof -
  have "byte c < 256" by simp
  then have "byte c < 16 * 16" by simp
  then have "byte c div 16 < 16" by (rule less_mult_imp_div_less)
  then have h: "hex_digit (upper_hex (byte c div 16)) = Some (byte c div 16)"
    "hex_digit (upper_hex (byte c mod 16)) = Some (byte c mod 16)"
    by (simp_all add: hex_digit_upper)
  have "query_safe c \<Longrightarrow> c \<noteq> CHR ''%'' \<and> c \<noteq> CHR ''+''" by (auto simp: query_safe_def is_alnum_def)
  with h show ?thesis by (auto simp: query_escape_char_def)
qed

lemma query_unescape_escape: "query_unescape (query_escape s) = Some s"
  by (induction s) (simp_all add: query_escape_def query_unescape_char)

end
