(* ===== verification/Go_Encoding.thy ===== *)
theory Go_Encoding
  imports Go_Utf8 Go_Strings
begin

text \<open>
  The encodings of \<^verbatim>\<open>encoding/base64\<close>, \<^verbatim>\<open>encoding/base32\<close> and \<^verbatim>\<open>encoding/hex\<close> the program uses. A
  text is encoded by cutting its bits, most significant first, into groups of six or five;
  the last group is filled with zeros. The lemmas show that decoding inverts encoding, and
  that the groups inside a part of a text do not depend on what surrounds it.
\<close>

section \<open>Bits\<close>

fun byte_bits :: "char \<Rightarrow> bool list" where
  "byte_bits (Char b0 b1 b2 b3 b4 b5 b6 b7) = [b7, b6, b5, b4, b3, b2, b1, b0]"

definition text_bits :: "bytes \<Rightarrow> bool list" where
  "text_bits s = concat (map byte_bits s)"

definition bits_val :: "bool list \<Rightarrow> nat" where
  "bits_val bs = foldl (\<lambda>v b. 2 * v + of_bool b) 0 bs"

fun val_bits :: "nat \<Rightarrow> nat \<Rightarrow> bool list" where
  "val_bits 0 v = []"
| "val_bits (Suc k) v = val_bits k (v div 2) @ [odd v]"

text \<open>Groups of \<open>k\<close> bits, the last one filled with zeros; \<open>k\<close> is positive.\<close>

function bit_groups :: "nat \<Rightarrow> bool list \<Rightarrow> bool list list" where
  "bit_groups k bs =
    (if bs = [] \<or> k = 0 then []
     else take k (bs @ replicate k False) # bit_groups k (drop k bs))"
  by auto
termination
  by (relation "measure (\<lambda>(k, bs). length bs)") auto

declare bit_groups.simps [simp del]

fun bytes_of_bits :: "bool list \<Rightarrow> bytes" where
  "bytes_of_bits (b7 # b6 # b5 # b4 # b3 # b2 # b1 # b0 # bs) = Char b0 b1 b2 b3 b4 b5 b6 b7 # bytes_of_bits bs"
| "bytes_of_bits _ = []"

section \<open>Encoders\<close>

definition encode_groups :: "nat \<Rightarrow> string \<Rightarrow> bytes \<Rightarrow> string" where
  "encode_groups k alphabet s = map (\<lambda>g. alphabet ! bits_val g) (bit_groups k (text_bits s))"

definition pad_to :: "nat \<Rightarrow> string \<Rightarrow> string" where
  "pad_to n s = s @ replicate ((n - length s mod n) mod n) CHR ''=''"

definition base64_std :: string where
  "base64_std = ''ABCDEFGHIJKLMNOPQRSTUVWXYZabcdefghijklmnopqrstuvwxyz0123456789+/''"

definition base64_url :: string where
  "base64_url = ''ABCDEFGHIJKLMNOPQRSTUVWXYZabcdefghijklmnopqrstuvwxyz0123456789-_''"

definition base32_std :: string where
  "base32_std = ''ABCDEFGHIJKLMNOPQRSTUVWXYZ234567''"

definition base32_hex :: string where
  "base32_hex = ''0123456789ABCDEFGHIJKLMNOPQRSTUV''"

definition base64_encode :: "bytes \<Rightarrow> string" where
  "base64_encode s = pad_to 4 (encode_groups 6 base64_std s)"

definition base32_encode :: "string \<Rightarrow> bytes \<Rightarrow> string" where
  "base32_encode alphabet s = pad_to 8 (encode_groups 5 alphabet s)"

definition hex_encode :: "bytes \<Rightarrow> string" where
  "hex_encode s = encode_groups 4 ''0123456789abcdef'' s"

section \<open>The decoder of base64\<close>

text \<open>
  \<^verbatim>\<open>StdEncoding.DecodeString\<close> skips line breaks anywhere; the strict form also refuses bits
  left over after the last byte.
\<close>

definition base64_decode :: "bool \<Rightarrow> string \<Rightarrow> bytes option" where
  "base64_decode strict s =
    (let t = filter (\<lambda>c. c \<noteq> CHR 0x0D \<and> c \<noteq> CHR 0x0A) s;
         body = takeWhile (\<lambda>c. c \<noteq> CHR ''='') t;
         pads = drop (length body) t
     in if length t mod 4 \<noteq> 0 \<or> pads \<notin> {[], ''='', ''==''} then None
        else if list_ex (\<lambda>c. index_byte base64_std c = None) body then None
        else
          (let bs = concat (map (\<lambda>c. val_bits 6 (the (index_byte base64_std c))) body);
               n = 8 * (length bs div 8)
           in if strict \<and> True \<in> set (drop n bs) then None else Some (bytes_of_bits (take n bs))))"

section \<open>Groups\<close>

lemma length_byte_bits [simp]: "length (byte_bits c) = 8"
  by (cases c) simp

lemma text_bits_simps [simp]:
  "text_bits [] = []" "text_bits (c # cs) = byte_bits c @ text_bits cs"
  "text_bits (a @ b) = text_bits a @ text_bits b"
  by (simp_all add: text_bits_def)

lemma length_text_bits [simp]: "length (text_bits s) = 8 * length s"
  by (induction s) auto

lemma bytes_of_text_bits [simp]: "bytes_of_bits (text_bits s) = s"
proof (induction s)
  case (Cons c cs)
  then show ?case by (cases c) simp
qed simp

lemma length_val_bits [simp]: "length (val_bits k v) = k"
  by (induction k arbitrary: v) auto

lemma bits_val_snoc: "bits_val (bs @ [b]) = 2 * bits_val bs + of_bool b"
  by (simp add: bits_val_def)

lemma bits_val_less: "bits_val bs < 2 ^ length bs"
  by (induction bs rule: rev_induct) (auto simp: bits_val_snoc bits_val_def [of "[]"])

lemma val_bits_val: "length bs = k \<Longrightarrow> val_bits k (bits_val bs) = bs"
proof (induction k arbitrary: bs)
  case (Suc k)
  then obtain cs b where "bs = cs @ [b]" "length cs = k" by (metis append_butlast_last_id length_append_singleton
        length_greater_0_conv nat.inject zero_less_Suc)
  with Suc.IH [of cs] show ?case by (simp add: bits_val_snoc)
qed simp

lemma bit_groups_Nil [simp]: "bit_groups k [] = []"
  by (simp add: bit_groups.simps)

lemma bit_groups_append:
  assumes "0 < k" "length g = k"
  shows "bit_groups k (g @ bs) = g # bit_groups k bs"
  using assms by (subst bit_groups.simps) auto

lemma bit_groups_short:
  assumes "0 < k" "bs \<noteq> []" "length bs \<le> k"
  shows "bit_groups k bs = [bs @ replicate (k - length bs) False]"
  using assms by (subst bit_groups.simps) (simp add: take_append)

lemma length_bit_groups: "0 < k \<Longrightarrow> length (bit_groups k bs) = (length bs + k - 1) div k"
proof (induction "length bs" arbitrary: bs rule: less_induct)
  case less
  show ?case
  proof (cases "length bs \<le> k")
    case True
    show ?thesis
    proof (cases "bs = []")
      case False
      then obtain m where "length bs = Suc m" by (cases bs) auto
      with True have "k * 1 \<le> length bs + k - 1" "length bs + k - 1 < k * Suc 1" by auto
      then have "(length bs + k - 1) div k = 1" by (rule div_nat_eqI)
      with True False less.prems show ?thesis by (simp add: bit_groups_short)
    qed (use less.prems in simp)
  next
    case False
    then obtain g cs where g: "bs = g @ cs" "length g = k"
      by (metis append_take_drop_id length_take min.absorb2 nat_le_linear)
    have "length bs + k - 1 = (length cs + k - 1) + k" using less.prems g by simp
    then have "(length bs + k - 1) div k = Suc ((length cs + k - 1) div k)"
      using less.prems by (simp only: div_add_self2 [OF gr_implies_not0])
    with less g show ?thesis by (simp add: bit_groups_append)
  qed
qed

text \<open>A group that lies inside the text is the bits there.\<close>

lemma bit_groups_nth:
  "\<lbrakk>0 < k; k * Suc i \<le> length bs\<rbrakk> \<Longrightarrow> i < length (bit_groups k bs) \<and> bit_groups k bs ! i = take k (drop (k * i) bs)"
proof (induction i arbitrary: bs)
  case 0
  then show ?case by (subst (1 2) bit_groups.simps) auto
next
  case (Suc i)
  have "k \<le> length bs" using Suc.prems by simp
  then obtain g cs where g: "bs = g @ cs" "length g = k"
    by (metis append_take_drop_id length_take min.absorb2)
  with Suc.IH [of cs] Suc.prems show ?case by (simp add: bit_groups_append)
qed

lemma concat_bit_groups:
  "0 < k \<Longrightarrow> \<exists>n < k. concat (bit_groups k bs) = bs @ replicate n False"
proof (induction "length bs" arbitrary: bs rule: less_induct)
  case less
  show ?case
  proof (cases "length bs \<le> k")
    case True
    with less.prems show ?thesis by (cases "bs = []") (auto simp: bit_groups_short Suc_le_eq intro!: exI [of _ "k - length bs"])
  next
    case False
    then obtain g cs where g: "bs = g @ cs" "length g = k"
      by (metis append_take_drop_id length_take min.absorb2 nat_le_linear)
    with less.hyps [of cs] less.prems False show ?thesis by (auto simp: bit_groups_append)
  qed
qed

lemma bit_groups_length: "\<lbrakk>0 < k; g \<in> set (bit_groups k bs)\<rbrakk> \<Longrightarrow> length g = k"
proof (induction "length bs" arbitrary: bs rule: less_induct)
  case less
  from less.prems have "bs \<noteq> []" by auto
  with less.prems less.hyps [of "drop k bs"] show ?case
    using bit_groups.simps [of k bs] by auto
qed

section \<open>Decoding inverts encoding\<close>

lemma base64_std_props: "length base64_std = 64" "distinct base64_std"
  "CHR ''='' \<notin> set base64_std" "CHR 0x0D \<notin> set base64_std" "CHR 0x0A \<notin> set base64_std"
  by code_simp+

lemma index_byte_nth: "\<lbrakk>distinct xs; i < length xs\<rbrakk> \<Longrightarrow> index_byte xs (xs ! i) = Some i"
proof (induction xs arbitrary: i)
  case (Cons x xs)
  then show ?case by (cases i) auto
qed simp

lemma encode_groups_chars:
  assumes "c \<in> set (encode_groups 6 base64_std s)"
  obtains g where "c = base64_std ! bits_val g" "length g = 6" "bits_val g < 64"
proof -
  from assms obtain g where g: "g \<in> set (bit_groups 6 (text_bits s))" "c = base64_std ! bits_val g"
    by (auto simp: encode_groups_def)
  from bit_groups_length [OF _ g(1)] have "length g = 6" by simp
  with bits_val_less [of g] g(2) that show thesis by simp
qed

lemma base64_chars_ok:
  assumes "c \<in> set (encode_groups 6 base64_std s)"
  shows "c \<noteq> CHR ''=''" "c \<noteq> CHR 0x0D" "c \<noteq> CHR 0x0A" "index_byte base64_std c \<noteq> None"
proof -
  obtain g where g: "c = base64_std ! bits_val g" "bits_val g < 64" using assms by (rule encode_groups_chars)
  then have "c \<in> set base64_std" by (simp add: base64_std_props)
  then show "c \<noteq> CHR ''=''" "c \<noteq> CHR 0x0D" "c \<noteq> CHR 0x0A" "index_byte base64_std c \<noteq> None"
    using base64_std_props by (auto simp: index_byte_None)
qed

lemma base64_bits:
  "concat (map (\<lambda>c. val_bits 6 (the (index_byte base64_std c))) (encode_groups 6 base64_std s))
    = concat (bit_groups 6 (text_bits s))"
proof -
  have "val_bits 6 (the (index_byte base64_std (base64_std ! bits_val g))) = g"
    if "g \<in> set (bit_groups 6 (text_bits s))" for g
  proof -
    have "length g = 6" using that by (rule bit_groups_length [rotated]) simp
    with bits_val_less [of g] show ?thesis
      by (simp add: index_byte_nth base64_std_props val_bits_val)
  qed
  then show ?thesis by (simp add: encode_groups_def o_def cong: map_cong)
qed

lemma pad_to_4:
  assumes "length s mod 4 \<noteq> 1"
  obtains p where "pad_to 4 s = s @ p" "p \<in> {[], ''='', ''==''}" "length (s @ p) mod 4 = 0"
proof -
  consider "length s mod 4 = 0" | "length s mod 4 = 2" | "length s mod 4 = 3" using assms by linarith
  then show thesis
    by cases (rule that [of "replicate ((4 - length s mod 4) mod 4) CHR ''=''"],
        auto simp: pad_to_def numeral_2_eq_2 mod_add_eq [symmetric] mod_Suc)+
qed

lemma groups_length_6: "length (encode_groups 6 a s) mod 4 \<noteq> 1"
proof -
  have "length (encode_groups 6 a s) = (8 * length s + 5) div 6"
    by (simp add: encode_groups_def length_bit_groups)
  then show ?thesis by presburger
qed

lemma base64_decode_encode: "base64_decode strict (base64_encode s) = Some s"
proof -
  let ?e = "encode_groups 6 base64_std s"
  obtain p where p: "base64_encode s = ?e @ p" "p \<in> {[], ''='', ''==''}" "length (?e @ p) mod 4 = 0"
    using pad_to_4 [OF groups_length_6] by (metis base64_encode_def)
  have "filter (\<lambda>c. c \<noteq> CHR 0x0D \<and> c \<noteq> CHR 0x0A) ?e = ?e"
    using base64_chars_ok [of _ s] by (intro filter_True) blast
  moreover have "takeWhile (\<lambda>c. c \<noteq> CHR ''='') (?e @ p) = ?e"
  proof -
    have "takeWhile (\<lambda>c. c \<noteq> CHR ''='') p = []" using p(2) by auto
    moreover have "c \<in> set ?e \<Longrightarrow> c \<noteq> CHR ''=''" for c by (rule base64_chars_ok(1))
    ultimately show ?thesis by (subst takeWhile_append2) auto
  qed
  moreover have "filter (\<lambda>c. c \<noteq> CHR 0x0D \<and> c \<noteq> CHR 0x0A) p = p" using p(2) by auto
  moreover have "\<not> list_ex (\<lambda>c. index_byte base64_std c = None) ?e"
    using base64_chars_ok(4) [of _ s] by (auto simp: list_ex_iff)
  moreover obtain n where n: "n < 6" "concat (bit_groups 6 (text_bits s)) = text_bits s @ replicate n False"
    using concat_bit_groups [of 6 "text_bits s"] by auto
  moreover have "8 * ((8 * length s + n) div 8) = 8 * length s" using n(1) by simp
  ultimately show ?thesis
    using p by (simp add: base64_decode_def base64_bits Let_def)
qed

section \<open>The part of an encoding that depends on one value\<close>

lemma encode_groups_nth:
  assumes "0 < k" "k * Suc i \<le> 8 * length s"
  shows "i < length (encode_groups k a s)"
    and "encode_groups k a s ! i = a ! bits_val (take k (drop (k * i) (text_bits s)))"
  using bit_groups_nth [OF assms(1), of i "text_bits s"] assms(2) by (simp_all add: encode_groups_def)

text \<open>
  Wherever \<open>value\<close> stands in a text, the characters of the encoding whose bits all come from
  \<open>value\<close> are the same, as long as it stands at the same position modulo the period of the
  encoding.
\<close>

lemma encode_groups_shift:
  assumes k: "0 < k" and q: "8 * length pre = 8 * length pad + k * q"
    and i: "8 * length pad \<le> k * i" "k * Suc i \<le> 8 * (length pad + length v)"
  shows "q + i < length (encode_groups k a (pre @ v @ post))"
    and "encode_groups k a (pre @ v @ post) ! (q + i) = encode_groups k a (pad @ v) ! i"
proof -
  obtain d where d: "k * i = 8 * length pad + d" using i(1) le_Suc_ex by blast
  have r: "k * Suc (q + i) \<le> 8 * length (pre @ v @ post)" using q i(2) d by (simp add: algebra_simps)
  have "take k (drop (k * (q + i)) (text_bits (pre @ v @ post))) = take k (drop (k * i) (text_bits (pad @ v)))"
    using q d i(2) by (simp add: algebra_simps drop_append)
  with encode_groups_nth [OF k r] encode_groups_nth [OF k, of i "pad @ v"] i(2)
  show "q + i < length (encode_groups k a (pre @ v @ post))"
    and "encode_groups k a (pre @ v @ post) ! (q + i) = encode_groups k a (pad @ v) ! i" by simp_all
qed

end
