(* ===== verification/Secrets_Config.thy ===== *)
theory Secrets_Config
  imports Host_Match Header_Transforms Go_Query Go_Encoding
begin

text \<open>
  The configuration of the credential transform (\<^verbatim>\<open>secrets.go\<close>, \<^verbatim>\<open>canonical.go\<close>): the entries,
  their normalisation into one of two modes, the stricter canonical entries, and the secrets
  they resolve to. Parameters stand for the packages the code calls: regular expressions,
  templates, the decoding of YAML nodes, the builders of secret sources, and the tests of
  \<^verbatim>\<open>httpguts\<close>. A point in time is an \<^typ>\<open>int\<close>; the zero time is \<^const>\<open>None\<close>.
\<close>

section \<open>Entries\<close>

record presentation =
  pn_type :: string
  pn_name :: string
  pn_username :: string

record replace_config =
  rp_presentation :: "presentation option"
  rp_expires :: "int option"
  rp_proxy_value :: string
  rp_match_headers :: "string list"
  rp_match_body :: bool
  rp_match_path :: bool
  rp_match_query :: bool
  rp_require :: bool
  rp_allow_connect :: bool
  rp_tls_only :: bool
  rp_scrub :: bool

record inject_config =
  ij_header :: string
  ij_query :: string
  ij_formatter :: string
  ij_require :: bool

text \<open>
  \<open>se_empty_list\<close> tells that a rule carries an empty list of methods or paths instead of none.
\<close>

record 'n secret_entry =
  se_presentation :: "presentation option"
  se_expires :: "int option"
  se_source :: 'n
  se_rules :: "rule_config list"
  se_empty_list :: "rule_config \<Rightarrow> bool"
  se_inject :: "inject_config option"
  se_replace :: "replace_config option"
  se_proxy_value :: string
  se_match_headers :: "string list"
  se_match_body :: bool
  se_require :: bool
  se_allow_connect :: bool
  se_tls_only :: bool
  se_scrub :: bool

datatype secrets_error =
    NoEntryMode nat | LegacyAndReplace nat | LegacyAndInject nat | InjectAndReplace nat
  | ReplaceNoProxyValue nat | NoProxyValue nat | InjectNoTarget nat | InjectTwoTargets nat
  | CanonicalIncomplete | BadBearer | BadBasic | BadUsername | BadHeaderPresentation | RoutingHeader
  | BadQueryPresentation | UnsupportedPresentation | NotExactHost | BadCanonicalMethod | BadCanonicalPath
  | SourceUnreadable | NoSourceType | UnsupportedSource string | SourceFailed string
  | EntrySource nat secrets_error | EntryRules nat rule_error | BadFormatter nat
  | EntryHeaderRegex nat string | BadPendingWait string | PendingNoProxyValue nat

section \<open>Canonical entries (canonical.go)\<close>

definition is_lower_alnum :: "char \<Rightarrow> bool" where
  "is_lower_alnum c \<longleftrightarrow> 97 \<le> byte c \<and> byte c \<le> 122 \<or> 48 \<le> byte c \<and> byte c \<le> 57"

text \<open>One label of the pattern \<^verbatim>\<open>canonicalHost\<close>: at most 63 characters, no dash at either end.\<close>

definition canonical_label :: "string \<Rightarrow> bool" where
  "canonical_label l \<longleftrightarrow>
    l \<noteq> [] \<and> length l \<le> 63 \<and> list_all (\<lambda>c. is_lower_alnum c \<or> c = CHR ''-'') l
    \<and> is_lower_alnum (hd l) \<and> is_lower_alnum (last l)"

definition canonical_host :: "string \<Rightarrow> bool" where
  "canonical_host h \<longleftrightarrow>
    (let ls = split_char CHR ''.'' h in
     2 \<le> length ls \<and> list_all canonical_label ls \<and> \<not> is_digit (hd (last ls)))"

definition canonical_path_char :: "char \<Rightarrow> bool" where
  "canonical_path_char c \<longleftrightarrow> is_alnum c \<or> c \<in> set ''._~!$&()+,=:@/-'' \<or> c = CHR 0x27"

definition valid_canonical_path :: "string \<Rightarrow> bool" where
  "valid_canonical_path v \<longleftrightarrow>
    has_prefix v ''/'' \<and> list_all canonical_path_char v \<and> \<not> str_contains v ''//''
    \<and> list_all (\<lambda>part. part \<noteq> ''.'' \<and> part \<noteq> ''..'') (split_char CHR ''/'' v)"

definition routing_headers :: "string list" where
  "routing_headers =
    [''authorization'', ''proxy-authorization'', ''proxy-authenticate'', ''host'', ''connection'',
     ''keep-alive'', ''proxy-connection'', ''content-length'', ''transfer-encoding'', ''trailer'',
     ''upgrade'', ''te'']"

definition is_upper :: "char \<Rightarrow> bool" where
  "is_upper c \<longleftrightarrow> 65 \<le> byte c \<and> byte c \<le> 90"

definition presentation_error :: "(string \<Rightarrow> bool) \<Rightarrow> presentation \<Rightarrow> secrets_error option" where
  "presentation_error valid_name p =
    (if pn_type p = ''bearer'' then
       (if pn_name p \<noteq> [] \<or> pn_username p \<noteq> [] then Some BadBearer else None)
     else if pn_type p = ''basic'' then
       (if pn_name p \<noteq> [] \<or> pn_username p = [] then Some BadBasic
        else if list_ex (\<lambda>c. byte c < 33 \<or> 126 < byte c \<or> c = CHR '':'') (pn_username p) then Some BadUsername
        else None)
     else if pn_type p = ''header'' then
       (if pn_username p \<noteq> [] \<or> \<not> valid_name (pn_name p) then Some BadHeaderPresentation
        else if to_lower (pn_name p) \<in> set routing_headers then Some RoutingHeader
        else None)
     else if pn_type p = ''query'' then
       (if pn_username p \<noteq> [] \<or> pn_name p = []
           \<or> \<not> list_all (\<lambda>c. is_alnum c \<or> c \<in> set ''._~-'') (pn_name p) then Some BadQueryPresentation
        else None)
     else Some UnsupportedPresentation)"

definition canonical_rule_error :: "(rule_config \<Rightarrow> bool) \<Rightarrow> rule_config \<Rightarrow> secrets_error option" where
  "canonical_rule_error empty_list rule =
    (if \<not> canonical_host (rc_host rule) \<or> rc_cidr rule \<noteq> [] \<or> empty_list rule then Some NotExactHost
     else if list_ex (\<lambda>m. m = [] \<or> \<not> list_all is_upper m) (rc_methods rule) then Some BadCanonicalMethod
     else if list_ex (\<lambda>path. \<not> valid_canonical_path (trim_suffix path ''*'')
          \<or> contains_char path CHR ''*'' \<and> \<not> has_suffix path ''/*'') (rc_paths rule) then Some BadCanonicalPath
     else None)"

fun first_error :: "('a \<Rightarrow> 'e option) \<Rightarrow> 'a list \<Rightarrow> 'e option" where
  "first_error f [] = None"
| "first_error f (x # xs) = (case f x of Some e \<Rightarrow> Some e | None \<Rightarrow> first_error f xs)"

definition canonical_config :: "(string \<Rightarrow> bool) \<Rightarrow> 'n secret_entry \<Rightarrow> secrets_error + replace_config" where
  "canonical_config valid_name entry =
    (case se_presentation entry of
       None \<Rightarrow> Inl CanonicalIncomplete
     | Some p \<Rightarrow>
       (if se_proxy_value entry = [] \<or> se_expires entry = None \<or> se_replace entry \<noteq> None
           \<or> se_inject entry \<noteq> None \<or> se_match_headers entry \<noteq> [] \<or> se_match_body entry
           \<or> se_rules entry = []
        then Inl CanonicalIncomplete
        else
          (case presentation_error valid_name p of
             Some e \<Rightarrow> Inl e
           | None \<Rightarrow>
             (case first_error (canonical_rule_error (se_empty_list entry)) (se_rules entry) of
                Some e \<Rightarrow> Inl e
              | None \<Rightarrow>
                Inr \<lparr>rp_presentation = Some p, rp_expires = se_expires entry,
                     rp_proxy_value = se_proxy_value entry, rp_match_headers = [], rp_match_body = False,
                     rp_match_path = False, rp_match_query = False, rp_require = se_require entry,
                     rp_allow_connect = False, rp_tls_only = True, rp_scrub = True\<rparr>))))"

section \<open>Normalisation\<close>

definition validate_inject :: "nat \<Rightarrow> inject_config \<Rightarrow> secrets_error option" where
  "validate_inject i cfg =
    (if ij_header cfg = [] \<and> ij_query cfg = [] then Some (InjectNoTarget i)
     else if ij_header cfg \<noteq> [] \<and> ij_query cfg \<noteq> [] then Some (InjectTwoTargets i)
     else None)"

definition has_legacy :: "'n secret_entry \<Rightarrow> bool" where
  "has_legacy entry \<longleftrightarrow>
    se_proxy_value entry \<noteq> [] \<or> se_match_headers entry \<noteq> [] \<or> se_match_body entry \<or> se_require entry"

definition normalize_entry ::
    "(string \<Rightarrow> bool) \<Rightarrow> nat \<Rightarrow> 'n secret_entry \<Rightarrow> secrets_error + (replace_config + inject_config)" where
  "normalize_entry valid_name i entry =
    (if se_presentation entry \<noteq> None \<or> se_expires entry \<noteq> None
     then (case canonical_config valid_name entry of Inl e \<Rightarrow> Inl e | Inr r \<Rightarrow> Inr (Inl r))
     else
       (let legacy = has_legacy entry in
        case (legacy, se_replace entry, se_inject entry) of
          (False, None, None) \<Rightarrow> Inl (NoEntryMode i)
        | (True, Some _, _) \<Rightarrow> Inl (LegacyAndReplace i)
        | (True, None, Some _) \<Rightarrow> Inl (LegacyAndInject i)
        | (False, Some _, Some _) \<Rightarrow> Inl (InjectAndReplace i)
        | (False, None, Some ij) \<Rightarrow>
            (case validate_inject i ij of Some e \<Rightarrow> Inl e | None \<Rightarrow> Inr (Inr ij))
        | (False, Some rp, None) \<Rightarrow>
            (if rp_proxy_value rp = [] then Inl (ReplaceNoProxyValue i) else Inr (Inl rp))
        | (True, None, None) \<Rightarrow>
            (if se_proxy_value entry = [] then Inl (NoProxyValue i)
             else Inr (Inl \<lparr>rp_presentation = None, rp_expires = None,
               rp_proxy_value = se_proxy_value entry, rp_match_headers = se_match_headers entry,
               rp_match_body = se_match_body entry, rp_match_path = False, rp_match_query = False,
               rp_require = se_require entry, rp_allow_connect = se_allow_connect entry,
               rp_tls_only = se_tls_only entry, rp_scrub = se_scrub entry\<rparr>))))"

section \<open>Resolved secrets\<close>

text \<open>A source at one moment: its name, and the value or the failure of \<^verbatim>\<open>Get\<close>.\<close>

record source =
  src_name :: string
  src_get :: "string option"

datatype secret_mode = ModeReplace | ModeInject

text \<open>A literal name with its canonical form and the casing of the configuration, or a pattern.\<close>

datatype secret_header = SecretName string string | SecretRe "string \<Rightarrow> bool"

record resolved_secret =
  rs_presentation :: "presentation option"
  rs_expires :: "int option"
  rs_source :: source
  rs_mode :: secret_mode
  rs_rules :: "rule list"
  rs_proxy_value :: string
  rs_match_headers :: "secret_header list"
  rs_match_body :: bool
  rs_match_path :: bool
  rs_match_query :: bool
  rs_require :: bool
  rs_allow_connect :: bool
  rs_tls_only :: bool
  rs_scrub :: bool
  rs_inject_header :: string
  rs_inject_query :: string
  rs_formatter :: "(string \<Rightarrow> string option) option"

text \<open>The parameters: packages the code calls.\<close>

record 'n secrets_env =
  ev_compile :: regexp_compile
  ev_template :: "string \<Rightarrow> (string \<Rightarrow> string option) option"
  ev_source_type :: "'n \<Rightarrow> string option"
  ev_builder :: "string \<Rightarrow> ('n \<Rightarrow> string + source) option"
  ev_json_key :: "'n \<Rightarrow> string option"
  ev_json_source :: "string \<Rightarrow> source \<Rightarrow> source"
  ev_duration :: "string \<Rightarrow> int option"
  ev_valid_name :: "string \<Rightarrow> bool"
  ev_valid_value :: "string \<Rightarrow> bool"

fun secret_headers :: "regexp_compile \<Rightarrow> string list \<Rightarrow> string + secret_header list" where
  "secret_headers compile [] = Inr []"
| "secret_headers compile (p # ps) =
    (let m = (if 2 \<le> length p \<and> has_prefix p ''/'' \<and> has_suffix p ''/'' then
                (case compile (''(?i)'' @ take (length p - 2) (drop 1 p)) of
                   None \<Rightarrow> Inl p
                 | Some re \<Rightarrow> Inr (SecretRe re))
              else Inr (SecretName (canonical_key p) p))
     in case m of
          Inl e \<Rightarrow> Inl e
        | Inr m \<Rightarrow> (case secret_headers compile ps of Inl e \<Rightarrow> Inl e | Inr ms \<Rightarrow> Inr (m # ms)))"

definition resolve_source :: "'n secrets_env \<Rightarrow> 'n \<Rightarrow> secrets_error + source" where
  "resolve_source env node =
    (case ev_source_type env node of
       None \<Rightarrow> Inl SourceUnreadable
     | Some ty \<Rightarrow>
       (if ty = [] then Inl NoSourceType
        else
          (case ev_builder env ty of
             None \<Rightarrow> Inl (UnsupportedSource ty)
           | Some build \<Rightarrow>
             (case build node of
                Inl e \<Rightarrow> Inl (SourceFailed e)
              | Inr src \<Rightarrow>
                (case ev_json_key env node of
                   None \<Rightarrow> Inl SourceUnreadable
                 | Some key \<Rightarrow> Inr (if key \<noteq> [] then ev_json_source env key src else src))))))"

definition resolve_inject ::
    "'n secrets_env \<Rightarrow> nat \<Rightarrow> source \<Rightarrow> rule list \<Rightarrow> inject_config \<Rightarrow> secrets_error + resolved_secret" where
  "resolve_inject env i source rules ij =
    (let sec = (\<lambda>fm. \<lparr>rs_presentation = None, rs_expires = None, rs_source = source, rs_mode = ModeInject,
           rs_rules = rules, rs_proxy_value = [], rs_match_headers = [], rs_match_body = False,
           rs_match_path = False, rs_match_query = False, rs_require = ij_require ij,
           rs_allow_connect = False, rs_tls_only = False, rs_scrub = False,
           rs_inject_header = ij_header ij, rs_inject_query = ij_query ij, rs_formatter = fm\<rparr>)
     in if ij_formatter ij = [] then Inr (sec None)
        else (case ev_template env (ij_formatter ij) of
                None \<Rightarrow> Inl (BadFormatter i)
              | Some tmpl \<Rightarrow> Inr (sec (Some tmpl))))"

definition resolve_replace ::
    "'n secrets_env \<Rightarrow> nat \<Rightarrow> source \<Rightarrow> rule list \<Rightarrow> replace_config \<Rightarrow> secrets_error + resolved_secret" where
  "resolve_replace env i source rules rp =
    (case secret_headers (ev_compile env) (rp_match_headers rp) of
       Inl e \<Rightarrow> Inl (EntryHeaderRegex i e)
     | Inr matchers \<Rightarrow>
       Inr \<lparr>rs_presentation = rp_presentation rp, rs_expires = rp_expires rp, rs_source = source,
         rs_mode = ModeReplace, rs_rules = rules, rs_proxy_value = rp_proxy_value rp,
         rs_match_headers = matchers, rs_match_body = rp_match_body rp, rs_match_path = rp_match_path rp,
         rs_match_query = rp_match_query rp, rs_require = rp_require rp,
         rs_allow_connect = rp_allow_connect rp, rs_tls_only = rp_tls_only rp, rs_scrub = rp_scrub rp,
         rs_inject_header = [], rs_inject_query = [], rs_formatter = None\<rparr>)"

definition resolve_secret :: "'n secrets_env \<Rightarrow> nat \<Rightarrow> 'n secret_entry \<Rightarrow> secrets_error + resolved_secret" where
  "resolve_secret env i entry =
    (case normalize_entry (ev_valid_name env) i entry of
       Inl e \<Rightarrow> Inl e
     | Inr cfg \<Rightarrow>
       (case resolve_source env (se_source entry) of
          Inl e \<Rightarrow> Inl (EntrySource i e)
        | Inr source \<Rightarrow>
          (case compile_rules (se_rules entry) of
             Inl e \<Rightarrow> Inl (EntryRules i e)
           | Inr rules \<Rightarrow>
             (case cfg of
                Inr ij \<Rightarrow> resolve_inject env i source rules ij
              | Inl rp \<Rightarrow> resolve_replace env i source rules rp))))"

fun resolve_secrets :: "'n secrets_env \<Rightarrow> nat \<Rightarrow> 'n secret_entry list \<Rightarrow> secrets_error + resolved_secret list" where
  "resolve_secrets env i [] = Inr []"
| "resolve_secrets env i (e # es) =
    (case resolve_secret env i e of
       Inl err \<Rightarrow> Inl err
     | Inr sec \<Rightarrow> (case resolve_secrets env (Suc i) es of Inl err \<Rightarrow> Inl err | Inr secs \<Rightarrow> Inr (sec # secs)))"

end
