(* ===== verification/Scrub_Token.thy ===== *)
theory Scrub_Token
  imports Go_Strings
begin

text \<open>
  The reading half of \<^verbatim>\<open>internal/transform/secrets/scrub.go\<close>: one character of a response in
  any of the spellings the scrub understands, and the writing of a character in such a
  spelling. The lemmas show that a reading made on a part of a stream stays the same when
  more bytes arrive, that a spelling is at most twelve bytes, and that what \<open>spell\<close> writes
  is read back.
\<close>

section \<open>Spellings\<close>

datatype form =
    FormLiteral | FormPercent | FormJSONU | FormJSONShort | FormHexEscape
  | FormHTMLDec | FormHTMLHex | FormHTMLNamed

text \<open>The hex case of a spelling: 0, \<^verbatim>\<open>'a'\<close> or \<^verbatim>\<open>'A'\<close> in the source.\<close>

datatype hex_case = NoCase | LowerCase | UpperCase

record spelling =
  sp_form :: form
  sp_case :: hex_case

abbreviation Sp :: "form \<Rightarrow> hex_case \<Rightarrow> spelling" where
  "Sp f c \<equiv> \<lparr>sp_form = f, sp_case = c\<rparr>"

definition literal_spelling :: spelling where
  "literal_spelling = Sp FormLiteral NoCase"

definition max_token :: nat where
  "max_token = 12"

definition max_gap :: nat where
  "max_gap = 16"

text \<open>A byte outside UTF-8 is the rune \<open>raw_rune\<close> of it, above the Unicode range.\<close>

definition raw_rune :: "nat \<Rightarrow> nat" where
  "raw_rune b = max_rune + 1 + b"

function decode_runes :: "bytes \<Rightarrow> nat list" where
  "decode_runes [] = []"
| "decode_runes (c # cs) =
    (let (r, w) = decode_rune (c # cs) in
     if r = rune_error \<and> w \<le> 1 then raw_rune (byte c) # decode_runes cs
     else r # decode_runes (drop w (c # cs)))"
  by pat_completeness auto
termination
proof (relation "measure length", goal_cases)
  case (3 c cs p r w)
  then have "w = snd (decode_rune (c # cs))" by (metis snd_conv)
  then show ?case using decode_rune_size_pos [of "c # cs"] by (simp del: decode_rune.simps)
qed simp_all

definition append_rune :: "bytes \<Rightarrow> nat \<Rightarrow> bytes" where
  "append_rune dst r = dst @ (if max_rune < r then [char_of (r - max_rune - 1)] else encode_rune r)"

section \<open>Reading hex\<close>

definition hex_value :: "char \<Rightarrow> (nat \<times> hex_case) option" where
  "hex_value c =
    (let b = byte c in
     if 48 \<le> b \<and> b \<le> 57 then Some (b - 48, NoCase)
     else if 97 \<le> b \<and> b \<le> 102 then Some (b - 97 + 10, LowerCase)
     else if 65 \<le> b \<and> b \<le> 70 then Some (b - 65 + 10, UpperCase)
     else None)"

datatype hex_read = HexOk nat hex_case | HexMore | HexBad

text \<open>\<^verbatim>\<open>readHex\<close>, from the value and case read so far.\<close>

fun read_hex_from :: "nat \<Rightarrow> bytes \<Rightarrow> nat \<Rightarrow> hex_case \<Rightarrow> hex_read" where
  "read_hex_from 0 data v hc = HexOk v hc"
| "read_hex_from (Suc n) [] v hc = HexMore"
| "read_hex_from (Suc n) (c # cs) v hc =
    (case hex_value c of
       None \<Rightarrow> HexBad
     | Some (d, k) \<Rightarrow> read_hex_from n cs (v * 16 + d) (if k \<noteq> NoCase \<and> hc = NoCase then k else hc))"

definition read_hex :: "bytes \<Rightarrow> nat \<Rightarrow> hex_read" where
  "read_hex data n = read_hex_from n data 0 NoCase"

section \<open>Reading escapes\<close>

text \<open>
  The outcome of an escape reader: a rune with its width and spelling, the need for more
  bytes, or no escape (\<^verbatim>\<open>w = 0\<close> and \<^verbatim>\<open>more\<close> unset).
\<close>

datatype escape = EscTok nat nat spelling | EscMore | EscNone

text \<open>
  The rest of the loop of \<^verbatim>\<open>readPercent\<close> once the first byte fixed \<open>need\<close>. \<^const>\<open>None\<close> is the
  \<^verbatim>\<open>break\<close>.
\<close>

fun percent_tail :: "nat \<Rightarrow> nat \<Rightarrow> bytes \<Rightarrow> bytes \<Rightarrow> hex_case \<Rightarrow> escape option" where
  "percent_tail 0 need data buf hc =
    (let (r, w) = decode_rune buf in
     if r = rune_error \<and> w \<le> 1 then None else Some (EscTok r (3 * need) (Sp FormPercent hc)))"
| "percent_tail (Suc k) need [] buf hc = Some EscMore"
| "percent_tail (Suc k) need (c # cs) buf hc =
    (if c \<noteq> CHR ''%'' then None
     else
       (case read_hex cs 2 of
          HexMore \<Rightarrow> Some EscMore
        | HexBad \<Rightarrow> None
        | HexOk v h \<Rightarrow>
            percent_tail k need (drop 2 cs) (buf @ [char_of v]) (if hc = NoCase then h else hc)))"

definition percent_need :: "nat \<Rightarrow> nat" where
  "percent_need v =
    (if v < 0x80 then 1 else if v div 32 = 6 then 2 else if v div 16 = 0xE then 3
     else if v div 8 = 0x1E then 4 else 1)"

definition read_percent :: "bytes \<Rightarrow> escape" where
  "read_percent data =
    (case read_hex (drop 1 data) 2 of
       HexMore \<Rightarrow> EscMore
     | HexBad \<Rightarrow> EscNone
     | HexOk v h \<Rightarrow>
         (case percent_tail (percent_need v - 1) (percent_need v) (drop 3 data) [char_of v] h of
            Some e \<Rightarrow> e
          | None \<Rightarrow> EscTok (if 0x80 \<le> v then raw_rune v else v) 3 (Sp FormPercent h)))"

definition json_short :: "(char \<times> nat) list" where
  "json_short =
    [(CHR 0x22, 0x22), (CHR 0x5C, 0x5C), (CHR ''/'', 0x2F), (CHR ''b'', 8), (CHR ''f'', 12),
     (CHR ''n'', 10), (CHR ''r'', 13), (CHR ''t'', 9)]"

text \<open>\<^verbatim>\<open>\u\<close> followed by the code unit \<open>u\<close>: a high surrogate joins the low one after it.\<close>

definition read_unit :: "bytes \<Rightarrow> nat \<Rightarrow> hex_case \<Rightarrow> escape" where
  "read_unit data u c =
    (if 0xD800 \<le> u \<and> u < 0xDC00 then
       (if length data < 8 \<or> data ! 6 = CHR 0x5C \<and> length data < 12 then EscMore
        else if data ! 6 = CHR 0x5C \<and> data ! 7 = CHR ''u'' then
          (case read_hex (drop 8 data) 4 of
             HexOk low c2 \<Rightarrow>
               (if 0xDC00 \<le> low \<and> low < 0xE000
                then EscTok (0x10000 + (u - 0xD800) * 1024 + (low - 0xDC00)) 12
                       (Sp FormJSONU (if c = NoCase then c2 else c))
                else EscTok u 6 (Sp FormJSONU c))
           | _ \<Rightarrow> EscTok u 6 (Sp FormJSONU c))
        else EscTok u 6 (Sp FormJSONU c))
     else EscTok u 6 (Sp FormJSONU c))"

definition read_backslash :: "bytes \<Rightarrow> escape" where
  "read_backslash data =
    (if length data < 2 then EscMore
     else if data ! 1 = CHR ''u'' then
       (case read_hex (drop 2 data) 4 of
          HexMore \<Rightarrow> EscMore
        | HexBad \<Rightarrow> EscNone
        | HexOk u c \<Rightarrow> read_unit data u c)
     else if data ! 1 = CHR ''x'' then
       (case read_hex (drop 2 data) 2 of
          HexMore \<Rightarrow> EscMore
        | HexBad \<Rightarrow> EscNone
        | HexOk v c \<Rightarrow> EscTok v 4 (Sp FormHexEscape c))
     else
       (case map_of json_short (data ! 1) of
          Some r \<Rightarrow> EscTok r 2 (Sp FormJSONShort NoCase)
        | None \<Rightarrow> EscNone))"

definition named_refs :: "(string \<times> nat) list" where
  "named_refs = [(''amp'', 0x26), (''lt'', 0x3C), (''gt'', 0x3E), (''quot'', 0x22), (''apos'', 0x27)]"

text \<open>The loop over a named reference; the first argument counts the bytes it may still look at.\<close>

fun named_loop :: "nat \<Rightarrow> bytes \<Rightarrow> string \<Rightarrow> escape" where
  "named_loop 0 data name = EscNone"
| "named_loop (Suc k) [] name = EscMore"
| "named_loop (Suc k) (c # cs) name =
    (if c = CHR '';'' then
       (case map_of named_refs name of
          Some r \<Rightarrow> EscTok r (length name + 2) (Sp FormHTMLNamed NoCase)
        | None \<Rightarrow> EscNone)
     else if byte c < 97 \<or> 122 < byte c then EscNone
     else named_loop k cs (name @ [c]))"

text \<open>The loop over a numeric reference; \<open>i\<close> is the number of digits read.\<close>

fun numeric_loop ::
    "nat \<Rightarrow> nat \<Rightarrow> form \<Rightarrow> nat \<Rightarrow> bytes \<Rightarrow> nat \<Rightarrow> nat \<Rightarrow> hex_case \<Rightarrow> escape" where
  "numeric_loop base maxDigits f digits [] i v hc = EscMore"
| "numeric_loop base maxDigits f digits (c # cs) i v hc =
    (if c = CHR '';'' then
       (if i = 0 \<or> max_rune < v then EscNone else EscTok v (digits + i + 1) (Sp f hc))
     else if maxDigits \<le> i then EscNone
     else
       (case hex_value c of
          None \<Rightarrow> EscNone
        | Some (d, k) \<Rightarrow>
            (if base = 10 \<and> 9 < d \<or> base = 10 \<and> k \<noteq> NoCase then EscNone
             else numeric_loop base maxDigits f digits cs (Suc i) (v * base + d)
                    (if k \<noteq> NoCase \<and> hc = NoCase then k else hc))))"

definition read_reference :: "bytes \<Rightarrow> escape" where
  "read_reference data =
    (if length data < 2 then EscMore
     else if data ! 1 \<noteq> CHR ''#'' then named_loop 5 (drop 1 data) []
     else if 2 < length data \<and> (data ! 2 = CHR ''x'' \<or> data ! 2 = CHR ''X'')
       then numeric_loop 16 6 FormHTMLHex 3 (drop 3 data) 0 0 NoCase
     else numeric_loop 10 7 FormHTMLDec 2 (drop 2 data) 0 0 NoCase)"

section \<open>Reading a character\<close>

definition is_escape_start :: "char \<Rightarrow> bool" where
  "is_escape_start c \<longleftrightarrow> c = CHR ''%'' \<or> c = CHR 0x5C \<or> c = CHR ''&''"

text \<open>\<^const>\<open>None\<close> is \<^verbatim>\<open>tokenMore\<close>. The callers pass non-empty data.\<close>

definition read_literal :: "bytes \<Rightarrow> bool \<Rightarrow> (nat \<times> nat \<times> spelling) option" where
  "read_literal data final =
    (if \<not> final \<and> \<not> full_rune data then None
     else
       (let (r, w) = decode_rune data in
        if r = rune_error \<and> w \<le> 1 then Some (raw_rune (byte (hd data)), 1, literal_spelling)
        else Some (r, w, literal_spelling)))"

definition read_escape :: "bytes \<Rightarrow> escape" where
  "read_escape data =
    (if hd data = CHR ''%'' then read_percent data
     else if hd data = CHR 0x5C then read_backslash data
     else if hd data = CHR ''&'' then read_reference data
     else EscNone)"

definition read_token :: "bytes \<Rightarrow> bool \<Rightarrow> bool \<Rightarrow> (nat \<times> nat \<times> spelling) option" where
  "read_token data escaped final =
    (if escaped then
       (case read_escape data of
          EscMore \<Rightarrow> (if \<not> final then None else read_literal data final)
        | EscTok r w sp \<Rightarrow> Some (r, w, sp)
        | EscNone \<Rightarrow> read_literal data final)
     else read_literal data final)"

text \<open>The format characters, category Cf, from U+00AD on.\<close>

definition cf_ranges :: "(nat \<times> nat) list" where
  "cf_ranges =
    [(0xAD, 0xAD), (0x600, 0x605), (0x61C, 0x61C), (0x6DD, 0x6DD), (0x70F, 0x70F),
     (0x890, 0x891), (0x8E2, 0x8E2), (0x180E, 0x180E), (0x200B, 0x200F), (0x202A, 0x202E),
     (0x2060, 0x2064), (0x2066, 0x206F), (0xFEFF, 0xFEFF), (0xFFF9, 0xFFFB),
     (0x110BD, 0x110BD), (0x110CD, 0x110CD), (0x13430, 0x1343F), (0x1BCA0, 0x1BCA3),
     (0x1D173, 0x1D17A), (0xE0001, 0xE0001), (0xE0020, 0xE007F)]"

definition is_gap :: "nat \<Rightarrow> bool" where
  "is_gap r \<longleftrightarrow> 0xAD \<le> r \<and> r \<le> max_rune \<and> list_ex (\<lambda>(lo, hi). lo \<le> r \<and> r \<le> hi) cf_ranges"

section \<open>Writing a character\<close>

definition hex_digits :: "hex_case \<Rightarrow> string" where
  "hex_digits hc = (if hc = LowerCase then ''0123456789abcdef'' else ''0123456789ABCDEF'')"

definition hex_byte :: "hex_case \<Rightarrow> nat \<Rightarrow> bytes" where
  "hex_byte hc b = [hex_digits hc ! (b div 16), hex_digits hc ! (b mod 16)]"

fun hex_text :: "nat \<Rightarrow> string" where
  "hex_text n =
    (if n < 16 then [hex_digits LowerCase ! n]
     else hex_text (n div 16) @ [hex_digits LowerCase ! (n mod 16)])"

declare hex_text.simps [simp del]

definition json_unit :: "hex_case \<Rightarrow> nat \<Rightarrow> bytes" where
  "json_unit hc u = [CHR 0x5C, CHR ''u''] @ hex_byte hc (u div 256) @ hex_byte hc (u mod 256)"

definition spell :: "bytes \<Rightarrow> nat \<Rightarrow> form \<Rightarrow> hex_case \<Rightarrow> bytes" where
  "spell dst r f hc =
    (case f of
       FormPercent \<Rightarrow> dst @ concat (map (\<lambda>b. CHR ''%'' # hex_byte hc (byte b)) (append_rune [] r))
     | FormJSONU \<Rightarrow>
         (if max_rune < r then append_rune dst r
          else if 0x10000 \<le> r then
            dst @ json_unit hc (0xD800 + (r - 0x10000) div 1024) @ json_unit hc (0xDC00 + (r - 0x10000) mod 1024)
          else dst @ json_unit hc r)
     | FormJSONShort \<Rightarrow>
         (case find (\<lambda>(_, short). short = r) json_short of
            Some (b, _) \<Rightarrow> dst @ [CHR 0x5C, b]
          | None \<Rightarrow> append_rune dst r)
     | FormHexEscape \<Rightarrow>
         (if r < 0x80 then dst @ [CHR 0x5C, CHR ''x''] @ hex_byte hc r else append_rune dst r)
     | FormHTMLDec \<Rightarrow>
         (if r \<le> max_rune then dst @ ''&#'' @ itoa_nat r @ '';'' else append_rune dst r)
     | FormHTMLHex \<Rightarrow>
         (if r \<le> max_rune
          then dst @ ''&#x'' @ (if hc = UpperCase then to_upper (hex_text r) else hex_text r) @ '';''
          else append_rune dst r)
     | FormHTMLNamed \<Rightarrow>
         (case find (\<lambda>(_, named). named = r) named_refs of
            Some (name, _) \<Rightarrow> dst @ ''&'' @ name @ '';''
          | None \<Rightarrow> append_rune dst r)
     | FormLiteral \<Rightarrow> append_rune dst r)"

text \<open>Equations that evaluate the counted loops on binary numbers.\<close>

lemma read_hex_from_code [code]:
  "read_hex_from n data v hc =
    (if n = 0 then HexOk v hc
     else case data of
       [] \<Rightarrow> HexMore
     | c # cs \<Rightarrow>
       (case hex_value c of
          None \<Rightarrow> HexBad
        | Some (d, k) \<Rightarrow>
            read_hex_from (n - 1) cs (v * 16 + d) (if k \<noteq> NoCase \<and> hc = NoCase then k else hc)))"
  by (cases n; cases data) (auto split: option.splits)

lemma percent_tail_code [code]:
  "percent_tail k need data buf hc =
    (if k = 0 then
       (let (r, w) = decode_rune buf in
        if r = rune_error \<and> w \<le> 1 then None else Some (EscTok r (3 * need) (Sp FormPercent hc)))
     else case data of
       [] \<Rightarrow> Some EscMore
     | c # cs \<Rightarrow>
       (if c \<noteq> CHR ''%'' then None
        else
          (case read_hex cs 2 of
             HexMore \<Rightarrow> Some EscMore
           | HexBad \<Rightarrow> None
           | HexOk v h \<Rightarrow>
               percent_tail (k - 1) need (drop 2 cs) (buf @ [char_of v]) (if hc = NoCase then h else hc))))"
  by (cases k; cases data) (auto split: hex_read.splits)

lemma named_loop_code [code]:
  "named_loop k data name =
    (if k = 0 then EscNone
     else case data of
       [] \<Rightarrow> EscMore
     | c # cs \<Rightarrow>
       (if c = CHR '';'' then
          (case map_of named_refs name of
             Some r \<Rightarrow> EscTok r (length name + 2) (Sp FormHTMLNamed NoCase)
           | None \<Rightarrow> EscNone)
        else if byte c < 97 \<or> 122 < byte c then EscNone
        else named_loop (k - 1) cs (name @ [c])))"
  by (cases k; cases data) (auto split: hex_read.splits)

section \<open>Reading is stable under more input\<close>

lemma read_hex_from_stable:
  "read_hex_from n data v hc \<noteq> HexMore \<Longrightarrow> read_hex_from n (data @ ext) v hc = read_hex_from n data v hc"
  by (induction n data v hc rule: read_hex_from.induct) (auto split: option.splits)

lemma read_hex_stable: "read_hex data n \<noteq> HexMore \<Longrightarrow> read_hex (data @ ext) n = read_hex data n"
  by (simp add: read_hex_def read_hex_from_stable)

lemma read_hex_from_more: "read_hex_from n data v hc = HexMore \<Longrightarrow> length data < n"
  by (induction n data v hc rule: read_hex_from.induct) (auto split: option.splits)

lemma read_hex_from_ok: "read_hex_from n data v hc = HexOk v' hc' \<Longrightarrow> n \<le> length data"
  by (induction n data v hc rule: read_hex_from.induct) (auto split: option.splits)

lemma read_hex_more: "read_hex data n = HexMore \<Longrightarrow> length data < n"
  by (simp add: read_hex_def read_hex_from_more)

lemma read_hex_ok: "read_hex data n = HexOk v hc \<Longrightarrow> n \<le> length data"
  by (auto simp: read_hex_def dest: read_hex_from_ok)

lemma percent_tail_stable:
  "percent_tail k need data buf hc \<noteq> Some EscMore \<Longrightarrow>
    percent_tail k need (data @ ext) buf hc = percent_tail k need data buf hc"
proof (induction k need data buf hc rule: percent_tail.induct)
  case (3 k need c cs buf hc)
  show ?case
  proof (cases "read_hex cs 2")
    case (HexOk v h)
    from read_hex_ok [OF this] have "2 - length cs = 0" by simp
    with 3 HexOk show ?thesis
      by (cases "hc = NoCase"; cases "c = CHR ''%''") (simp_all add: read_hex_stable)
  qed (use 3 in \<open>auto simp: read_hex_stable\<close>)
qed simp_all

lemma read_percent_stable:
  assumes "read_percent data \<noteq> EscMore" and "data \<noteq> []"
  shows "read_percent (data @ ext) = read_percent data"
proof -
  obtain c cs where d: "data = c # cs" using assms(2) by (cases data) auto
  show ?thesis
  proof (cases "read_hex cs 2")
    case (HexOk v h)
    from read_hex_ok [OF this] have "2 - length cs = 0" by simp
    moreover have "percent_tail (percent_need v - 1) (percent_need v) (drop 2 cs) [char_of v] h \<noteq> Some EscMore"
      using assms(1) HexOk d by (auto simp: read_percent_def)
    ultimately show ?thesis
      using HexOk d by (simp add: read_percent_def read_hex_stable percent_tail_stable)
  qed (use assms d in \<open>simp_all add: read_percent_def read_hex_stable\<close>)
qed

lemma read_unit_stable:
  assumes "read_unit data u c \<noteq> EscMore"
  shows "read_unit (data @ ext) u c = read_unit data u c"
proof (cases "0xD800 \<le> u \<and> u < 0xDC00")
  case True
  with assms have l: "8 \<le> length data" "data ! 6 = CHR 0x5C \<Longrightarrow> 12 \<le> length data"
    by (auto simp: read_unit_def split: if_splits)
  have "data ! 6 = CHR 0x5C \<Longrightarrow> read_hex (drop 8 data @ ext) 4 = read_hex (drop 8 data) 4"
    using l(2) read_hex_more [of "drop 8 data" 4] by (intro read_hex_stable) auto
  with True l show ?thesis
    by (cases "data ! 6 = CHR 0x5C") (simp_all add: read_unit_def nth_append)
qed (auto simp: read_unit_def)

lemma read_backslash_stable:
  assumes "read_backslash data \<noteq> EscMore"
  shows "read_backslash (data @ ext) = read_backslash data"
proof -
  have l: "2 \<le> length data" using assms by (auto simp: read_backslash_def split: if_splits)
  consider "data ! 1 = CHR ''u''" | "data ! 1 = CHR ''x''" | "data ! 1 \<noteq> CHR ''u''" "data ! 1 \<noteq> CHR ''x''"
    by blast
  then show ?thesis
  proof cases
    case 1
    with assms l show ?thesis
      by (cases "read_hex (drop 2 data) 4")
        (simp_all add: read_backslash_def nth_append read_hex_stable read_unit_stable)
  next
    case 2
    with assms l show ?thesis
      by (cases "read_hex (drop 2 data) 2") (simp_all add: read_backslash_def nth_append read_hex_stable)
  next
    case 3
    with l show ?thesis by (simp add: read_backslash_def nth_append)
  qed
qed

lemma named_loop_stable:
  "named_loop k data name \<noteq> EscMore \<Longrightarrow> named_loop k (data @ ext) name = named_loop k data name"
  by (induction k data name rule: named_loop.induct) auto

lemma numeric_loop_stable:
  "numeric_loop base m f digits data i v hc \<noteq> EscMore \<Longrightarrow>
    numeric_loop base m f digits (data @ ext) i v hc = numeric_loop base m f digits data i v hc"
  by (induction base m f digits data i v hc rule: numeric_loop.induct) (auto split: option.splits)

lemma read_reference_stable:
  assumes "read_reference data \<noteq> EscMore"
  shows "read_reference (data @ ext) = read_reference data"
proof -
  have l: "2 \<le> length data" using assms by (auto simp: read_reference_def split: if_splits)
  moreover have "data ! 1 = CHR ''#'' \<Longrightarrow> 2 < length data"
    using assms l by (cases "length data = 2") (auto simp: read_reference_def split: if_splits)
  ultimately show ?thesis
    using assms by (auto simp: read_reference_def nth_append named_loop_stable numeric_loop_stable
        split: if_splits)
qed

lemma read_escape_stable:
  assumes "read_escape data \<noteq> EscMore" and "data \<noteq> []"
  shows "read_escape (data @ ext) = read_escape data"
  using assms by (auto simp: read_escape_def read_percent_stable read_backslash_stable
      read_reference_stable split: if_splits)

lemma read_literal_stable:
  assumes "read_literal data False = Some t" and "data \<noteq> []"
  shows "read_literal (data @ ext) final = Some t"
proof -
  have f: "full_rune data" using assms by (auto simp: read_literal_def split: if_splits)
  with assms show ?thesis
    by (cases "decode_rune data")
      (auto simp: read_literal_def full_rune_append full_rune_decode_stable split: if_splits)
qed

lemma read_token_stable:
  assumes "read_token data escaped False = Some t" and "data \<noteq> []"
  shows "read_token (data @ ext) escaped final = Some t"
  using assms read_escape_stable [OF _ assms(2), of ext]
  by (auto simp: read_token_def read_literal_stable split: if_splits escape.splits)

section \<open>Widths\<close>

lemma percent_tail_more: "percent_tail k need data buf hc = Some EscMore \<Longrightarrow> length data < 3 * k"
  by (induction k need data buf hc rule: percent_tail.induct)
    (force split: if_splits hex_read.splits prod.splits dest: read_hex_more read_hex_ok)+

lemma percent_tail_tok:
  "percent_tail k need data buf hc = Some (EscTok r w sp) \<Longrightarrow> w = 3 * need \<and> 3 * k \<le> length data"
  by (induction k need data buf hc rule: percent_tail.induct)
    (force split: if_splits hex_read.splits prod.splits dest: read_hex_ok)+

lemma percent_tail_not_none: "percent_tail k need data buf hc \<noteq> Some EscNone"
  by (induction k need data buf hc rule: percent_tail.induct)
    (auto split: if_splits hex_read.splits prod.splits)

lemma percent_need_bounds: "1 \<le> percent_need v" "percent_need v \<le> 4"
  by (simp_all add: percent_need_def)

lemma read_percent_tok:
  assumes "read_percent data = EscTok r w sp" and "data \<noteq> []"
  shows "1 \<le> w \<and> w \<le> 12 \<and> w \<le> length data"
proof -
  obtain v h where v: "read_hex (drop 1 data) 2 = HexOk v h"
    using assms by (auto simp: read_percent_def split: hex_read.splits)
  have l: "3 \<le> length data" using read_hex_ok [OF v] assms(2) by (cases data) auto
  show ?thesis
  proof (cases "percent_tail (percent_need v - 1) (percent_need v) (drop 3 data) [char_of v] h")
    case None
    with assms v l show ?thesis by (auto simp: read_percent_def)
  next
    case (Some e)
    with assms v have "e = EscTok r w sp" by (simp add: read_percent_def)
    with Some percent_tail_tok [of "percent_need v - 1" "percent_need v" "drop 3 data" "[char_of v]" h r w sp]
      percent_need_bounds [of v] l show ?thesis by auto
  qed
qed

lemma read_percent_more:
  assumes "read_percent data = EscMore"
  shows "length data < 12"
proof (cases "read_hex (drop 1 data) 2")
  case (HexOk v h)
  with assms have "percent_tail (percent_need v - 1) (percent_need v) (drop 3 data) [char_of v] h = Some EscMore"
    by (auto simp: read_percent_def split: option.splits)
  from percent_tail_more [OF this] percent_need_bounds [of v] show ?thesis by auto
next
  case HexMore
  from read_hex_more [OF this] show ?thesis by simp
next
  case HexBad
  with assms show ?thesis by (simp add: read_percent_def)
qed

lemma read_unit_tok:
  "read_unit data u c = EscTok r w sp \<Longrightarrow> 6 \<le> length data \<Longrightarrow> 1 \<le> w \<and> w \<le> 12 \<and> w \<le> length data"
  by (auto simp: read_unit_def split: if_splits hex_read.splits dest: read_hex_ok)

lemma read_unit_more: "read_unit data u c = EscMore \<Longrightarrow> length data < 12"
  by (auto simp: read_unit_def split: if_splits hex_read.splits)

lemma read_backslash_tok:
  assumes "read_backslash data = EscTok r w sp"
  shows "1 \<le> w \<and> w \<le> 12 \<and> w \<le> length data"
  using assms read_hex_ok [of "drop 2 data" 4] read_hex_ok [of "drop 2 data" 2]
  by (auto simp: read_backslash_def split: if_splits hex_read.splits option.splits
      dest!: read_unit_tok)

lemma read_backslash_more: "read_backslash data = EscMore \<Longrightarrow> length data < 12"
  by (auto simp: read_backslash_def split: if_splits hex_read.splits option.splits
      dest: read_unit_more read_hex_more)

lemma named_loop_tok:
  "named_loop k data name = EscTok r w sp \<Longrightarrow>
    length name + 2 \<le> w \<and> w \<le> length name + length data + 1 \<and> w \<le> length name + k + 1"
  by (induction k data name rule: named_loop.induct) (auto split: if_splits option.splits)

lemma named_loop_more: "named_loop k data name = EscMore \<Longrightarrow> length data < k"
  by (induction k data name rule: named_loop.induct) (auto split: if_splits option.splits)

lemma numeric_loop_tok:
  "numeric_loop base m f digits data i v hc = EscTok r w sp \<Longrightarrow> i \<le> m \<Longrightarrow>
    w \<le> digits + i + length data \<and> digits + 1 \<le> w \<and> w \<le> digits + m + 1"
  by (induction base m f digits data i v hc rule: numeric_loop.induct)
    (fastforce split: if_splits option.splits)+

lemma numeric_loop_more:
  "numeric_loop base m f digits data i v hc = EscMore \<Longrightarrow> i \<le> m \<Longrightarrow> i + length data \<le> m"
  by (induction base m f digits data i v hc rule: numeric_loop.induct)
    (fastforce split: if_splits option.splits)+

lemma read_reference_tok:
  assumes "read_reference data = EscTok r w sp"
  shows "1 \<le> w \<and> w \<le> 12 \<and> w \<le> length data"
  using assms
  by (auto simp: read_reference_def split: if_splits dest!: named_loop_tok numeric_loop_tok)

lemma read_reference_more: "read_reference data = EscMore \<Longrightarrow> length data < 12"
  by (auto simp: read_reference_def split: if_splits dest!: named_loop_more numeric_loop_more)

lemma read_escape_tok:
  "read_escape data = EscTok r w sp \<Longrightarrow> data \<noteq> [] \<Longrightarrow> 1 \<le> w \<and> w \<le> max_token \<and> w \<le> length data"
  by (auto simp: read_escape_def max_token_def split: if_splits
      dest: read_percent_tok read_backslash_tok read_reference_tok)

lemma read_escape_more: "read_escape data = EscMore \<Longrightarrow> length data < max_token"
  by (auto simp: read_escape_def max_token_def split: if_splits
      dest: read_percent_more read_backslash_more read_reference_more)

lemma read_literal_width:
  assumes "read_literal data final = Some (r, w, sp)" and "data \<noteq> []"
  shows "1 \<le> w \<and> w \<le> 4 \<and> w \<le> length data"
proof -
  have "1 \<le> length data" using assms(2) by (cases data) auto
  with assms decode_rune_size_pos [OF assms(2)] decode_rune_size_le [of data] decode_rune_size_le_4 [of data]
  show ?thesis
    by (cases "decode_rune data") (auto simp: read_literal_def split: if_splits)
qed

text \<open>A character takes at least one byte and at most twelve, and never more than there are.\<close>

lemma read_token_width:
  assumes "read_token data escaped final = Some (r, w, sp)" and "data \<noteq> []"
  shows "1 \<le> w \<and> w \<le> max_token \<and> w \<le> length data"
  using assms read_literal_width [of data final r w sp] read_escape_tok [of data r w sp]
  by (auto simp: read_token_def max_token_def split: if_splits escape.splits)

lemma read_token_more:
  assumes "read_token data escaped final = None"
  shows "\<not> final" and "length data < max_token"
  using assms full_rune_long [of data] read_escape_more [of data]
  by (fastforce simp: read_token_def read_literal_def max_token_def not_less
      split: if_splits escape.splits prod.splits)+

lemma read_token_final: "read_token data escaped True \<noteq> None"
  using read_token_more(1) [of data escaped True] by blast

end
