(* ===== verification/Scrub.thy ===== *)
theory Scrub
  imports Scrub_Token
begin

text \<open>
  The matching half of \<^verbatim>\<open>internal/transform/secrets/scrub.go\<close>: needles, the tables that let
  most bytes be passed over, matching one needle, the scan over a text and the streaming
  reader. The code keeps the text and an index; the model passes the rest of the text.

  Case mapping is that of ASCII letters: needles that fold are hex and base32 text.
\<close>

section \<open>Needles and tables\<close>

record scrub_pair =
  pair_needle :: bytes
  pair_repl :: bytes
  pair_fold :: bool

record needle =
  n_runes :: "nat list"
  n_repl :: "nat list"
  n_fold :: bool
  n_literal_escape :: bool

text \<open>
  \<open>sc_pair\<close> is the bit table \<^verbatim>\<open>pair [256][4]uint64\<close>, read as one bit per pair of bytes;
  \<open>sc_ascii\<close> and \<open>sc_other\<close> map a first character to the indices of the needles.
\<close>

record scrubber =
  sc_needles :: "needle list"
  sc_ascii :: "nat \<Rightarrow> nat list"
  sc_other :: "nat \<Rightarrow> nat list"
  sc_start :: "nat \<Rightarrow> bool"
  sc_pair :: "nat \<Rightarrow> nat \<Rightarrow> bool"

definition upper_rune :: "nat \<Rightarrow> nat" where
  "upper_rune r = (if 97 \<le> r \<and> r \<le> 122 then r - 32 else r)"

definition lower_rune :: "nat \<Rightarrow> nat" where
  "lower_rune r = (if 65 \<le> r \<and> r \<le> 90 then r + 32 else r)"

definition is_letter :: "nat \<Rightarrow> bool" where
  "is_letter r \<longleftrightarrow> 65 \<le> r \<and> r \<le> 90 \<or> 97 \<le> r \<and> r \<le> 122"

definition set_pair :: "scrubber \<Rightarrow> nat \<Rightarrow> nat \<Rightarrow> scrubber" where
  "set_pair s b0 b1 = s\<lparr>sc_pair := (sc_pair s)(b0 := (sc_pair s b0)(b1 := True))\<rparr>"

definition set_row :: "scrubber \<Rightarrow> nat \<Rightarrow> scrubber" where
  "set_row s b0 = s\<lparr>sc_pair := (sc_pair s)(b0 := (\<lambda>_. True))\<rparr>"

definition set_start :: "scrubber \<Rightarrow> nat \<Rightarrow> scrubber" where
  "set_start s b = s\<lparr>sc_start := (sc_start s)(b := True)\<rparr>"

definition may_start :: "scrubber \<Rightarrow> bytes \<Rightarrow> bool" where
  "may_start s data =
    (case data of
       [] \<Rightarrow> False
     | [c] \<Rightarrow> sc_start s (byte c)
     | c # c1 # _ \<Rightarrow> sc_pair s (byte c) (byte c1))"

definition empty_scrubber :: scrubber where
  "empty_scrubber =
    fold (\<lambda>b s. set_row (set_start s b) b) [0x25, 0x5C, 0x26]
      \<lparr>sc_needles = [], sc_ascii = (\<lambda>_. []), sc_other = (\<lambda>_. []),
       sc_start = (\<lambda>_. False), sc_pair = (\<lambda>_ _. False)\<rparr>"

definition is_escape_rune :: "nat \<Rightarrow> bool" where
  "is_escape_rune r \<longleftrightarrow> r = 0x25 \<or> r = 0x5C \<or> r = 0x26"

definition needle_of :: "scrub_pair \<Rightarrow> needle" where
  "needle_of p =
    \<lparr>n_runes = decode_runes (pair_needle p), n_repl = decode_runes (pair_repl p),
     n_fold = pair_fold p,
     n_literal_escape = list_ex is_escape_rune (decode_runes (pair_needle p))\<rparr>"

definition needle_heads :: "needle \<Rightarrow> nat list" where
  "needle_heads n =
    (let r = hd (n_runes n) in
     if n_fold n \<and> upper_rune r \<noteq> r then [r, upper_rune r] else [r])"

definition add_head :: "needle \<Rightarrow> nat \<Rightarrow> nat \<Rightarrow> scrubber \<Rightarrow> scrubber" where
  "add_head n index head s =
    (let lead = byte (hd (append_rune [] head));
         s = (if head < rune_self
              then s\<lparr>sc_ascii := (sc_ascii s)(head := sc_ascii s head @ [index])\<rparr>
              else s\<lparr>sc_other := (sc_other s)(head := sc_other s head @ [index])\<rparr>);
         s = set_start s lead
     in if rune_self \<le> head \<or> length (n_runes n) = 1 \<or> rune_self \<le> n_runes n ! 1 then set_row s lead
        else
          fold (\<lambda>b1 s. set_pair s lead b1)
            ([n_runes n ! 1, upper_rune (n_runes n ! 1), 0x25, 0x5C, 0x26] @ [rune_self..<256]) s)"

definition add_needle :: "scrub_pair \<Rightarrow> scrubber \<Rightarrow> scrubber" where
  "add_needle p s =
    (let n = needle_of p in
     if n_runes n = [] then s
     else
       (let index = length (sc_needles s);
            s = s\<lparr>sc_needles := sc_needles s @ [n]\<rparr>
        in fold (add_head n index) (needle_heads n) s))"

definition new_scrubber :: "scrub_pair list \<Rightarrow> scrubber" where
  "new_scrubber pairs = fold add_needle pairs empty_scrubber"

definition starting_with :: "scrubber \<Rightarrow> nat \<Rightarrow> nat list" where
  "starting_with s r = (if r < rune_self then sc_ascii s r else sc_other s r)"

section \<open>Matching one needle\<close>

definition equal_rune :: "nat \<Rightarrow> nat \<Rightarrow> bool \<Rightarrow> bool" where
  "equal_rune got want fd \<longleftrightarrow>
    got = want \<or> (fd \<and> got < rune_self \<and> want < rune_self \<and> lower_rune got = want)"

definition match_token :: "bytes \<Rightarrow> bool \<Rightarrow> bool \<Rightarrow> (nat \<times> nat \<times> spelling) option" where
  "match_token data escaped final =
    (if rune_self \<le> byte (hd data) \<or> is_escape_start (hd data) then read_token data escaped final
     else Some (byte (hd data), 1, literal_spelling))"

definition fold_spelling :: "bool \<Rightarrow> nat \<Rightarrow> nat \<Rightarrow> spelling \<Rightarrow> spelling" where
  "fold_spelling fd r want sp =
    (if fd \<and> r \<noteq> want then sp\<lparr>sp_case := UpperCase\<rparr>
     else if fd \<and> is_letter r then sp\<lparr>sp_case := LowerCase\<rparr>
     else sp)"

datatype match = MatchNone | MatchMore | MatchFound nat "spelling list"

text \<open>
  The loops of \<^verbatim>\<open>matchAt\<close>: the characters still wanted, whether none has matched yet, the
  gap characters skipped before the next one, the text left, the bytes and spellings
  matched so far.
\<close>

function match_from ::
    "bool \<Rightarrow> bool \<Rightarrow> bool \<Rightarrow> nat list \<Rightarrow> bool \<Rightarrow> nat \<Rightarrow> bytes \<Rightarrow> nat \<Rightarrow> spelling list \<Rightarrow> match" where
  "match_from fd escaped final [] first gap data at sps = MatchFound at sps"
| "match_from fd escaped final (want # ws) first gap data at sps =
    (if data = [] then (if final then MatchNone else MatchMore)
     else
       (case match_token data escaped final of
          None \<Rightarrow> MatchMore
        | Some (r, w, sp) \<Rightarrow>
            if equal_rune r want fd then
              match_from fd escaped final ws False 0 (drop w data) (at + w)
                (sps @ [fold_spelling fd r want sp])
            else
              (case (if escaped \<and> 1 < w \<and> sp_form sp \<noteq> FormLiteral then read_token data False True
                     else None) of
                 Some (lr, lw, lsp) \<Rightarrow>
                   if equal_rune lr want fd then
                     match_from fd escaped final ws False 0 (drop lw data) (at + lw) (sps @ [lsp])
                   else if first \<or> max_gap \<le> gap \<or> \<not> is_gap r then MatchNone
                   else match_from fd escaped final (want # ws) False (Suc gap) (drop w data) (at + w) sps
               | None \<Rightarrow>
                   if first \<or> max_gap \<le> gap \<or> \<not> is_gap r then MatchNone
                   else match_from fd escaped final (want # ws) False (Suc gap) (drop w data) (at + w) sps)))"
  by pat_completeness auto
termination
  by (relation "measures [\<lambda>(fd, escaped, final, ws, first, gap, data, at, sps). length ws,
      \<lambda>(fd, escaped, final, ws, first, gap, data, at, sps). max_gap - gap]") auto

declare match_from.simps [simp del]

definition match_at :: "bytes \<Rightarrow> needle \<Rightarrow> bool \<Rightarrow> bool \<Rightarrow> match" where
  "match_at data n escaped final =
    match_from (n_fold n) escaped final (n_runes n) True 0 data 0 []"

section \<open>The replacement\<close>

definition class_of :: "nat \<Rightarrow> nat" where
  "class_of r =
    (if r < rune_self \<and> (is_letter r \<or> 48 \<le> r \<and> r \<le> 57) then 0
     else if r = 0x2D \<or> r = 0x2E \<or> r = 0x5F \<or> r = 0x7E then 1
     else 2)"

definition case_of :: "spelling list \<Rightarrow> form \<Rightarrow> hex_case" where
  "case_of sps f =
    (case find (\<lambda>sp. sp_case sp \<noteq> NoCase \<and> sp_form sp = f) sps of
       Some sp \<Rightarrow> sp_case sp | None \<Rightarrow> NoCase)"

definition repl_spelling :: "nat list \<Rightarrow> spelling list \<Rightarrow> nat \<Rightarrow> spelling" where
  "repl_spelling runes sps r =
    (case map_of (zip runes sps) r of
       Some sp \<Rightarrow> sp
     | None \<Rightarrow>
       (case map_of (zip (map class_of runes) sps) (class_of r) of
          Some sp \<Rightarrow> sp
        | None \<Rightarrow>
          (case map_of (zip (map class_of runes) sps) 0 of Some sp \<Rightarrow> sp | None \<Rightarrow> hd sps)))"

definition encode_repl :: "needle \<Rightarrow> spelling list \<Rightarrow> bytes" where
  "encode_repl n sps =
    fold (\<lambda>r dst.
        let sp = repl_spelling (n_runes n) sps r;
            hexCase = case_of sps (sp_form sp);
            r = (if n_fold n \<and> hexCase = UpperCase then upper_rune r else r)
        in spell dst r (sp_form sp) hexCase)
      (n_repl n) []"

text \<open>Evaluation waits for the spellings to be known.\<close>

lemma encode_repl_code [code]:
  "encode_repl n [] = fold (\<lambda>r dst.
        let sp = repl_spelling (n_runes n) [] r;
            r = (if n_fold n \<and> case_of [] (sp_form sp) = UpperCase then upper_rune r else r)
        in spell dst r (sp_form sp) (case_of [] (sp_form sp))) (n_repl n) []"
  "encode_repl n (p # ps) = fold (\<lambda>r dst.
        let sp = repl_spelling (n_runes n) (p # ps) r;
            r = (if n_fold n \<and> case_of (p # ps) (sp_form sp) = UpperCase then upper_rune r else r)
        in spell dst r (sp_form sp) (case_of (p # ps) (sp_form sp))) (n_repl n) []"
  by (simp_all add: encode_repl_def Let_def)

section \<open>The scan\<close>

text \<open>The best match so far: its length, needle and spellings.\<close>

type_synonym best = "(nat \<times> nat \<times> spelling list) option"

definition next_plain :: "bytes \<Rightarrow> nat" where
  "next_plain rest =
    (case rest of
       [] \<Rightarrow> 0
     | d # _ \<Rightarrow> if byte d < rune_self \<and> \<not> is_escape_start d then byte d else 0)"

definition consider_needle ::
    "scrubber \<Rightarrow> bool \<Rightarrow> bytes \<Rightarrow> bool \<Rightarrow> nat \<Rightarrow> nat \<Rightarrow> bool \<times> best \<Rightarrow> bool \<times> best" where
  "consider_needle s final data escaped nxt index st =
    (let (mr, best) = st; n = sc_needles s ! index in
     if (\<not> escaped \<and> \<not> n_literal_escape n)
        \<or> (nxt \<noteq> 0 \<and> 1 < length (n_runes n) \<and> \<not> equal_rune nxt (n_runes n ! 1) (n_fold n))
     then (mr, best)
     else
       (case match_at data n escaped final of
          MatchMore \<Rightarrow> (True, best)
        | MatchNone \<Rightarrow> (mr, best)
        | MatchFound end sps \<Rightarrow>
            (mr, case best of
                     None \<Rightarrow> Some (end, index, sps)
                   | Some (bestEnd, _, _) \<Rightarrow> if bestEnd < end then Some (end, index, sps) else best)))"

definition try_pass :: "scrubber \<Rightarrow> bool \<Rightarrow> bytes \<Rightarrow> bool \<Rightarrow> bool \<times> best \<Rightarrow> bool \<times> best" where
  "try_pass s final data escaped st =
    (case match_token data escaped final of
       None \<Rightarrow> (True, snd st)
     | Some (r, w, _) \<Rightarrow>
         fold (consider_needle s final data escaped (next_plain (drop w data))) (starting_with s r) st)"

definition try_at :: "scrubber \<Rightarrow> bool \<Rightarrow> bytes \<Rightarrow> bool \<times> best" where
  "try_at s final data =
    (let st = try_pass s final data True (False, None) in
     if is_escape_start (hd data) \<and> snd st = None then try_pass s final data False st else st)"

text \<open>
  What is written and the number of trailing bytes held back. A needle is never empty, so a
  match is never empty either: the test for that only serves the termination proof.
\<close>

function scan :: "scrubber \<Rightarrow> bool \<Rightarrow> bytes \<Rightarrow> bytes \<times> nat" where
  "scan s final [] = ([], 0)"
| "scan s final (c # cs) =
    (if \<not> may_start s (c # cs) then (let (out, held) = scan s final cs in (c # out, held))
     else
       (case try_at s final (c # cs) of
          (True, _) \<Rightarrow> ([], Suc (length cs))
        | (False, None) \<Rightarrow> (let (out, held) = scan s final cs in (c # out, held))
        | (False, Some (end, index, sps)) \<Rightarrow>
            if end = 0 then ([], Suc (length cs))
            else
              (let (out, held) = scan s final (drop end (c # cs)) in
               (encode_repl (sc_needles s ! index) sps @ out, held))))"
  by pat_completeness auto
termination
  by (relation "measure (\<lambda>(s, final, data). length data)") auto

declare scan.simps(2) [simp del]

definition scrub_text :: "scrubber \<Rightarrow> string \<Rightarrow> string" where
  "scrub_text s v = fst (scan s True v)"

section \<open>Streaming\<close>

text \<open>
  The source of a \<^verbatim>\<open>scrubReader\<close> is the list of its successful reads and the bytes that come
  with the final error. \<open>sr_done\<close> is set once that error has been seen.
\<close>

record scrub_reader =
  sr_chunks :: "bytes list"
  sr_last :: bytes
  sr_pending :: bytes
  sr_ready :: bytes
  sr_done :: bool

definition new_scrub_reader :: "bytes list \<Rightarrow> bytes \<Rightarrow> scrub_reader" where
  "new_scrub_reader chunks lst =
    \<lparr>sr_chunks = chunks, sr_last = lst, sr_pending = [], sr_ready = [], sr_done = False\<rparr>"

definition held_tail :: "bytes \<Rightarrow> nat \<Rightarrow> bytes" where
  "held_tail pending held = drop (length pending - held) pending"

text \<open>The loop of \<^verbatim>\<open>Read\<close> until something is ready or the source ended.\<close>

fun scrub_fill :: "scrubber \<Rightarrow> bytes list \<Rightarrow> bytes \<Rightarrow> bytes \<Rightarrow> scrub_reader" where
  "scrub_fill s [] lst pending =
    (let (out, held) = scan s True (pending @ lst) in
     \<lparr>sr_chunks = [], sr_last = [], sr_pending = held_tail (pending @ lst) held,
      sr_ready = out, sr_done = True\<rparr>)"
| "scrub_fill s (chunk # chunks) lst pending =
    (let (out, held) = scan s False (pending @ chunk); tail = held_tail (pending @ chunk) held in
     if out = [] then scrub_fill s chunks lst tail
     else \<lparr>sr_chunks = chunks, sr_last = lst, sr_pending = tail, sr_ready = out, sr_done = False\<rparr>)"

text \<open>\<^const>\<open>None\<close> is a read that returns no bytes and the source's error.\<close>

definition scrub_read :: "scrubber \<Rightarrow> nat \<Rightarrow> scrub_reader \<Rightarrow> scrub_reader \<times> bytes option" where
  "scrub_read s n r =
    (let r = (if sr_ready r = [] \<and> \<not> sr_done r
              then scrub_fill s (sr_chunks r) (sr_last r) (sr_pending r) else r) in
     if sr_ready r = [] then (r, None)
     else (r\<lparr>sr_ready := drop n (sr_ready r)\<rparr>, Some (take n (sr_ready r))))"

end
