(* ===== verification/Scrub_Match.thy ===== *)
theory Scrub_Match
  imports Scrub
begin

text \<open>
  Matching one needle: a decision taken on a part of a stream stays the same when more
  bytes arrive, a complete text is always decided, and a match that waits for more bytes
  waits for a bounded number of them.
\<close>

section \<open>Matching under more input\<close>

lemma read_token_escape_form:
  "read_token data e f = Some (r, w, sp) \<Longrightarrow> sp_form sp \<noteq> FormLiteral \<Longrightarrow> is_escape_start (hd data)"
  by (auto simp: read_token_def read_literal_def read_escape_def is_escape_start_def
      literal_spelling_def split: if_splits escape.splits prod.splits)

lemma is_escape_start_ascii: "is_escape_start c \<Longrightarrow> byte c < rune_self"
  by (auto simp: is_escape_start_def rune_self_def)

lemma read_token_ascii:
  assumes "data \<noteq> []" and "byte (hd data) < rune_self"
  shows "read_token data False f = Some (byte (hd data), 1, literal_spelling)"
  using assms
  by (cases data) (auto simp: read_token_def read_literal_def rune_error_def rune_self_def)

lemma match_token_stable:
  assumes "match_token data e False = Some t" and "data \<noteq> []"
  shows "match_token (data @ ext) e f = Some t"
  using assms by (auto simp: match_token_def read_token_stable split: if_splits)

lemma match_token_width:
  assumes "match_token data e f = Some (r, w, sp)" and "data \<noteq> []"
  shows "1 \<le> w \<and> w \<le> max_token \<and> w \<le> length data"
  using assms read_token_width [of data e f r w sp]
  by (cases data) (auto simp: match_token_def max_token_def split: if_splits)

lemma match_token_more:
  assumes "match_token data e f = None"
  shows "\<not> f" "length data < max_token"
  using assms read_token_more [of data e f] by (auto simp: match_token_def split: if_splits)

lemma match_token_final: "match_token data e True \<noteq> None"
  using match_token_more(1) [of data e True] by blast

lemma match_token_escape_form:
  "match_token data e f = Some (r, w, sp) \<Longrightarrow> sp_form sp \<noteq> FormLiteral \<Longrightarrow> is_escape_start (hd data)"
  by (auto simp: match_token_def literal_spelling_def split: if_splits dest: read_token_escape_form)

text \<open>The fallback reading inside a match: the escape byte as itself.\<close>

definition fallback :: "bool \<Rightarrow> nat \<Rightarrow> spelling \<Rightarrow> bytes \<Rightarrow> nat \<Rightarrow> bool \<Rightarrow> bool" where
  "fallback escaped w sp data want fd \<longleftrightarrow>
    escaped \<and> 1 < w \<and> sp_form sp \<noteq> FormLiteral \<and> equal_rune (byte (hd data)) want fd"

lemma match_from_Cons:
  assumes "data \<noteq> []" and t: "match_token data escaped final = Some (r, w, sp)"
  shows "match_from fd escaped final (want # ws) first gap data at sps =
    (if equal_rune r want fd then
       match_from fd escaped final ws False 0 (drop w data) (at + w) (sps @ [fold_spelling fd r want sp])
     else if fallback escaped w sp data want fd then
       match_from fd escaped final ws False 0 (drop 1 data) (at + 1) (sps @ [literal_spelling])
     else if first \<or> max_gap \<le> gap \<or> \<not> is_gap r then MatchNone
     else match_from fd escaped final (want # ws) False (Suc gap) (drop w data) (at + w) sps)"
proof (cases "escaped \<and> 1 < w \<and> sp_form sp \<noteq> FormLiteral")
  case True
  then have "read_token data False True = Some (byte (hd data), 1, literal_spelling)"
    using read_token_ascii [of data True] assms match_token_escape_form [OF t] is_escape_start_ascii by blast
  with True assms show ?thesis by (subst match_from.simps) (simp add: fallback_def)
next
  case False
  with assms show ?thesis by (subst match_from.simps) (auto simp: fallback_def)
qed

lemma match_from_Nil [simp]: "match_from fd e f [] first gap data at sps = MatchFound at sps"
  by (simp add: match_from.simps)

lemma match_from_empty [simp]:
  "match_from fd e f (want # ws) first gap [] at sps = (if f then MatchNone else MatchMore)"
  by (simp add: match_from.simps)

lemma match_from_token_more:
  "data \<noteq> [] \<Longrightarrow> match_token data e f = None \<Longrightarrow>
    match_from fd e f (want # ws) first gap data at sps = MatchMore"
  by (simp add: match_from.simps)

text \<open>Induction along a match: over the characters wanted, then the gaps left.\<close>

lemma match_from_induct [case_names Nil empty more step]:
  fixes P :: "nat list \<Rightarrow> bool \<Rightarrow> nat \<Rightarrow> bytes \<Rightarrow> nat \<Rightarrow> spelling list \<Rightarrow> bool"
  assumes nil: "\<And>first gap data at sps. P [] first gap data at sps"
    and empty: "\<And>want ws first gap at sps. P (want # ws) first gap [] at sps"
    and more: "\<And>want ws first gap data at sps.
      \<lbrakk>data \<noteq> []; match_token data e f = None\<rbrakk> \<Longrightarrow> P (want # ws) first gap data at sps"
    and step: "\<And>want ws first gap data at sps r w sp.
      \<lbrakk>data \<noteq> []; match_token data e f = Some (r, w, sp);
       \<And>d a s. P ws False 0 d a s;
       \<not> max_gap \<le> gap \<Longrightarrow> P (want # ws) False (Suc gap) (drop w data) (at + w) sps\<rbrakk>
      \<Longrightarrow> P (want # ws) first gap data at sps"
  shows "P ws first gap data at sps"
proof (induction ws arbitrary: first gap data at sps)
  case Nil
  show ?case by (rule nil)
next
  case (Cons want ws)
  have "max_gap - gap = k \<Longrightarrow> P (want # ws) first gap data at sps" for k first gap data at sps
  proof (induction k arbitrary: first gap data at sps rule: less_induct)
    case (less k first gap data at sps)
    show ?case
    proof (cases "data = []")
      case True
      then show ?thesis by (simp add: empty)
    next
      case False
      show ?thesis
      proof (cases "match_token data e f")
        case None
        with False show ?thesis by (rule more)
      next
        case (Some t)
        obtain r w sp where t: "t = (r, w, sp)" by (metis prod_cases3)
        show ?thesis
        proof (rule step [OF False Some [unfolded t] Cons.IH])
          assume "\<not> max_gap \<le> gap"
          with less.prems have "max_gap - Suc gap < k" by simp
          from less.IH [OF this refl] show "P (want # ws) False (Suc gap) (drop w data) (at + w) sps" .
        qed
      qed
    qed
  qed
  then show ?case by simp
qed

lemma match_from_stable:
  assumes "match_from fd e False ws first gap data at sps \<noteq> MatchMore"
  shows "match_from fd e f ws first gap (data @ ext) at sps = match_from fd e False ws first gap data at sps"
  using assms
proof (induction ws first gap data at sps rule: match_from_induct [where e = e and f = False])
  case (step want ws first gap data at sps r w sp)
  note t = match_token_stable [OF step(2,1)]
  have w: "w \<le> length data" "1 \<le> length data" using match_token_width [OF step(2,1)] by auto
  then have d: "w - length data = 0" "1 - length data = 0" "Suc 0 - length data = 0" by auto
  have fb: "fallback e w sp (data @ ext) want fd = fallback e w sp data want fd"
    using step(1) by (simp add: fallback_def)
  have "data @ ext \<noteq> []" using step(1) by simp
  from match_from_Cons [OF this t, where fd = fd and want = want and ws = ws and first = first
      and gap = gap and at = at and sps = sps] step.prems
    step(3) [of "drop w data"] step(3) [of "drop 1 data"] step(4) d
  show ?case
    unfolding match_from_Cons [OF step(1,2)] fb by (auto split: if_splits)
qed (auto simp: match_from_token_more)

lemma match_from_final: "match_from fd e True ws first gap data at sps \<noteq> MatchMore"
proof (induction ws first gap data at sps rule: match_from_induct [where e = e and f = True])
  case (step want ws first gap data at sps r w sp)
  then show ?case unfolding match_from_Cons [OF step(1,2)] by (simp split: if_splits)
qed (auto simp: match_token_final)

lemma match_from_end:
  "match_from fd e f ws first gap data at sps = MatchFound at' sps' \<Longrightarrow>
    at + length ws \<le> at' \<and> at' \<le> at + length data \<and> length sps' = length sps + length ws"
proof (induction ws first gap data at sps rule: match_from_induct [where e = e and f = f])
  case (step want ws first gap data at sps r w sp)
  have w: "1 \<le> w" "w \<le> length data" using match_token_width [OF step(2,1)] by auto
  show ?case
    using step.prems w step(3) [of "drop w data"  "at + w"] step(3) [of "drop 1 data" "at + 1"] step(4)
    unfolding match_from_Cons [OF step(1,2)]
    by (force split: if_splits)
qed (auto simp: match_from_token_more split: if_splits)

text \<open>The bytes a match may still need are bounded by the characters and gaps it may hold.\<close>

lemma match_from_held:
  "match_from fd e f ws first gap data at sps = MatchMore \<Longrightarrow> gap \<le> max_gap \<Longrightarrow>
    length data < max_token * length ws + max_gap * max_token * (length ws - 1)
      + (if first then 0 else max_token * (max_gap - gap))"
proof (induction ws first gap data at sps rule: match_from_induct [where e = e and f = f])
  case (empty want ws first gap at sps)
  then show ?case by (simp add: max_token_def)
next
  case (more want ws first gap data at sps)
  then show ?case using match_token_more(2) [OF more(2)] by simp
next
  case (step want ws first gap data at sps r w sp)
  have w: "1 \<le> w" "w \<le> max_token" using match_token_width [OF step(2,1)] by auto
  show ?case
    using step.prems w step(4)
      step(3) [of "drop w data" "at + w" "sps @ [fold_spelling fd r want sp]"]
      step(3) [of "drop 1 data" "at + 1" "sps @ [literal_spelling]"]
    unfolding match_from_Cons [OF step(1,2)]
    by (cases ws) (auto simp: max_token_def max_gap_def split: if_splits)
qed simp

end
