(* ===== verification/Scrub_Tables.thy ===== *)
theory Scrub_Tables
  imports Scrub
begin

text \<open>
  The tables of a scrubber built by \<^const>\<open>new_scrubber\<close>: which needles start with a character,
  and which pairs of bytes the scan does not pass over.
\<close>

section \<open>The tables\<close>

definition head_lead :: "nat \<Rightarrow> nat" where
  "head_lead head = byte (hd (append_rune [] head))"

definition row_head :: "needle \<Rightarrow> nat \<Rightarrow> bool" where
  "row_head n head \<longleftrightarrow>
    rune_self \<le> head \<or> length (n_runes n) = 1 \<or> rune_self \<le> n_runes n ! 1"

definition second_bytes :: "needle \<Rightarrow> nat list" where
  "second_bytes n =
    [n_runes n ! 1, upper_rune (n_runes n ! 1), 0x25, 0x5C, 0x26] @ [rune_self..<256]"

text \<open>The tables let through every pair of bytes a match of the needle can begin with.\<close>

definition table_covers :: "scrubber \<Rightarrow> needle \<Rightarrow> bool" where
  "table_covers s n \<longleftrightarrow> (\<forall>h \<in> set (needle_heads n). sc_start s (head_lead h)
    \<and> (\<forall>b. row_head n h \<or> b \<in> set (second_bytes n) \<longrightarrow> sc_pair s (head_lead h) b))"

definition starts_needle :: "nat \<Rightarrow> needle \<Rightarrow> bool" where
  "starts_needle r n \<longleftrightarrow> equal_rune r (hd (n_runes n)) (n_fold n)"

definition scrubber_inv :: "scrubber \<Rightarrow> bool" where
  "scrubber_inv s \<longleftrightarrow>
    (\<forall>n \<in> set (sc_needles s). n_runes n \<noteq> [] \<and> table_covers s n)
    \<and> (\<forall>r. starting_with s r =
          filter (\<lambda>i. starts_needle r (sc_needles s ! i)) [0..<length (sc_needles s)])
    \<and> (\<forall>a b. sc_pair s a b \<longrightarrow> sc_start s a)
    \<and> (\<forall>a \<in> {0x25, 0x5C, 0x26}. sc_start s a \<and> (\<forall>b. sc_pair s a b))"

lemma table_simps [simp]:
  "sc_needles (set_pair s a b) = sc_needles s" "sc_needles (set_row s a) = sc_needles s"
  "sc_needles (set_start s a) = sc_needles s"
  "starting_with (set_pair s a b) r = starting_with s r"
  "starting_with (set_row s a) r = starting_with s r"
  "starting_with (set_start s a) r = starting_with s r"
  "sc_start (set_pair s a b) x = sc_start s x" "sc_start (set_row s a) x = sc_start s x"
  "sc_start (set_start s a) x = (x = a \<or> sc_start s x)"
  "sc_pair (set_pair s a b) x y = (x = a \<and> y = b \<or> sc_pair s x y)"
  "sc_pair (set_row s a) x y = (x = a \<or> sc_pair s x y)"
  "sc_pair (set_start s a) x y = sc_pair s x y"
  by (auto simp: set_pair_def set_row_def set_start_def starting_with_def)

lemma fold_set_pair [simp]:
  "sc_needles (fold (\<lambda>b s. set_pair s a b) bs s) = sc_needles s"
  "starting_with (fold (\<lambda>b s. set_pair s a b) bs s) r = starting_with s r"
  "sc_start (fold (\<lambda>b s. set_pair s a b) bs s) x = sc_start s x"
  "sc_pair (fold (\<lambda>b s. set_pair s a b) bs s) x y = (x = a \<and> y \<in> set bs \<or> sc_pair s x y)"
  by (induction bs arbitrary: s) auto

lemma starting_with_update:
  "h < rune_self \<Longrightarrow>
    starting_with (s\<lparr>sc_ascii := (sc_ascii s)(h := sc_ascii s h @ [i])\<rparr>) r =
      starting_with s r @ (if r = h then [i] else [])"
  "\<not> h < rune_self \<Longrightarrow>
    starting_with (s\<lparr>sc_other := (sc_other s)(h := sc_other s h @ [i])\<rparr>) r =
      starting_with s r @ (if r = h then [i] else [])"
  by (simp_all add: starting_with_def)

lemma add_head_simps [simp]:
  "sc_needles (add_head n i h s) = sc_needles s"
  "starting_with (add_head n i h s) r = starting_with s r @ (if r = h then [i] else [])"
  "sc_start (add_head n i h s) x = (x = head_lead h \<or> sc_start s x)"
  "sc_pair (add_head n i h s) x y =
    (x = head_lead h \<and> (row_head n h \<or> y \<in> set (second_bytes n)) \<or> sc_pair s x y)"
  unfolding add_head_def Let_def head_lead_def [symmetric] row_head_def [symmetric]
    second_bytes_def [symmetric]
  by (auto simp: starting_with_update)

lemma add_heads_simps:
  "sc_needles (fold (add_head n i) hs s) = sc_needles s"
  "distinct hs \<Longrightarrow>
    starting_with (fold (add_head n i) hs s) r = starting_with s r @ (if r \<in> set hs then [i] else [])"
  "sc_start (fold (add_head n i) hs s) x = (x \<in> head_lead ` set hs \<or> sc_start s x)"
  "sc_pair (fold (add_head n i) hs s) x y =
    ((\<exists>h \<in> set hs. x = head_lead h \<and> (row_head n h \<or> y \<in> set (second_bytes n))) \<or> sc_pair s x y)"
  by (induction hs arbitrary: s) auto

lemma needle_heads_distinct [simp]: "distinct (needle_heads n)"
  by (simp add: needle_heads_def Let_def)

lemma needle_heads_starts: "r \<in> set (needle_heads n) \<longleftrightarrow> starts_needle r n"
  by (auto simp: needle_heads_def Let_def starts_needle_def equal_rune_def upper_rune_def
      lower_rune_def rune_self_def split: if_splits)

lemma scrubber_inv_empty: "scrubber_inv empty_scrubber"
  by (auto simp: scrubber_inv_def empty_scrubber_def starting_with_def set_row_def set_start_def)

lemma scrubber_inv_add: 
  assumes "scrubber_inv s"
  shows "scrubber_inv (add_needle p s)"
proof (cases "n_runes (needle_of p) = []")
  case True
  with assms show ?thesis by (simp add: add_needle_def Let_def)
next
  case False
  define n where "n = needle_of p"
  define t where "t = s\<lparr>sc_needles := sc_needles s @ [n]\<rparr>"
  define u where "u = fold (add_head n (length (sc_needles s))) (needle_heads n) t"
  have u: "add_needle p s = u" using False by (simp add: add_needle_def Let_def u_def t_def n_def)
  note simps = u_def add_heads_simps
  have needles: "sc_needles u = sc_needles s @ [n]" by (simp add: simps t_def)
  have start: "starting_with u r = starting_with s r @ (if starts_needle r n then [length (sc_needles s)] else [])" for r
    by (simp add: simps needle_heads_starts) (simp add: t_def starting_with_def)
  have filt: "filter (\<lambda>i. starts_needle r ((sc_needles s @ [n]) ! i)) [0..<length (sc_needles s)] =
      filter (\<lambda>i. starts_needle r (sc_needles s ! i)) [0..<length (sc_needles s)]" for r
    by (rule filter_cong) (auto simp: nth_append)
  have old: "sc_start s x \<Longrightarrow> sc_start u x" "sc_pair s x y \<Longrightarrow> sc_pair u x y" for x y
    by (auto simp: simps t_def)
  have n_cov: "table_covers u n" by (auto simp: table_covers_def simps)
  have cov: "table_covers u m" if "table_covers s m" for m
    using that old by (auto simp: table_covers_def)
  have "sc_start u a" if "sc_pair u a b" for a b
    using that assms by (auto simp: simps t_def scrubber_inv_def)
  with assms False n_cov cov old show ?thesis
    unfolding u scrubber_inv_def needles start by (auto simp: filt [unfolded n_def] n_def)
qed

lemma scrubber_inv_fold: "scrubber_inv s \<Longrightarrow> scrubber_inv (fold add_needle pairs s)"
  by (induction pairs arbitrary: s) (auto simp: scrubber_inv_add)

lemma scrubber_inv_new: "scrubber_inv (new_scrubber pairs)"
  by (simp add: new_scrubber_def scrubber_inv_fold scrubber_inv_empty)

lemma new_scrubber_needles:
  "sc_needles (new_scrubber pairs) = filter (\<lambda>n. n_runes n \<noteq> []) (map needle_of pairs)"
proof -
  have "sc_needles (fold add_needle pairs s) = sc_needles s @ filter (\<lambda>n. n_runes n \<noteq> []) (map needle_of pairs)" for s
    by (induction pairs arbitrary: s) (auto simp: add_needle_def Let_def add_heads_simps)
  then show ?thesis by (simp add: new_scrubber_def empty_scrubber_def set_row_def set_start_def)
qed

end
