(* ===== verification/Scrub_Stream.thy ===== *)
theory Scrub_Stream
  imports Scrub_Match Scrub_Tables
begin

text \<open>
  The scan and the streaming reader. The shortcuts of the scan (the byte tables and the test
  of the next byte) never lose a match; what the scan decides on a part of a stream it
  decides on the whole, so a \<^verbatim>\<open>scrubReader\<close> delivers the scrubbed text whatever the sizes of
  the reads, and holds back a bounded number of bytes.
\<close>

section \<open>Trying the needles at one position\<close>

definition candidate :: "scrubber \<Rightarrow> bytes \<Rightarrow> bool \<Rightarrow> bool \<Rightarrow> nat \<Rightarrow> match" where
  "candidate s data escaped final i =
    (if \<not> escaped \<and> \<not> n_literal_escape (sc_needles s ! i) then MatchNone
     else match_at data (sc_needles s ! i) escaped final)"

definition merge :: "nat \<Rightarrow> match \<Rightarrow> bool \<times> best \<Rightarrow> bool \<times> best" where
  "merge i m st =
    (case m of
       MatchMore \<Rightarrow> (True, snd st)
     | MatchNone \<Rightarrow> st
     | MatchFound e sps \<Rightarrow>
         (fst st, case snd st of
                    None \<Rightarrow> Some (e, i, sps)
                  | Some (b, _, _) \<Rightarrow> if b < e then Some (e, i, sps) else snd st))"

lemma is_gap_ascii: "r < rune_self \<Longrightarrow> \<not> is_gap r"
  by (simp add: is_gap_def rune_self_def)

text \<open>The next byte, when it is plain, already refutes a needle whose second character it is not.\<close>

lemma match_at_next:
  assumes ne: "data \<noteq> []" and t: "match_token data e f = Some (r, w, sp)"
    and r: "starts_needle r n" and len: "1 < length (n_runes n)"
    and nx: "next_plain (drop w data) \<noteq> 0"
    and no: "\<not> equal_rune (next_plain (drop w data)) (n_runes n ! 1) (n_fold n)"
  shows "match_at data n e f = MatchNone"
proof -
  obtain a b ws where runes: "n_runes n = a # b # ws"
    using len by (cases "n_runes n"; cases "tl (n_runes n)") auto
  from nx obtain d ds where d: "drop w data = d # ds" "byte d < rune_self" "\<not> is_escape_start d"
      "next_plain (drop w data) = byte d"
    by (cases "drop w data") (auto simp: next_plain_def split: if_splits)
  have t2: "match_token (drop w data) e f = Some (byte d, 1, literal_spelling)"
    using d by (simp add: match_token_def)
  have "match_from (n_fold n) e f (b # ws) False 0 (drop w data) w [fold_spelling (n_fold n) r a sp] = MatchNone"
    unfolding match_from_Cons [OF _ t2, unfolded d(1), simplified] d(1)
    using no d runes is_gap_ascii [OF d(2)] by (simp add: fallback_def)
  then show ?thesis
    using r runes by (simp add: match_at_def match_from_Cons [OF ne t] starts_needle_def)
qed

lemma consider_needle_merge:
  assumes "data \<noteq> []" "match_token data e f = Some (r, w, sp)" "starts_needle r (sc_needles s ! i)"
  shows "consider_needle s f data e (next_plain (drop w data)) i st = merge i (candidate s data e f i) st"
proof (cases "next_plain (drop w data) \<noteq> 0 \<and> 1 < length (n_runes (sc_needles s ! i))
    \<and> \<not> equal_rune (next_plain (drop w data)) (n_runes (sc_needles s ! i) ! 1) (n_fold (sc_needles s ! i))")
  case True
  with match_at_next [OF assms] show ?thesis
    by (cases st) (auto simp: consider_needle_def candidate_def merge_def)
next
  case False
  obtain m b where st: "st = (m, b)" by (cases st)
  from False show ?thesis
    by (cases "match_at data (sc_needles s ! i) e f"; cases b)
      (auto simp: st consider_needle_def candidate_def merge_def Let_def)
qed

lemma starting_withD:
  assumes "scrubber_inv s" and "i \<in> set (starting_with s r)"
  shows "i < length (sc_needles s)" "starts_needle r (sc_needles s ! i)" "n_runes (sc_needles s ! i) \<noteq> []"
  using assms by (auto simp: scrubber_inv_def)

lemma try_pass_merge:
  assumes "scrubber_inv s" "data \<noteq> []"
  shows "try_pass s f data e st =
    (case match_token data e f of
       None \<Rightarrow> (True, snd st)
     | Some (r, w, sp) \<Rightarrow> fold (\<lambda>i. merge i (candidate s data e f i)) (starting_with s r) st)"
proof (cases "match_token data e f")
  case (Some t)
  obtain r w sp where t: "t = (r, w, sp)" by (metis prod_cases3)
  have "fold (consider_needle s f data e (next_plain (drop w data))) (starting_with s r) st =
      fold (\<lambda>i. merge i (candidate s data e f i)) (starting_with s r) st"
    by (rule fold_cong)
      (auto intro!: ext consider_needle_merge [OF assms(2) Some [unfolded t]] dest: starting_withD(2) [OF assms(1)])
  with Some t show ?thesis by (simp add: try_pass_def)
qed (simp add: try_pass_def)

lemma fold_merge_more:
  "fst (fold (\<lambda>i. merge i (c i)) is st) \<longleftrightarrow> fst st \<or> (\<exists>i \<in> set is. c i = MatchMore)"
  by (induction "is" arbitrary: st) (auto simp: merge_def split: match.splits)

lemma fold_merge_found:
  "snd (fold (\<lambda>i. merge i (c i)) is st) = Some (e, i, sps) \<Longrightarrow>
    snd st = Some (e, i, sps) \<or> i \<in> set is \<and> c i = MatchFound e sps"
proof (induction "is" arbitrary: st)
  case (Cons j js)
  from Cons.prems have "snd (fold (\<lambda>i. merge i (c i)) js (merge j (c j) st)) = Some (e, i, sps)" by simp
  from Cons.IH [OF this] show ?case
    by (auto simp: merge_def split: match.splits option.splits if_splits)
qed simp

lemma try_pass_stable:
  assumes inv: "scrubber_inv s" and ne: "data \<noteq> []" and no: "\<not> fst (try_pass s False data e st)"
  shows "try_pass s f (data @ ext) e st = try_pass s False data e st" and "\<not> fst st"
proof -
  obtain r w sp where t: "match_token data e False = Some (r, w, sp)"
    using no by (cases "match_token data e False") (auto simp: try_pass_merge [OF inv ne])
  have c: "candidate s data e False i \<noteq> MatchMore" if "i \<in> set (starting_with s r)" for i
    using no that by (auto simp: try_pass_merge [OF inv ne] t fold_merge_more)
  have "candidate s (data @ ext) e f i = candidate s data e False i" if "i \<in> set (starting_with s r)" for i
    using c [OF that] match_from_stable by (auto simp: candidate_def match_at_def split: if_splits)
  then have "fold (\<lambda>i. merge i (candidate s (data @ ext) e f i)) (starting_with s r) st =
      fold (\<lambda>i. merge i (candidate s data e False i)) (starting_with s r) st"
    by (intro fold_cong) auto
  then show "try_pass s f (data @ ext) e st = try_pass s False data e st"
    using ne match_token_stable [OF t ne, of ext f] by (simp add: try_pass_merge [OF inv] t)
  show "\<not> fst st" using no by (auto simp: try_pass_merge [OF inv ne] t fold_merge_more)
qed

lemma try_at_stable:
  assumes inv: "scrubber_inv s" and ne: "data \<noteq> []" and no: "\<not> fst (try_at s False data)"
  shows "try_at s f (data @ ext) = try_at s False data"
proof (cases "is_escape_start (hd data) \<and> snd (try_pass s False data True (False, None)) = None")
  case True
  with no have n2: "\<not> fst (try_pass s False data False (try_pass s False data True (False, None)))"
    by (simp add: try_at_def)
  from try_pass_stable [OF inv ne n2] have n1: "\<not> fst (try_pass s False data True (False, None))" by simp
  show ?thesis
    using True ne try_pass_stable(1) [OF inv ne n1, of f ext] try_pass_stable(1) [OF inv ne n2, of f ext]
    by (simp add: try_at_def)
next
  case False
  then have e: "try_at s False data = try_pass s False data True (False, None)"
    by (auto simp: try_at_def)
  with no try_pass_stable(1) [OF inv ne, of True "(False, None)" f ext] False ne show ?thesis
    by (auto simp: try_at_def Let_def)
qed

lemma candidate_final: "candidate s data e True i \<noteq> MatchMore"
  using match_from_final by (simp add: candidate_def match_at_def)

lemma try_pass_final:
  assumes "scrubber_inv s" "data \<noteq> []" "\<not> fst st"
  shows "\<not> fst (try_pass s True data e st)"
proof -
  obtain r w sp where "match_token data e True = Some (r, w, sp)"
    using match_token_final [of data e] by (metis not_None_eq prod_cases3)
  with assms(3) show ?thesis
    by (simp add: try_pass_merge [OF assms(1,2)] fold_merge_more candidate_final)
qed

lemma try_at_final: "scrubber_inv s \<Longrightarrow> data \<noteq> [] \<Longrightarrow> \<not> fst (try_at s True data)"
  by (simp add: try_at_def Let_def try_pass_final)

text \<open>A match at a position comes from a needle that starts with the character read there.\<close>

lemma try_pass_found:
  assumes inv: "scrubber_inv s" and ne: "data \<noteq> []"
    and found: "snd (try_pass s f data e st) = Some (en, i, sps)" and none: "snd st = None"
  obtains r w sp where "match_token data e f = Some (r, w, sp)" "i \<in> set (starting_with s r)"
    "match_at data (sc_needles s ! i) e f = MatchFound en sps" "e \<or> n_literal_escape (sc_needles s ! i)"
proof -
  obtain r w sp where t: "match_token data e f = Some (r, w, sp)"
    using found none by (cases "match_token data e f") (auto simp: try_pass_merge [OF inv ne])
  have "snd (fold (\<lambda>i. merge i (candidate s data e f i)) (starting_with s r) st) = Some (en, i, sps)"
    using found by (simp add: try_pass_merge [OF inv ne] t)
  from fold_merge_found [OF this] none
  have "i \<in> set (starting_with s r)" "candidate s data e f i = MatchFound en sps" by auto
  then show thesis using that [OF t] by (auto simp: candidate_def split: if_splits)
qed

lemma try_at_found:
  assumes inv: "scrubber_inv s" and ne: "data \<noteq> []" and "snd (try_at s f data) = Some (en, i, sps)"
  obtains e r w sp where "match_token data e f = Some (r, w, sp)" "i \<in> set (starting_with s r)"
    "match_at data (sc_needles s ! i) e f = MatchFound en sps" "e \<or> n_literal_escape (sc_needles s ! i)"
proof (cases "is_escape_start (hd data) \<and> snd (try_pass s f data True (False, None)) = None")
  case True
  with assms(3) have "snd (try_pass s f data False (try_pass s f data True (False, None))) = Some (en, i, sps)"
    by (simp add: try_at_def)
  from this True [THEN conjunct2] show thesis by (rule try_pass_found [OF inv ne]) (rule that)
next
  case False
  with assms(3) have "snd (try_pass s f data True (False, None)) = Some (en, i, sps)"
    by (auto simp: try_at_def Let_def split: if_splits)
  then show thesis by (rule try_pass_found [OF inv ne]) (simp, rule that)
qed

lemma try_at_bounds:
  assumes inv: "scrubber_inv s" and ne: "data \<noteq> []" and "snd (try_at s f data) = Some (en, i, sps)"
  shows "1 \<le> en" "en \<le> length data" "i < length (sc_needles s)" "length sps = length (n_runes (sc_needles s ! i))"
proof -
  obtain e r w sp where m: "i \<in> set (starting_with s r)" "match_at data (sc_needles s ! i) e f = MatchFound en sps"
    using try_at_found [OF assms] by blast
  from match_from_end [OF m(2) [unfolded match_at_def]] starting_withD [OF inv m(1)]
  show "1 \<le> en" "en \<le> length data" "i < length (sc_needles s)" "length sps = length (n_runes (sc_needles s ! i))"
    by (auto simp: Suc_le_eq neq_Nil_conv)
qed

section \<open>The byte tables lose no match\<close>

lemma decode_rune_max:
  assumes "decode_rune p = (r, w)" and "p \<noteq> []"
  shows "r \<le> max_rune"
proof (cases "valid_rune r")
  case False
  then have "\<not> (r = rune_error \<and> w \<le> 1)" by auto
  from encode_decode_rune [OF assms this] have "p = encode_rune r @ drop w p" by simp
  moreover have "encode_rune r = encode_rune rune_error" using False by (simp add: encode_rune_def)
  ultimately have "decode_rune p = (rune_error, length (encode_rune rune_error))"
    using decode_encode_rune [OF valid_rune_error, of "drop w p"] by metis
  with assms show ?thesis by (simp add: rune_error_def max_rune_def)
qed (simp add: valid_rune_def)

text \<open>The character read at a position starts with the byte found there, unless it is escaped.\<close>

lemma head_lead_token:
  assumes "match_token (c # cs) e f = Some (r, w, sp)" and "\<not> is_escape_start c"
  shows "head_lead r = byte c" and "byte c < rune_self \<Longrightarrow> r = byte c \<and> w = 1"
    and "rune_self \<le> byte c \<Longrightarrow> rune_self \<le> r"
proof -
  have "head_lead r = byte c \<and> (byte c < rune_self \<longrightarrow> r = byte c \<and> w = 1) \<and> (rune_self \<le> byte c \<longrightarrow> rune_self \<le> r)"
  proof (cases "rune_self \<le> byte c")
    case False
    with assms have "r = byte c" "w = 1" by (auto simp: match_token_def)
    with False show ?thesis
      by (simp add: head_lead_def append_rune_def encode_rune_def Let_def rune_self_def max_rune_def
          valid_rune_def surrogate_def)
  next
    case True
    obtain q v where d: "decode_rune (c # cs) = (q, v)" by (metis prod.exhaust)
    from assms True have "read_literal (c # cs) f = Some (r, w, sp)"
      by (auto simp: match_token_def read_token_def read_escape_def is_escape_start_def split: if_splits)
    with d consider "r = raw_rune (byte c)" | "r = q" "\<not> (q = rune_error \<and> v \<le> 1)"
      by (auto simp: read_literal_def split: if_splits)
    then show ?thesis
    proof cases
      case 1
      with True show ?thesis
        by (simp add: head_lead_def append_rune_def raw_rune_def max_rune_def rune_self_def)
    next
      case 2
      from encode_decode_rune [OF d _ 2(2)] 2(1) have enc: "encode_rune r = take v (c # cs)" by simp
      then have hd: "hd (encode_rune r) = c" using encode_rune_ne [of r] by (cases v) auto
      have "rune_self \<le> r"
      proof (rule ccontr)
        assume "\<not> rune_self \<le> r"
        then have "encode_rune r = [char_of r]" "r < 256"
          by (auto simp: encode_rune_def Let_def rune_self_def valid_rune_def max_rune_def surrogate_def)
        with hd True \<open>\<not> rune_self \<le> r\<close> show False by (auto simp: rune_self_def)
      qed
      with hd decode_rune_max [OF d] 2 True show ?thesis by (simp add: head_lead_def append_rune_def)
    qed
  qed
  then show "head_lead r = byte c" "byte c < rune_self \<Longrightarrow> r = byte c \<and> w = 1"
    "rune_self \<le> byte c \<Longrightarrow> rune_self \<le> r" by auto
qed

lemma second_byte_found:
  assumes t: "match_token (c # d # ds) e f = Some (r, 1, sp)" and r: "starts_needle r n"
    and m: "match_at (c # d # ds) n e f = MatchFound en sps" and len: "1 < length (n_runes n)"
  shows "byte d \<in> set (second_bytes n)"
proof (cases "byte d < rune_self \<and> \<not> is_escape_start d \<and> byte d \<noteq> 0")
  case True
  with match_at_next [OF _ t r len] m have "equal_rune (byte d) (n_runes n ! 1) (n_fold n)"
    by (auto simp: next_plain_def)
  then show ?thesis
    by (auto simp: second_bytes_def equal_rune_def lower_rune_def upper_rune_def split: if_splits)
next
  case False
  then consider "rune_self \<le> byte d" | "is_escape_start d" | "d = CHR 0x00"
    by (auto simp: char_eq_byte)
  then show ?thesis
  proof cases
    case 3
    obtain a b ws where runes: "n_runes n = a # b # ws"
      using len by (cases "n_runes n"; cases "tl (n_runes n)") auto
    have t2: "match_token (d # ds) e f = Some (0, 1, literal_spelling)"
      using 3 by (simp add: match_token_def rune_self_def is_escape_start_def)
    have "match_from (n_fold n) e f (b # ws) False 0 (d # ds) 1 [fold_spelling (n_fold n) r a sp] \<noteq> MatchNone"
      using m r runes by (auto simp: match_at_def match_from_Cons [OF _ t] starts_needle_def)
    with match_from_Cons [OF _ t2, where fd = "n_fold n" and want = b and ws = ws and first = False
        and gap = 0 and at = 1 and sps = "[fold_spelling (n_fold n) r a sp]"]
    have "equal_rune 0 b (n_fold n)"
      using is_gap_ascii [of 0] by (auto simp: fallback_def rune_self_def split: if_splits)
    with 3 runes show ?thesis by (auto simp: second_bytes_def equal_rune_def lower_rune_def split: if_splits)
  qed (auto simp: second_bytes_def is_escape_start_def)
qed

lemma found_may_start:
  assumes inv: "scrubber_inv s" and ne: "data \<noteq> []" and found: "snd (try_at s f data) = Some (en, i, sps)"
  shows "may_start s data"
proof -
  obtain c cs where data: "data = c # cs" using ne by (cases data) auto
  obtain e r w sp where t: "match_token data e f = Some (r, w, sp)" and i: "i \<in> set (starting_with s r)"
    and m: "match_at data (sc_needles s ! i) e f = MatchFound en sps"
    using try_at_found [OF assms] by metis
  let ?n = "sc_needles s ! i"
  note n = starting_withD [OF inv i]
  show ?thesis
  proof (cases "is_escape_start c")
    case True
    with inv data show ?thesis
      by (auto simp: may_start_def scrubber_inv_def is_escape_start_def split: list.splits)
  next
    case False
    note lead = head_lead_token [OF t [unfolded data] False]
    have "table_covers s ?n" "r \<in> set (needle_heads ?n)"
      using inv n by (auto simp: scrubber_inv_def needle_heads_starts)
    with lead(1) have cov: "sc_start s (byte c)"
      "\<And>b. row_head ?n r \<or> b \<in> set (second_bytes ?n) \<Longrightarrow> sc_pair s (byte c) b"
      by (auto simp: table_covers_def)
    show ?thesis
    proof (cases cs)
      case Nil
      with cov data show ?thesis by (simp add: may_start_def)
    next
      case (Cons d ds)
      have "row_head ?n r \<or> byte d \<in> set (second_bytes ?n)"
      proof (cases "row_head ?n r")
        case False
        then have "byte c < rune_self" using lead(3) by (meson not_le row_head_def)
        moreover have "1 < length (n_runes ?n)"
          using False n(3) by (cases "n_runes ?n") (auto simp: row_head_def)
        ultimately show ?thesis
          using second_byte_found [of c d ds e f r sp ?n en sps] t m n(2) lead(2) data Cons by simp
      qed simp
      with cov data Cons show ?thesis by (simp add: may_start_def)
    qed
  qed
qed

section \<open>The scan under more input\<close>

lemma may_start_stable:
  assumes "scrubber_inv s" and "\<not> may_start s (c # cs)"
  shows "\<not> may_start s ((c # cs) @ ext)"
  using assms
  by (cases cs; cases ext) (auto simp: may_start_def scrubber_inv_def)

lemma scan_Cons_copy:
  assumes "\<not> may_start s (c # cs) \<or> try_at s f (c # cs) = (False, None)"
  shows "scan s f (c # cs) = (c # fst (scan s f cs), snd (scan s f cs))"
  using assms by (subst scan.simps) (auto split: prod.splits)

lemma scan_Cons_replace:
  assumes "may_start s (c # cs)" "try_at s f (c # cs) = (False, Some (en, i, sps))" "1 \<le> en"
  shows "scan s f (c # cs) =
    (encode_repl (sc_needles s ! i) sps @ fst (scan s f (drop en (c # cs))), snd (scan s f (drop en (c # cs))))"
  using assms by (subst scan.simps) (auto split: prod.splits)

lemma scan_Cons_hold:
  assumes "may_start s (c # cs)" "fst (try_at s f (c # cs))"
  shows "scan s f (c # cs) = ([], Suc (length cs))"
  using assms by (subst scan.simps) (auto split: prod.splits)

lemmas scan_Cons = scan_Cons_copy scan_Cons_replace scan_Cons_hold

text \<open>Induction over the positions the scan stops at.\<close>

lemma scan_cases:
  assumes inv: "scrubber_inv s"
  obtains (copy) "\<not> may_start s (c # cs) \<or> try_at s f (c # cs) = (False, None)"
  | (hold) "may_start s (c # cs)" "fst (try_at s f (c # cs))"
  | (replace) en i sps where "may_start s (c # cs)" "try_at s f (c # cs) = (False, Some (en, i, sps))"
      "1 \<le> en" "en \<le> Suc (length cs)" "i < length (sc_needles s)"
      "length sps = length (n_runes (sc_needles s ! i))"
proof -
  obtain m b where t: "try_at s f (c # cs) = (m, b)" by (metis prod.exhaust)
  consider "\<not> may_start s (c # cs)" | "may_start s (c # cs)" "m" | "may_start s (c # cs)" "\<not> m" "b = None"
    | en i sps where "may_start s (c # cs)" "\<not> m" "b = Some (en, i, sps)" by (cases b) auto
  then show thesis
  proof cases
    case (4 en i sps)
    with t try_at_bounds [OF inv, of "c # cs" f en i sps] show thesis by (intro replace) auto
  qed (use t copy hold in auto)
qed

theorem scan_split:
  assumes inv: "scrubber_inv s"
  shows "snd (scan s False data) \<le> length data \<and>
    scan s f (data @ ext) =
      (fst (scan s False data) @ fst (scan s f (held_tail data (snd (scan s False data)) @ ext)),
       snd (scan s f (held_tail data (snd (scan s False data)) @ ext)))"
proof (induction "length data" arbitrary: data rule: less_induct)
  case less
  show ?case
  proof (cases data)
    case Nil
    then show ?thesis by (simp add: held_tail_def)
  next
    case (Cons c cs)
    from inv show ?thesis
    proof (cases rule: scan_cases [where c = c and cs = cs and f = False])
      case copy
      have "\<not> may_start s (c # cs @ ext) \<or> try_at s f (c # cs @ ext) = (False, None)"
        using copy may_start_stable [OF inv, of c cs ext] try_at_stable [OF inv, of "c # cs" f ext] by auto
      with copy less.hyps [of cs] Cons show ?thesis
        by (auto simp: scan_Cons_copy held_tail_def Suc_diff_le)
    next
      case hold
      then show ?thesis using Cons by (simp add: scan_Cons_hold held_tail_def)
    next
      case (replace en i sps)
      have t: "try_at s f (c # cs @ ext) = (False, Some (en, i, sps))"
        using replace try_at_stable [OF inv, of "c # cs" f ext] by simp
      have d: "drop en (c # cs @ ext) = drop en (c # cs) @ ext"
        using replace(3,4) by (cases en) simp_all
      have "may_start s (c # cs @ ext)" by (rule found_may_start [OF inv, where f = f]) (simp_all add: t)
      from scan_Cons_replace [OF this t replace(3)] less.hyps [of "drop en (c # cs)"] replace Cons
      show ?thesis
        unfolding d by (auto simp: scan_Cons_replace held_tail_def)
    qed
  qed
qed

section \<open>The reader\<close>

text \<open>Everything a reader will still deliver.\<close>

fun scrub_rest :: "scrubber \<Rightarrow> bytes list \<Rightarrow> bytes \<Rightarrow> bytes \<Rightarrow> bytes" where
  "scrub_rest s [] lst pending = fst (scan s True (pending @ lst))"
| "scrub_rest s (chunk # chunks) lst pending =
    fst (scan s False (pending @ chunk))
      @ scrub_rest s chunks lst (held_tail (pending @ chunk) (snd (scan s False (pending @ chunk))))"

definition reader_rest :: "scrubber \<Rightarrow> scrub_reader \<Rightarrow> bytes" where
  "reader_rest s r =
    sr_ready r @ (if sr_done r then [] else scrub_rest s (sr_chunks r) (sr_last r) (sr_pending r))"

lemma scrub_rest_text:
  assumes "scrubber_inv s"
  shows "scrub_rest s chunks lst pending = scrub_text s (pending @ concat chunks @ lst)"
proof (induction chunks arbitrary: pending)
  case Nil
  show ?case by (simp add: scrub_text_def)
next
  case (Cons chunk chunks)
  from scan_split [OF assms, of "pending @ chunk" True "concat chunks @ lst"] Cons show ?case
    by (simp add: scrub_text_def)
qed

lemma scrub_fill_rest: "reader_rest s (scrub_fill s chunks lst pending) = scrub_rest s chunks lst pending"
  by (induction s chunks lst pending rule: scrub_fill.induct)
    (auto simp: reader_rest_def Let_def split: prod.splits)

lemma scrub_fill_ready:
  "sr_ready (scrub_fill s chunks lst pending) = [] \<Longrightarrow> sr_done (scrub_fill s chunks lst pending)"
  by (induction s chunks lst pending rule: scrub_fill.induct) (auto simp: Let_def split: prod.splits)

lemma scrub_read_rest:
  assumes "scrub_read s n r = (r', res)"
  shows "reader_rest s r = (case res of Some bs \<Rightarrow> bs | None \<Rightarrow> []) @ reader_rest s r'"
    and "res = None \<Longrightarrow> reader_rest s r = []"
proof -
  define q where "q = (if sr_ready r = [] \<and> \<not> sr_done r
    then scrub_fill s (sr_chunks r) (sr_last r) (sr_pending r) else r)"
  have q: "reader_rest s r = reader_rest s q"
    using scrub_fill_rest [of s "sr_chunks r" "sr_last r" "sr_pending r"]
    by (auto simp: q_def reader_rest_def)
  have d: "sr_ready q = [] \<Longrightarrow> sr_done q"
    using scrub_fill_ready [of s "sr_chunks r" "sr_last r" "sr_pending r"]
    by (auto simp: q_def split: if_splits)
  have read: "(r', res) = (if sr_ready q = [] then (q, None)
      else (q\<lparr>sr_ready := drop n (sr_ready q)\<rparr>, Some (take n (sr_ready q))))"
    using assms unfolding scrub_read_def Let_def q_def [symmetric] by simp
  show "reader_rest s r = (case res of Some bs \<Rightarrow> bs | None \<Rightarrow> []) @ reader_rest s r'"
    unfolding q using read by (auto simp: reader_rest_def split: if_splits simp flip: append_assoc)
  show "res = None \<Longrightarrow> reader_rest s r = []"
    unfolding q using read d by (auto simp: reader_rest_def split: if_splits)
qed

text \<open>A caller that reads with the given buffer sizes, and what it gets.\<close>

fun scrub_reads :: "scrubber \<Rightarrow> nat list \<Rightarrow> scrub_reader \<Rightarrow> bytes \<times> scrub_reader" where
  "scrub_reads s [] r = ([], r)"
| "scrub_reads s (n # ns) r =
    (case scrub_read s n r of
       (r', None) \<Rightarrow> ([], r')
     | (r', Some bs) \<Rightarrow> (let (out, r'') = scrub_reads s ns r' in (bs @ out, r'')))"

lemma scrub_reads_rest: "reader_rest s r = fst (scrub_reads s ns r) @ reader_rest s (snd (scrub_reads s ns r))"
proof (induction ns arbitrary: r)
  case (Cons n ns)
  obtain r' res where r: "scrub_read s n r = (r', res)" by (metis prod.exhaust)
  from scrub_read_rest [OF r] Cons.IH [of r'] r show ?case
    by (cases res) (auto split: prod.splits)
qed simp

lemma scrub_read_progress:
  assumes "scrub_read s n r = (r', Some bs)" and "0 < n"
  shows "bs \<noteq> []"
  using assms by (auto simp: scrub_read_def Let_def split: if_splits)

section \<open>Bytes held back\<close>

definition needle_span :: "needle \<Rightarrow> nat" where
  "needle_span n =
    length (n_runes n) * max_token + (length (n_runes n) - 1) * max_gap * max_token"

lemma try_pass_held:
  assumes inv: "scrubber_inv s" and ne: "data \<noteq> []" and m: "fst (try_pass s f data e st)" "\<not> fst st"
  shows "length data < max_token \<or> (\<exists>n \<in> set (sc_needles s). length data < needle_span n)"
proof (cases "match_token data e f")
  case None
  from match_token_more(2) [OF this] show ?thesis by simp
next
  case (Some t)
  obtain r w sp where t: "t = (r, w, sp)" by (metis prod_cases3)
  from m obtain i where i: "i \<in> set (starting_with s r)" and c: "candidate s data e f i = MatchMore"
    by (auto simp: try_pass_merge [OF inv ne] Some t fold_merge_more)
  from c have "match_from (n_fold (sc_needles s ! i)) e f (n_runes (sc_needles s ! i)) True 0 data 0 [] = MatchMore"
    by (auto simp: candidate_def match_at_def split: if_splits)
  from match_from_held [OF this] have "length data < needle_span (sc_needles s ! i)"
    by (simp add: needle_span_def algebra_simps)
  with starting_withD(1) [OF inv i] show ?thesis by (auto intro: nth_mem)
qed

lemma try_at_held:
  assumes inv: "scrubber_inv s" and ne: "data \<noteq> []" and m: "fst (try_at s f data)"
  shows "length data < max_token \<or> (\<exists>n \<in> set (sc_needles s). length data < needle_span n)"
proof (cases "fst (try_pass s f data True (False, None))")
  case True
  then show ?thesis by (rule try_pass_held [OF inv ne]) simp
next
  case False
  with m have "fst (try_pass s f data False (try_pass s f data True (False, None)))"
    by (auto simp: try_at_def Let_def split: if_splits)
  then show ?thesis by (rule try_pass_held [OF inv ne]) (rule False)
qed

lemma scan_held:
  assumes inv: "scrubber_inv s"
  shows "snd (scan s f data) = 0 \<or> snd (scan s f data) < max_token
    \<or> (\<exists>n \<in> set (sc_needles s). snd (scan s f data) < needle_span n)"
proof (induction "length data" arbitrary: data rule: less_induct)
  case less
  show ?case
  proof (cases data)
    case (Cons c cs)
    from inv show ?thesis
    proof (cases rule: scan_cases [where c = c and cs = cs and f = f])
      case copy
      with less.hyps [of cs] Cons show ?thesis by (simp add: scan_Cons_copy)
    next
      case hold
      with try_at_held [OF inv, of "c # cs" f] Cons show ?thesis by (simp add: scan_Cons_hold)
    next
      case (replace en i sps)
      with less.hyps [of "drop en (c # cs)"] Cons show ?thesis by (simp add: scan_Cons_replace)
    qed
  qed simp
qed

lemma scan_final_held:
  assumes inv: "scrubber_inv s"
  shows "snd (scan s True data) = 0"
proof (induction "length data" arbitrary: data rule: less_induct)
  case less
  show ?case
  proof (cases data)
    case (Cons c cs)
    from inv show ?thesis
    proof (cases rule: scan_cases [where c = c and cs = cs and f = True])
      case copy
      with less.hyps [of cs] Cons show ?thesis by (simp add: scan_Cons_copy)
    next
      case hold
      with try_at_final [OF inv, of "c # cs"] show ?thesis by simp
    next
      case (replace en i sps)
      with less.hyps [of "drop en (c # cs)"] Cons show ?thesis by (simp add: scan_Cons_replace)
    qed
  qed simp
qed

end
