(* ===== verification/Scrub_Spell.thy ===== *)
theory Scrub_Spell
  imports Scrub_Stream
begin

text \<open>
  Reading back what \<^const>\<open>spell\<close> writes: a character written in any of the forms is read as that
  character, whatever follows it.
\<close>

section \<open>Hex digits\<close>

lemma hex_value_digit:
  assumes "d < 16"
  shows "\<exists>k. hex_value (hex_digits hc ! d) = Some (d, k)"
proof -
  from assms have "d = 0 \<or> d = 1 \<or> d = 2 \<or> d = 3 \<or> d = 4 \<or> d = 5 \<or> d = 6 \<or> d = 7 \<or> d = 8
      \<or> d = 9 \<or> d = 10 \<or> d = 11 \<or> d = 12 \<or> d = 13 \<or> d = 14 \<or> d = 15" by presburger
  then show ?thesis by (cases hc) (auto simp: hex_digits_def hex_value_def)
qed

lemma read_hex_from_byte:
  assumes "b < 256"
  shows "\<exists>h. read_hex_from (Suc (Suc n)) (hex_byte hc b @ rest) v h0 = read_hex_from n rest (b + 256 * v) h"
proof -
  have "b div 16 < 16" "b mod 16 < 16" using assms by auto
  then obtain k1 k2 where k: "hex_value (hex_digits hc ! (b div 16)) = Some (b div 16, k1)"
      "hex_value (hex_digits hc ! (b mod 16)) = Some (b mod 16, k2)"
    using hex_value_digit by metis
  have "(v * 16 + b div 16) * 16 + b mod 16 = b + 256 * v" by (simp add: algebra_simps)
  with k show ?thesis by (auto simp: hex_byte_def)
qed

lemma read_hex_byte: "b < 256 \<Longrightarrow> \<exists>h. read_hex (hex_byte hc b @ rest) 2 = HexOk b h"
  using read_hex_from_byte [of b 0 hc rest 0 NoCase] by (auto simp: read_hex_def numeral_2_eq_2)

lemma read_hex_unit:
  assumes "u < 65536"
  shows "\<exists>h. read_hex (hex_byte hc (u div 256) @ hex_byte hc (u mod 256) @ rest) 4 = HexOk u h"
proof -
  have four: "(4 :: nat) = Suc (Suc (Suc (Suc 0)))" by simp
  have lt: "u div 256 < 256" "u mod 256 < 256" using assms by auto
  obtain h1 where "read_hex_from 4 (hex_byte hc (u div 256) @ hex_byte hc (u mod 256) @ rest) 0 NoCase =
      read_hex_from 2 (hex_byte hc (u mod 256) @ rest) (u div 256) h1"
    using read_hex_from_byte [OF lt(1), of "Suc (Suc 0)" hc "hex_byte hc (u mod 256) @ rest" 0 NoCase]
    unfolding four numeral_2_eq_2 by auto
  moreover obtain h2 where "read_hex_from 2 (hex_byte hc (u mod 256) @ rest) (u div 256) h1 = HexOk u h2"
    using read_hex_from_byte [OF lt(2), of 0 hc rest "u div 256" h1]
    unfolding numeral_2_eq_2 by auto
  ultimately show ?thesis by (auto simp: read_hex_def)
qed

section \<open>Percent\<close>

lemma percent_need_lead:
  assumes "0x80 \<le> x" "1 < fst (utf8_lead x)"
  shows "percent_need x = fst (utf8_lead x)"
proof -
  from assms have "0xC2 \<le> x" "x \<le> 0xF4" by (auto simp: utf8_lead_def split: if_splits)
  then show ?thesis by (auto simp: utf8_lead_def percent_need_def)
qed

definition percent_text :: "hex_case \<Rightarrow> bytes \<Rightarrow> bytes" where
  "percent_text hc bs = concat (map (\<lambda>b. CHR ''%'' # hex_byte hc (byte b)) bs)"

lemma percent_tail_text:
  "\<exists>h'. percent_tail (length bs) need (percent_text hc bs @ rest) buf h = percent_tail 0 need rest (buf @ bs) h'"
proof (induction bs arbitrary: buf h)
  case (Cons b bs)
  have "byte b < 256" by simp
  then obtain k where k: "read_hex (hex_byte hc (byte b) @ percent_text hc bs @ rest) 2 = HexOk (byte b) k"
    using read_hex_byte by blast
  have "percent_tail (length (b # bs)) need (percent_text hc (b # bs) @ rest) buf h =
      percent_tail (length bs) need (percent_text hc bs @ rest) (buf @ [b]) (if h = NoCase then k else h)"
    using k by (simp add: percent_text_def hex_byte_def)
  with Cons.IH [of "buf @ [b]" "if h = NoCase then k else h"] show ?case by simp
qed (auto simp: percent_text_def)

lemma read_percent_text:
  assumes "valid_rune r"
  shows "\<exists>h. read_percent (percent_text hc (encode_rune r) @ rest) =
    EscTok r (length (percent_text hc (encode_rune r))) (Sp FormPercent h)"
proof -
  obtain c cs where e: "encode_rune r = c # cs" "byte c < 0x80 \<longleftrightarrow> cs = []"
      "fst (utf8_lead (byte c)) = Suc (length cs)"
    using encode_rune_shape [OF assms] by metis
  have need: "percent_need (byte c) = Suc (length cs)"
    using e percent_need_lead [of "byte c"] by (cases cs) (auto simp: percent_need_def)
  obtain k where k: "read_hex (hex_byte hc (byte c) @ percent_text hc cs @ rest) 2 = HexOk (byte c) k"
    using read_hex_byte [of "byte c"] by auto
  obtain h where h: "percent_tail (length cs) (Suc (length cs)) (percent_text hc cs @ rest) [c] k =
      percent_tail 0 (Suc (length cs)) rest (c # cs) h"
    using percent_tail_text [of cs "Suc (length cs)" hc rest "[c]" k] by auto
  have d: "decode_rune (c # cs) = (r, Suc (length cs))"
    using decode_encode_rune [OF assms, of "[]"] e by simp
  have nerr: "\<not> (r = rune_error \<and> Suc (length cs) \<le> 1)"
    using e(1) by (auto simp: encode_rune_def rune_error_def valid_rune_def max_rune_def surrogate_def)
  have len: "length (percent_text hc bs) = 3 * length bs" for bs
    by (induction bs) (auto simp: percent_text_def hex_byte_def)
  have t: "percent_text hc (c # cs) @ rest = CHR ''%'' # hex_byte hc (byte c) @ percent_text hc cs @ rest"
    by (simp add: percent_text_def)
  have dr: "drop 3 (CHR ''%'' # hex_byte hc (byte c) @ percent_text hc cs @ rest) = percent_text hc cs @ rest"
    by (simp add: hex_byte_def numeral_3_eq_3)
  show ?thesis
    unfolding e(1) t read_percent_def dr
    using k h need d nerr len [of "c # cs"] by (auto simp del: decode_rune.simps)
qed

section \<open>Backslash\<close>

lemma read_backslash_hex:
  assumes "r < 0x80"
  shows "\<exists>h. read_backslash ([CHR 0x5C, CHR ''x''] @ hex_byte hc r @ rest) = EscTok r 4 (Sp FormHexEscape h)"
proof -
  from assms have "r < 256" by simp
  from read_hex_byte [OF this, of hc rest] show ?thesis by (auto simp: read_backslash_def)
qed

lemma json_unit_len [simp]: "length (json_unit hc u) = 6"
  by (simp add: json_unit_def hex_byte_def)

lemma json_unit_hd [simp]: "hd (json_unit hc u) = CHR 0x5C" "json_unit hc u \<noteq> []"
  by (simp_all add: json_unit_def)

lemma json_unit_read:
  assumes "u < 65536"
  shows "\<exists>h. read_backslash (json_unit hc u @ rest) = read_unit (json_unit hc u @ rest) u h"
proof -
  obtain h where h: "read_hex (hex_byte hc (u div 256) @ hex_byte hc (u mod 256) @ rest) 4 = HexOk u h"
    using read_hex_unit [OF assms] by blast
  have "drop 2 (json_unit hc u @ rest) = hex_byte hc (u div 256) @ hex_byte hc (u mod 256) @ rest"
    by (simp add: json_unit_def numeral_2_eq_2)
  with h show ?thesis by (intro exI [of _ h]) (simp add: read_backslash_def, simp add: json_unit_def)
qed

lemma read_backslash_unit:
  assumes "valid_rune r" "r < 0x10000"
  shows "\<exists>h. read_backslash (json_unit hc r @ rest) = EscTok r 6 (Sp FormJSONU h)"
proof -
  have "\<not> (0xD800 \<le> r \<and> r < 0xDC00)" using assms by (auto simp: valid_rune_def surrogate_def)
  with json_unit_read [of r hc rest] assms(2) show ?thesis by (auto simp: read_unit_def)
qed

lemma read_backslash_pair:
  assumes "0x10000 \<le> r" "r \<le> max_rune"
  shows "\<exists>h. read_backslash (json_unit hc (0xD800 + (r - 0x10000) div 1024)
      @ json_unit hc (0xDC00 + (r - 0x10000) mod 1024) @ rest) = EscTok r 12 (Sp FormJSONU h)"
proof -
  define q where "q = r - 0x10000"
  define hi lo where "hi = 0xD800 + q div 1024" and "lo = 0xDC00 + q mod 1024"
  have q: "q < 1024 * 1024" "r = 0x10000 + q"
    using assms by (simp_all add: q_def max_rune_def)
  have "q div 1024 < 1024" using q(1) by (rule less_mult_imp_div_less)
  then have hi: "0xD800 \<le> hi" "hi < 0xDC00" "hi < 65536" by (simp_all add: hi_def)
  have "q mod 1024 < 1024" by simp
  then have lo: "0xDC00 \<le> lo" "lo < 0xE000" "lo < 65536" by (simp_all add: lo_def del: mod_less_divisor)
  let ?data = "json_unit hc hi @ json_unit hc lo @ rest"
  obtain h where h: "read_backslash ?data = read_unit ?data hi h"
    using json_unit_read [OF hi(3)] by blast
  obtain h2 where h2: "read_hex (hex_byte hc (lo div 256) @ hex_byte hc (lo mod 256) @ rest) 4 = HexOk lo h2"
    using read_hex_unit [OF lo(3)] by blast
  have at: "?data ! 6 = CHR 0x5C" "?data ! 7 = CHR ''u''" "12 \<le> length ?data"
    by (simp_all add: nth_append) (simp_all add: json_unit_def)
  have dr: "drop 8 ?data = hex_byte hc (lo div 256) @ hex_byte hc (lo mod 256) @ rest"
  proof -
    have "drop 8 ?data = drop 2 (json_unit hc lo @ rest)" by simp
    then show ?thesis by (simp add: json_unit_def numeral_2_eq_2)
  qed
  have val: "0x10000 + (hi - 0xD800) * 1024 + (lo - 0xDC00) = r"
    using q by (simp add: hi_def lo_def)
  have "read_unit ?data hi h = EscTok r 12 (Sp FormJSONU (if h = NoCase then h2 else h))"
    unfolding read_unit_def dr using hi lo at h2 val by simp
  with h show ?thesis by (auto simp: hi_def lo_def q_def)
qed

lemma read_backslash_short:
  assumes "find (\<lambda>(_, short). short = r) json_short = Some (b, x)"
  shows "read_backslash ([CHR 0x5C, b] @ rest) = EscTok r 2 (Sp FormJSONShort NoCase)"
  using assms by (auto simp: json_short_def read_backslash_def split: if_splits)

section \<open>References\<close>

lemma read_reference_named:
  assumes "find (\<lambda>(_, named). named = r) named_refs = Some (name, x)"
  shows "read_reference (''&'' @ name @ '';'' @ rest) = EscTok r (length name + 2) (Sp FormHTMLNamed NoCase)"
proof -
  have five: "(5 :: nat) = Suc (Suc (Suc (Suc (Suc 0))))" by simp
  show ?thesis
    using assms unfolding read_reference_def five by (auto simp: named_refs_def split: if_splits)
qed

lemma is_digit_hex_value: "is_digit c \<Longrightarrow> hex_value c = Some (digit_val c, NoCase) \<and> digit_val c \<le> 9"
  by (auto simp: is_digit_def hex_value_def digit_val_def)

lemma numeric_loop_dec:
  "list_all is_digit ds \<Longrightarrow> i + length ds \<le> m \<Longrightarrow> 0 < i + length ds \<Longrightarrow> dec_val v ds \<le> max_rune \<Longrightarrow>
    numeric_loop 10 m f dg (ds @ '';'' @ rest) i v NoCase =
      EscTok (dec_val v ds) (dg + i + length ds + 1) (Sp f NoCase)"
proof (induction ds arbitrary: i v)
  case (Cons d ds)
  from Cons.prems is_digit_hex_value [of d] have "hex_value d = Some (digit_val d, NoCase)" "digit_val d \<le> 9"
    "d \<noteq> CHR '';''" by (auto simp: is_digit_def)
  with Cons show ?case by (simp add: mult.commute)
qed simp

lemma itoa_nat_len: "n < 10 ^ Suc k \<Longrightarrow> length (itoa_nat n) \<le> Suc k"
proof (induction k arbitrary: n)
  case 0
  then show ?case by (simp add: itoa_nat.simps [of n])
next
  case (Suc k)
  show ?case
  proof (cases "n < 10")
    case False
    have "n div 10 < 10 ^ Suc k" using Suc.prems by (simp add: less_mult_imp_div_less mult.commute)
    with Suc.IH [of "n div 10"] False show ?thesis by (simp add: itoa_nat.simps [of n])
  qed (simp add: itoa_nat.simps [of n])
qed

lemma read_reference_dec:
  assumes "r \<le> max_rune"
  shows "read_reference (''&#'' @ itoa_nat r @ '';'' @ rest) =
    EscTok r (length (itoa_nat r) + 3) (Sp FormHTMLDec NoCase)"
proof -
  have len: "length (itoa_nat r) \<le> 7" using itoa_nat_len [of r 6] assms by (simp add: max_rune_def)
  obtain d ds where d: "itoa_nat r = d # ds" using itoa_nat_ne by (cases "itoa_nat r") auto
  have "is_digit d" using itoa_nat_digits [of r] d by simp
  then have nx: "d \<noteq> CHR ''x''" "d \<noteq> CHR ''X''" by (auto simp: is_digit_def)
  have "read_reference (''&#'' @ itoa_nat r @ '';'' @ rest) =
      numeric_loop 10 7 FormHTMLDec 2 (itoa_nat r @ '';'' @ rest) 0 0 NoCase"
    using nx d by (simp add: read_reference_def numeral_2_eq_2)
  also have "\<dots> = EscTok (dec_val 0 (itoa_nat r)) (2 + 0 + length (itoa_nat r) + 1) (Sp FormHTMLDec NoCase)"
    using itoa_nat_digits [of r] len assms dec_val_itoa_nat [of r] by (intro numeric_loop_dec) (auto simp: d)
  finally show ?thesis by (simp add: dec_val_itoa_nat)
qed

fun hex_num_val :: "nat \<Rightarrow> bytes \<Rightarrow> nat" where
  "hex_num_val v [] = v"
| "hex_num_val v (c # cs) = hex_num_val (v * 16 + fst (the (hex_value c))) cs"

lemma hex_num_val_append: "hex_num_val v (xs @ ys) = hex_num_val (hex_num_val v xs) ys"
  by (induction xs arbitrary: v) auto

lemma numeric_loop_hex:
  "list_all (\<lambda>c. hex_value c \<noteq> None) ds \<Longrightarrow> i + length ds \<le> m \<Longrightarrow> 0 < i + length ds \<Longrightarrow>
    hex_num_val v ds \<le> max_rune \<Longrightarrow>
    \<exists>h. numeric_loop 16 m f dg (ds @ '';'' @ rest) i v hc =
      EscTok (hex_num_val v ds) (dg + i + length ds + 1) (Sp f h)"
proof (induction ds arbitrary: i v hc)
  case (Cons d ds)
  from Cons.prems obtain x k where d: "hex_value d = Some (x, k)" by auto
  then have "d \<noteq> CHR '';''" by (auto simp: hex_value_def)
  with d Cons.IH [of "Suc i" "v * 16 + x" "if k \<noteq> NoCase \<and> hc = NoCase then k else hc"] Cons.prems
  show ?case by (simp add: mult.commute)
qed simp

lemma hex_text_props:
  "n < 16 ^ Suc k \<Longrightarrow> length (hex_text n) \<le> Suc k \<and> hex_num_val 0 (hex_text n) = n
    \<and> list_all (\<lambda>c. hex_value c \<noteq> None) (hex_text n) \<and> hex_text n \<noteq> []"
proof (induction k arbitrary: n)
  case 0
  with hex_value_digit [of n LowerCase] show ?case by (auto simp: hex_text.simps [of n])
next
  case (Suc k)
  show ?case
  proof (cases "n < 16")
    case True
    with hex_value_digit [of n LowerCase] show ?thesis by (auto simp: hex_text.simps [of n])
  next
    case False
    have "n div 16 < 16 ^ Suc k" using Suc.prems by (simp add: less_mult_imp_div_less mult.commute)
    with Suc.IH [of "n div 16"] False hex_value_digit [of "n mod 16" LowerCase] show ?thesis
      by (auto simp: hex_text.simps [of n] hex_num_val_append)
  qed
qed

lemma hex_value_upper: "map_option fst (hex_value (upper_char c)) = map_option fst (hex_value c)"
proof (cases "97 \<le> byte c \<and> byte c \<le> 122")
  case True
  then have u: "byte (upper_char c) = byte c - 32" by (auto simp: upper_char_def intro!: mod_less)
  show ?thesis
  proof (cases "byte c \<le> 102")
    case True
    with \<open>97 \<le> byte c \<and> byte c \<le> 122\<close> show ?thesis unfolding hex_value_def Let_def u by auto
  next
    case False
    with \<open>97 \<le> byte c \<and> byte c \<le> 122\<close> show ?thesis unfolding hex_value_def Let_def u by auto
  qed
next
  case False
  then show ?thesis by (auto simp: upper_char_def)
qed

lemma hex_num_val_upper: "list_all (\<lambda>c. hex_value c \<noteq> None) ds \<Longrightarrow> hex_num_val v (to_upper ds) = hex_num_val v ds"
proof (induction ds arbitrary: v)
  case (Cons d ds)
  then obtain x k where "hex_value d = Some (x, k)" by auto
  with hex_value_upper [of d] have "fst (the (hex_value (upper_char d))) = fst (the (hex_value d))" by auto
  with Cons show ?case by (simp add: to_upper_def)
qed (simp add: to_upper_def)

lemma list_all_hex_upper:
  "list_all (\<lambda>c. hex_value c \<noteq> None) ds \<Longrightarrow> list_all (\<lambda>c. hex_value c \<noteq> None) (to_upper ds)"
proof (induction ds)
  case (Cons d ds)
  with hex_value_upper [of d] show ?case by (auto simp: to_upper_def)
qed (simp add: to_upper_def)

definition hex_ref_text :: "hex_case \<Rightarrow> nat \<Rightarrow> string" where
  "hex_ref_text hc r = (if hc = UpperCase then to_upper (hex_text r) else hex_text r)"

lemma hex_ref_text_props:
  assumes "r \<le> max_rune"
  shows "length (hex_ref_text hc r) \<le> 6" "hex_num_val 0 (hex_ref_text hc r) = r"
    "list_all (\<lambda>c. hex_value c \<noteq> None) (hex_ref_text hc r)" "hex_ref_text hc r \<noteq> []"
  using hex_text_props [of r 5] assms list_all_hex_upper [of "hex_text r"] hex_num_val_upper [of "hex_text r" 0]
  by (auto simp: hex_ref_text_def max_rune_def) (auto simp: to_upper_def)

lemma read_reference_hex:
  assumes "r \<le> max_rune"
  shows "\<exists>h. read_reference (''&#x'' @ hex_ref_text hc r @ '';'' @ rest) =
    EscTok r (length (hex_ref_text hc r) + 4) (Sp FormHTMLHex h)"
proof -
  note p = hex_ref_text_props [OF assms, of hc]
  have "read_reference (''&#x'' @ hex_ref_text hc r @ '';'' @ rest) =
      numeric_loop 16 6 FormHTMLHex 3 (hex_ref_text hc r @ '';'' @ rest) 0 0 NoCase"
    by (simp add: read_reference_def numeral_2_eq_2 numeral_3_eq_3)
  moreover obtain h where "numeric_loop 16 6 FormHTMLHex 3 (hex_ref_text hc r @ '';'' @ rest) 0 0 NoCase =
      EscTok (hex_num_val 0 (hex_ref_text hc r)) (3 + 0 + length (hex_ref_text hc r) + 1) (Sp FormHTMLHex h)"
    using numeric_loop_hex [OF p(3), of 0 6 0 FormHTMLHex 3 rest NoCase] p assms by auto
  ultimately show ?thesis using p(2) by auto
qed

section \<open>Every form is read back\<close>

text \<open>The forms in which \<^const>\<open>spell\<close> writes a character as an escape, or as itself.\<close>

definition writes_form :: "nat \<Rightarrow> form \<Rightarrow> bool" where
  "writes_form r f \<longleftrightarrow> valid_rune r \<and>
    (case f of
       FormLiteral \<Rightarrow> \<not> is_escape_rune r
     | FormJSONShort \<Rightarrow> r \<in> snd ` set json_short
     | FormHexEscape \<Rightarrow> r < 0x80
     | FormHTMLNamed \<Rightarrow> r \<in> snd ` set named_refs
     | _ \<Rightarrow> True)"

definition reads_as :: "bytes \<Rightarrow> nat \<Rightarrow> bool" where
  "reads_as bs r \<longleftrightarrow> bs \<noteq> [] \<and>
    (\<exists>sp. \<forall>rest final. match_token (bs @ rest) True final = Some (r, length bs, sp))"

lemma reads_as_escape:
  assumes "is_escape_start (hd bs)" "bs \<noteq> []" "\<exists>sp. read_escape bs = EscTok r (length bs) sp"
  shows "reads_as bs r"
proof -
  obtain sp where sp: "read_escape bs = EscTok r (length bs) sp" using assms by blast
  then have "read_escape (bs @ rest) = EscTok r (length bs) sp" for rest
    using assms(2) by (subst read_escape_stable) auto
  with assms show ?thesis by (auto simp: reads_as_def match_token_def read_token_def)
qed

lemma full_rune_encode: "valid_rune r \<Longrightarrow> full_rune (encode_rune r @ q)"
  by (rule full_rune_append) (use encode_rune_shape [of r] in fastforce)

lemma reads_as_literal:
  assumes "valid_rune r" "\<not> is_escape_rune r"
  shows "reads_as (encode_rune r) r"
proof -
  obtain c cs where e: "encode_rune r = c # cs" "byte c < 0x80 \<longleftrightarrow> cs = []"
    using encode_rune_shape [OF assms(1)] by metis
  have d: "decode_rune (c # cs @ rest) = (r, Suc (length cs))" for rest
    using decode_encode_rune [OF assms(1), of rest] e by simp
  have f: "full_rune (c # cs @ rest)" for rest using full_rune_encode [OF assms(1)] e by simp
  have ne: "\<not> (r = rune_error \<and> Suc (length cs) \<le> 1)"
    using e(1) by (auto simp: encode_rune_def rune_error_def valid_rune_def max_rune_def surrogate_def)
  show ?thesis
  proof (cases "byte c < rune_self")
    case True
    with d have "r = byte c" by (simp add: rune_self_def Let_def)
    moreover have "\<not> is_escape_start c"
      using assms(2) calculation by (auto simp: is_escape_rune_def is_escape_start_def)
    ultimately show ?thesis
      using True e by (auto simp: reads_as_def match_token_def rune_self_def)
  next
    case False
    then have "\<not> is_escape_start c" using is_escape_start_ascii by blast
    with False e f d ne show ?thesis
      by (auto simp: reads_as_def match_token_def read_token_def read_escape_def read_literal_def
          is_escape_start_def simp del: decode_rune.simps full_rune.simps)
  qed
qed

lemma reads_as_spell:
  assumes "writes_form r f"
  shows "reads_as (spell [] r f hc) r"
proof -
  have v: "valid_rune r" and le: "r \<le> max_rune" using assms by (auto simp: writes_form_def valid_rune_def)
  show ?thesis
  proof (cases f)
    case FormLiteral
    with assms le show ?thesis
      using reads_as_literal [OF v] by (simp add: writes_form_def spell_def append_rune_def)
  next
    case FormPercent
    have sp: "spell [] r f hc = percent_text hc (encode_rune r)"
      using FormPercent le by (simp add: spell_def append_rune_def percent_text_def)
    have "percent_text hc (encode_rune r) \<noteq> [] \<and> hd (percent_text hc (encode_rune r)) = CHR ''%''"
      using encode_rune_ne [of r] by (cases "encode_rune r") (auto simp: percent_text_def)
    with read_percent_text [OF v, of hc "[]"] show ?thesis
      unfolding sp by (intro reads_as_escape) (auto simp: is_escape_start_def read_escape_def)
  next
    case FormJSONU
    show ?thesis
    proof (cases "0x10000 \<le> r")
      case True
      with FormJSONU le read_backslash_pair [OF True le, of hc "[]"] show ?thesis
        by (intro reads_as_escape)
          (auto simp: spell_def is_escape_start_def read_escape_def)
    next
      case False
      with FormJSONU le read_backslash_unit [OF v, of hc "[]"] show ?thesis
        by (intro reads_as_escape)
          (auto simp: spell_def is_escape_start_def read_escape_def)
    qed
  next
    case FormJSONShort
    with assms obtain b x where b: "find (\<lambda>(_, short). short = r) json_short = Some (b, x)"
      by (cases "find (\<lambda>(_, short). short = r) json_short") (auto simp: writes_form_def find_None_iff)
    with FormJSONShort read_backslash_short [OF b, of "[]"] show ?thesis
      by (intro reads_as_escape) (auto simp: spell_def is_escape_start_def read_escape_def)
  next
    case FormHexEscape
    with assms read_backslash_hex [of r hc "[]"] show ?thesis
      by (intro reads_as_escape)
        (auto simp: writes_form_def spell_def is_escape_start_def read_escape_def hex_byte_def)
  next
    case FormHTMLDec
    with le read_reference_dec [OF le, of "[]"] show ?thesis
      by (intro reads_as_escape) (auto simp: spell_def is_escape_start_def read_escape_def)
  next
    case FormHTMLHex
    with le read_reference_hex [OF le, of hc "[]"] show ?thesis
      by (intro reads_as_escape)
        (auto simp: spell_def is_escape_start_def read_escape_def hex_ref_text_def)
  next
    case FormHTMLNamed
    with assms obtain b x where b: "find (\<lambda>(_, named). named = r) named_refs = Some (b, x)"
      by (cases "find (\<lambda>(_, named). named = r) named_refs") (auto simp: writes_form_def find_None_iff)
    with FormHTMLNamed read_reference_named [OF b, of "[]"] show ?thesis
      by (intro reads_as_escape) (auto simp: spell_def is_escape_start_def read_escape_def)
  qed
qed

end
