(* ===== verification/Scrub_Plain.thy ===== *)
theory Scrub_Plain
  imports Scrub_Stream
begin

text \<open>
  The scrub without its tables: at every position every needle is tried that begins with the
  character read there. The tables that select positions and candidates, and the look at the next
  byte, change nothing. The condition on the first character is part of what the scrub does: a
  needle that begins with an escape written out is not tried where that escape is read as the
  character it stands for.
\<close>

definition plain_pass :: "needle list \<Rightarrow> bytes \<Rightarrow> bool \<Rightarrow> bool \<times> best \<Rightarrow> bool \<times> best" where
  "plain_pass ns data escaped st =
    (case match_token data escaped True of
       None \<Rightarrow> (True, snd st)
     | Some (r, _, _) \<Rightarrow>
         fold (\<lambda>i. merge i (if \<not> escaped \<and> \<not> n_literal_escape (ns ! i) then MatchNone
                              else match_at data (ns ! i) escaped True))
           (filter (\<lambda>i. starts_needle r (ns ! i)) [0..<length ns]) st)"

definition plain_at :: "needle list \<Rightarrow> bytes \<Rightarrow> best" where
  "plain_at ns data =
    (let st = plain_pass ns data True (False, None) in
     snd (if is_escape_start (hd data) \<and> snd st = None then plain_pass ns data False st else st))"

function plain_scrub :: "needle list \<Rightarrow> bytes \<Rightarrow> bytes" where
  "plain_scrub ns [] = []"
| "plain_scrub ns (c # cs) =
    (case plain_at ns (c # cs) of
       None \<Rightarrow> c # plain_scrub ns cs
     | Some (en, i, sps) \<Rightarrow>
         if en = 0 then [] else encode_repl (ns ! i) sps @ plain_scrub ns (drop en (c # cs)))"
  by pat_completeness auto
termination
  by (relation "measure (\<lambda>(ns, data). length data)") auto

declare plain_scrub.simps(2) [simp del]

lemma plain_pass_try_pass:
  assumes "scrubber_inv s" "data \<noteq> []"
  shows "plain_pass (sc_needles s) data e st = try_pass s True data e st"
  using assms(1) by (simp add: plain_pass_def try_pass_merge [OF assms] candidate_def [abs_def]
      scrubber_inv_def split: option.splits)

lemma plain_at_try_at:
  assumes "scrubber_inv s" "data \<noteq> []"
  shows "plain_at (sc_needles s) data = snd (try_at s True data)"
  by (simp add: plain_at_def try_at_def Let_def plain_pass_try_pass [OF assms])

lemma scan_plain:
  assumes inv: "scrubber_inv s"
  shows "fst (scan s True data) = plain_scrub (sc_needles s) data"
proof (induction "length data" arbitrary: data rule: less_induct)
  case less
  show ?case
  proof (cases data)
    case (Cons c cs)
    note at = plain_at_try_at [OF inv, of "c # cs"]
    from inv show ?thesis
    proof (cases rule: scan_cases [where c = c and cs = cs and f = True])
      case copy
      then have "snd (try_at s True (c # cs)) = None"
        using found_may_start [OF inv, of "c # cs" True] by (cases "snd (try_at s True (c # cs))") auto
      with copy less.hyps [of cs] Cons at show ?thesis by (simp add: scan_Cons_copy plain_scrub.simps)
    next
      case hold
      with try_at_final [OF inv, of "c # cs"] show ?thesis by simp
    next
      case (replace en i sps)
      with less.hyps [of "drop en (c # cs)"] Cons at show ?thesis
        by (simp add: scan_Cons_replace plain_scrub.simps)
    qed
  qed simp
qed

text \<open>
  C18: The scrub with its bit tables, its buckets of needles by first character and its look at
  the next byte writes the same text as the scrub that, at every position, tries in order every
  needle whose first character is the one read there, first with escapes read and then without.
\<close>

theorem scrub_text_plain:
  "scrub_text (new_scrubber pairs) data =
    plain_scrub (filter (\<lambda>n. n_runes n \<noteq> []) (map needle_of pairs)) data"
  by (simp add: scrub_text_def scan_plain scrubber_inv_new new_scrubber_needles)

lemmas scrub_text_eval = scrub_text_def scan_plain [OF scrubber_inv_new] new_scrubber_needles

end
