(* ===== verification/Scrub_Detect.thy ===== *)
theory Scrub_Detect
  imports Scrub_Spell Scrub_Plain
begin

text \<open>
  What the scrub catches: a needle spelled in any mixture of the forms, with format
  characters between its characters, is found wherever it starts, so the bytes that pass
  through unchanged never contain it.
\<close>

section \<open>Spelled occurrences\<close>

text \<open>A character with the format characters before it, each written in a form of its own.\<close>

datatype spelled_char = Spelled "(nat \<times> form \<times> hex_case) list" nat form hex_case

fun spelled_bytes :: "spelled_char \<Rightarrow> bytes" where
  "spelled_bytes (Spelled gs r f hc) = concat (map (\<lambda>(g, f, hc). spell [] g f hc) gs) @ spell [] r f hc"

definition spelled_text :: "spelled_char list \<Rightarrow> bytes" where
  "spelled_text cs = concat (map spelled_bytes cs)"

fun spells_char :: "bool \<Rightarrow> spelled_char \<Rightarrow> nat \<Rightarrow> bool" where
  "spells_char fd (Spelled gs r f hc) want \<longleftrightarrow>
    writes_form r f \<and> equal_rune r want fd \<and> length gs \<le> max_gap
    \<and> list_all (\<lambda>(g, f, _). is_gap g \<and> writes_form g f) gs"

fun no_gap_before :: "spelled_char list \<Rightarrow> bool" where
  "no_gap_before (Spelled gs _ _ _ # _) = (gs = [])"
| "no_gap_before [] = True"

definition spells_needle :: "needle \<Rightarrow> spelled_char list \<Rightarrow> bool" where
  "spells_needle n cs \<longleftrightarrow> list_all2 (spells_char (n_fold n)) cs (n_runes n) \<and> no_gap_before cs"

text \<open>A needle of valid characters, none of which starts an escape or is a format character.\<close>

definition plain_needle :: "needle \<Rightarrow> bool" where
  "plain_needle n \<longleftrightarrow> n_runes n \<noteq> [] \<and> list_all (\<lambda>r. \<not> is_escape_rune r \<and> \<not> is_gap r) (n_runes n)"

section \<open>Spelled occurrences are matched\<close>

lemma escape_not_equal:
  assumes "is_escape_start c" and "\<not> is_escape_rune want"
  shows "\<not> equal_rune (byte c) want fd"
  using assms by (auto simp: is_escape_start_def is_escape_rune_def equal_rune_def lower_rune_def)

lemma gap_not_equal: "is_gap g \<Longrightarrow> \<not> is_gap want \<Longrightarrow> \<not> equal_rune g want fd"
  by (auto simp: equal_rune_def is_gap_def rune_self_def)

lemma match_from_gap:
  assumes "reads_as bs g" "is_gap g" "\<not> is_escape_rune want" "\<not> is_gap want" "gap < max_gap"
  shows "match_from fd True f (want # ws) False gap (bs @ rest) at sps =
    match_from fd True f (want # ws) False (Suc gap) rest (at + length bs) sps"
proof -
  obtain sp where t: "match_token (bs @ rest) True f = Some (g, length bs, sp)" and ne: "bs @ rest \<noteq> []"
    using assms(1) by (auto simp: reads_as_def)
  have "\<not> fallback True (length bs) sp (bs @ rest) want fd"
    using match_token_escape_form [OF t] escape_not_equal assms(3) by (auto simp: fallback_def)
  with assms gap_not_equal [OF assms(2,4)] show ?thesis
    by (simp add: match_from_Cons [OF ne t])
qed

lemma match_from_gaps:
  assumes "list_all (\<lambda>(g, f, _). is_gap g \<and> writes_form g f) gs" "\<not> is_escape_rune want" "\<not> is_gap want"
    and "gap + length gs \<le> max_gap"
  shows "\<exists>gap'. match_from fd True f (want # ws) False gap (concat (map (\<lambda>(g, f, hc). spell [] g f hc) gs) @ rest) at sps =
    match_from fd True f (want # ws) False gap' rest
      (at + length (concat (map (\<lambda>(g, f, hc). spell [] g f hc) gs))) sps"
  using assms(1,4)
proof (induction gs arbitrary: gap at)
  case (Cons x gs)
  obtain g fm hc where x: "x = (g, fm, hc)" by (metis prod_cases3)
  from Cons.prems x have g: "is_gap g" "reads_as (spell [] g fm hc) g" by (auto intro: reads_as_spell)
  from Cons.IH [of "Suc gap" "at + length (spell [] g fm hc)"] Cons.prems
    match_from_gap [OF g(2,1) assms(2,3), of gap fd f ws] x show ?case
    by (simp add: add.assoc)
qed auto

lemma match_from_char:
  assumes "reads_as bs r" "equal_rune r want fd"
  shows "\<exists>sp. match_from fd True f (want # ws) first gap (bs @ rest) at sps =
    match_from fd True f ws False 0 rest (at + length bs) (sps @ [sp])"
proof -
  obtain sp where t: "match_token (bs @ rest) True f = Some (r, length bs, sp)" and ne: "bs @ rest \<noteq> []"
    using assms(1) by (auto simp: reads_as_def)
  with assms(2) show ?thesis by (auto simp: match_from_Cons [OF ne t])
qed

lemma match_from_spelled:
  assumes "list_all2 (spells_char fd) cs ws" "list_all (\<lambda>r. \<not> is_escape_rune r \<and> \<not> is_gap r) ws"
    and "first \<longrightarrow> no_gap_before cs"
  shows "\<exists>sps'. match_from fd True f ws first 0 (spelled_text cs @ rest) at sps =
    MatchFound (at + length (spelled_text cs)) sps'"
  using assms
proof (induction cs ws arbitrary: first at sps rule: list_all2_induct)
  case Nil
  then show ?case by (simp add: spelled_text_def)
next
  case (Cons c cs want ws)
  obtain gs r fm hc where c: "c = Spelled gs r fm hc" by (cases c)
  let ?gaps = "concat (map (\<lambda>(g, f, hc). spell [] g f hc) gs)"
  let ?bs = "spell [] r fm hc"
  let ?rest = "spelled_text cs @ rest"
  from Cons.hyps c have r: "reads_as ?bs r" "equal_rune r want fd"
    and gs: "list_all (\<lambda>(g, f, _). is_gap g \<and> writes_form g f) gs" "length gs \<le> max_gap"
    by (auto intro: reads_as_spell)
  obtain fst' gap' where g: "match_from fd True f (want # ws) first 0 (?gaps @ ?bs @ ?rest) at sps =
      match_from fd True f (want # ws) fst' gap' (?bs @ ?rest) (at + length ?gaps) sps"
  proof (cases first)
    case True
    with Cons.prems c have "gs = []" by simp
    then show thesis by (intro that [of first 0]) simp
  next
    case False
    with match_from_gaps [OF gs(1), of want 0 fd f ws "?bs @ ?rest" at sps] gs(2) Cons.prems that show thesis
      by auto
  qed
  obtain sp where s: "match_from fd True f (want # ws) fst' gap' (?bs @ ?rest) (at + length ?gaps) sps =
      match_from fd True f ws False 0 ?rest (at + length ?gaps + length ?bs) (sps @ [sp])"
    using match_from_char [OF r] by blast
  from Cons.IH [of False "at + length ?gaps + length ?bs" "sps @ [sp]"] Cons.prems g s c show ?case
    by (auto simp: spelled_text_def add.assoc)
qed

lemma match_at_spelled:
  assumes "spells_needle n cs" "plain_needle n"
  shows "\<exists>sps. match_at (spelled_text cs @ rest) n True f = MatchFound (length (spelled_text cs)) sps"
  using match_from_spelled [of "n_fold n" cs "n_runes n" True f rest 0 "[]"] assms
  by (simp add: spells_needle_def plain_needle_def match_at_def)

lemma fold_merge_some:
  "i \<in> set is \<Longrightarrow> c i = MatchFound e sps \<Longrightarrow> snd (fold (\<lambda>i. merge i (c i)) is st) \<noteq> None"
proof (induction "is" arbitrary: st)
  case (Cons j js)
  have keep: "snd st \<noteq> None \<Longrightarrow> snd (fold (\<lambda>i. merge i (c i)) ks st) \<noteq> None" for ks st
    by (induction ks arbitrary: st) (auto simp: merge_def split: match.splits)
  have "c j = MatchFound e sps \<Longrightarrow> snd (merge j (c j) st) \<noteq> None"
    by (auto simp: merge_def split: option.splits)
  with Cons.IH [of "merge j (c j) st"] Cons.prems keep [of "merge j (c j) st" js] show ?case
    by (cases "i = j") simp_all
qed simp

text \<open>Wherever such an occurrence starts, the scan finds a match.\<close>

lemma try_at_spelled:
  assumes inv: "scrubber_inv s" and n: "n \<in> set (sc_needles s)"
    and cs: "spells_needle n cs" "plain_needle n"
  shows "snd (try_at s f (spelled_text cs @ rest)) \<noteq> None"
proof -
  let ?data = "spelled_text cs @ rest"
  obtain i where i: "i < length (sc_needles s)" "sc_needles s ! i = n" using n by (auto simp: in_set_conv_nth)
  obtain a ws where ws: "n_runes n = a # ws" using cs(2) by (cases "n_runes n") (auto simp: plain_needle_def)
  with cs(1) obtain c ds where c: "cs = c # ds" "spells_char (n_fold n) c a"
    by (auto simp: spells_needle_def list_all2_Cons2)
  with cs(1) obtain r fm hc where sp: "c = Spelled [] r fm hc"
    by (cases c) (auto simp: spells_needle_def)
  with c have r: "reads_as (spell [] r fm hc) r" "equal_rune r a (n_fold n)" by (auto intro: reads_as_spell)
  have data: "?data = spell [] r fm hc @ spelled_text ds @ rest" by (simp add: c sp spelled_text_def)
  then obtain w x where t: "match_token ?data True f = Some (r, w, x)" and ne: "?data \<noteq> []"
    using r(1) by (auto simp: reads_as_def)
  have st: "i \<in> set (starting_with s r)"
    using inv i r(2) ws by (auto simp: scrubber_inv_def starts_needle_def)
  obtain sps where "candidate s ?data True f i = MatchFound (length (spelled_text cs)) sps"
    using match_at_spelled [OF cs, of rest f] i by (auto simp: candidate_def)
  from fold_merge_some [where c = "candidate s ?data True f" and st = "(False, None)", OF st this]
  have "snd (try_pass s f ?data True (False, None)) \<noteq> None"
    by (simp add: try_pass_merge [OF inv ne] t)
  then show ?thesis by (auto simp: try_at_def Let_def)
qed

section \<open>What passes through\<close>

text \<open>The scan of a complete text as a sequence of bytes copied and spans replaced.\<close>

datatype piece = Copied char | Replaced bytes bytes

function pieces :: "scrubber \<Rightarrow> bytes \<Rightarrow> piece list" where
  "pieces s [] = []"
| "pieces s (c # cs) =
    (case (if may_start s (c # cs) then snd (try_at s True (c # cs)) else None) of
       None \<Rightarrow> Copied c # pieces s cs
     | Some (en, i, sps) \<Rightarrow>
         if en = 0 then []
         else Replaced (take en (c # cs)) (encode_repl (sc_needles s ! i) sps) # pieces s (drop en (c # cs)))"
  by pat_completeness auto
termination
  by (relation "measure (\<lambda>(s, data). length data)") auto

declare pieces.simps(2) [simp del]

fun piece_source :: "piece \<Rightarrow> bytes" where
  "piece_source (Copied c) = [c]"
| "piece_source (Replaced src out) = src"

fun piece_output :: "piece \<Rightarrow> bytes" where
  "piece_output (Copied c) = [c]"
| "piece_output (Replaced src out) = out"

lemma pieces_cases:
  assumes inv: "scrubber_inv s"
  obtains (copy) "pieces s (c # cs) = Copied c # pieces s cs"
      "scan s True (c # cs) = (c # fst (scan s True cs), snd (scan s True cs))"
      "snd (try_at s True (c # cs)) = None \<or> \<not> may_start s (c # cs)"
  | (replace) en i sps where "pieces s (c # cs) =
        Replaced (take en (c # cs)) (encode_repl (sc_needles s ! i) sps) # pieces s (drop en (c # cs))"
      "scan s True (c # cs) = (encode_repl (sc_needles s ! i) sps @ fst (scan s True (drop en (c # cs))),
        snd (scan s True (drop en (c # cs))))" "1 \<le> en" "en \<le> Suc (length cs)"
  using inv
proof (cases rule: scan_cases [where c = c and cs = cs and f = True])
  case copy
  then have "pieces s (c # cs) = Copied c # pieces s cs" by (subst pieces.simps) auto
  with copy that(1) show thesis by (auto simp: scan_Cons_copy)
next
  case hold
  with try_at_final [OF inv, of "c # cs"] show thesis by simp
next
  case (replace en i sps)
  then have "pieces s (c # cs) =
      Replaced (take en (c # cs)) (encode_repl (sc_needles s ! i) sps) # pieces s (drop en (c # cs))"
    by (subst pieces.simps) auto
  with replace that(2) show thesis by (simp add: scan_Cons_replace)
qed

lemma pieces_scrub:
  assumes inv: "scrubber_inv s"
  shows "concat (map piece_source (pieces s data)) = data
    \<and> concat (map piece_output (pieces s data)) = scrub_text s data"
proof (induction "length data" arbitrary: data rule: less_induct)
  case less
  show ?case
  proof (cases data)
    case (Cons c cs)
    from inv show ?thesis
    proof (cases rule: pieces_cases [where c = c and cs = cs])
      case copy
      with less.hyps [of cs] Cons show ?thesis by (simp add: scrub_text_def)
    next
      case (replace en i sps)
      with less.hyps [of "drop en (c # cs)"] Cons show ?thesis by (simp add: scrub_text_def)
    qed
  qed (simp add: scrub_text_def)
qed

lemma pieces_suffix:
  assumes inv: "scrubber_inv s" and "pieces s data = ps @ qs"
  obtains rest where "pieces s rest = qs" and "rest = concat (map piece_source qs)"
  using assms(2)
proof (induction ps arbitrary: data thesis)
  case Nil
  then show ?case using pieces_scrub [OF inv, of data] by simp
next
  case (Cons p ps)
  obtain c cs where data: "data = c # cs" using Cons.prems(2) by (cases data) auto
  from inv show ?case
  proof (cases rule: pieces_cases [where c = c and cs = cs])
    case copy
    with Cons data show ?thesis by auto
  next
    case (replace en i sps)
    with Cons data show ?thesis by auto
  qed
qed

lemma copied_no_occurrence:
  assumes inv: "scrubber_inv s" and n: "n \<in> set (sc_needles s)"
    and cs: "spells_needle n cs" "plain_needle n"
    and p: "pieces s data = ps @ map Copied u @ qs"
  shows "\<not> sublist (spelled_text cs) u"
proof
  assume "sublist (spelled_text cs) u"
  then obtain a b where u: "u = a @ spelled_text cs @ b" by (auto simp: sublist_def)
  have "pieces s data = (ps @ map Copied a) @ map Copied (spelled_text cs @ b) @ qs" using p u by simp
  then obtain rest where rest: "pieces s rest = map Copied (spelled_text cs @ b) @ qs"
    and src: "rest = concat (map piece_source (map Copied (spelled_text cs @ b) @ qs))"
    by (rule pieces_suffix [OF inv])
  have "concat (map (\<lambda>c. [c]) xs) = xs" for xs :: bytes by (induction xs) auto
  with src have r: "rest = spelled_text cs @ b @ concat (map piece_source qs)" by (simp add: o_def)
  have found: "snd (try_at s True rest) \<noteq> None"
    using try_at_spelled [OF inv n cs, of True "b @ concat (map piece_source qs)"] r by simp
  obtain c ds where ne: "rest = c # ds" "spelled_text cs \<noteq> []"
  proof -
    have "spelled_text cs \<noteq> []"
    proof
      assume "spelled_text cs = []"
      with match_at_spelled [OF cs, of "[]" True] obtain sps where "match_at [] n True True = MatchFound 0 sps" by auto
      with cs(2) show False by (cases "n_runes n") (auto simp: match_at_def plain_needle_def)
    qed
    moreover from this r have "rest \<noteq> []" by simp
    then obtain c ds where "rest = c # ds" by (cases rest) simp_all
    ultimately show thesis by (intro that)
  qed
  then have "may_start s (c # ds)"
    using found found_may_start [OF inv, of rest True] by auto
  moreover from inv have "\<exists>x y qs. pieces s rest = Replaced x y # qs"
  proof (cases rule: pieces_cases [where c = c and cs = ds])
    case copy
    with found calculation ne show ?thesis by simp
  qed (use ne in auto)
  ultimately show False using rest ne by (cases "spelled_text cs") auto
qed

section \<open>The scrub of a stream\<close>

lemma scrub_reads_exhaust:
  assumes "list_all ((<) 0) ns" "length (reader_rest s r) < length ns"
  shows "fst (scrub_reads s ns r) = reader_rest s r"
  using assms
proof (induction ns arbitrary: r)
  case (Cons n ns)
  obtain r' res where r: "scrub_read s n r = (r', res)" by (metis prod.exhaust)
  show ?case
  proof (cases res)
    case None
    with scrub_read_rest(2) [OF r] r show ?thesis by simp
  next
    case (Some bs)
    with scrub_read_progress [of s n r r' bs] r Cons.prems have "bs \<noteq> []" by simp
    with scrub_read_rest(1) [OF r] Some Cons.prems Cons.IH [of r'] r show ?thesis
      by (cases bs) (auto split: prod.splits)
  qed
qed simp

lemma reader_rest_new: "reader_rest (new_scrubber pairs) (new_scrub_reader chunks lst) =
    scrub_text (new_scrubber pairs) (concat chunks @ lst)"
  by (simp add: reader_rest_def new_scrub_reader_def scrub_rest_text scrubber_inv_new)

text \<open>
  C3: However a body arrives in chunks and however large the reads are, reading it through the
  scrubbing reader yields exactly the scrub of the whole body: what any sequence of reads has
  returned is a prefix of it, and enough reads of at least one byte return all of it.
\<close>

theorem scrub_stream_text:
  assumes "list_all ((<) 0) ns"
    and "length (scrub_text (new_scrubber pairs) (concat chunks @ lst)) < length ns"
  shows "fst (scrub_reads (new_scrubber pairs) ns (new_scrub_reader chunks lst)) =
      scrub_text (new_scrubber pairs) (concat chunks @ lst)
    \<and> (\<forall>ms. prefix (fst (scrub_reads (new_scrubber pairs) ms (new_scrub_reader chunks lst)))
        (scrub_text (new_scrubber pairs) (concat chunks @ lst)))"
proof -
  have "prefix (fst (scrub_reads (new_scrubber pairs) ms (new_scrub_reader chunks lst)))
      (scrub_text (new_scrubber pairs) (concat chunks @ lst))" for ms
    using scrub_reads_rest [of "new_scrubber pairs" "new_scrub_reader chunks lst" ms]
    by (metis prefixI reader_rest_new)
  with scrub_reads_exhaust [OF assms(1), of "new_scrubber pairs" "new_scrub_reader chunks lst"] assms(2)
  show ?thesis by (simp add: reader_rest_new)
qed

definition key_pair :: scrub_pair where
  "key_pair = \<lparr>pair_needle = ''key-9'', pair_repl = ''PLACE'', pair_fold = False\<rparr>"

lemma key_text: "scrub_text (new_scrubber [key_pair]) ''a k%65y-9 b'' = ''a PLACE b''"
  unfolding scrub_text_eval by code_simp

theorem scrub_stream_text_witness:
  "fst (scrub_reads (new_scrubber [key_pair]) (replicate 20 3)
      (new_scrub_reader [''a k%6'', ''5y''] ''-9 b'')) = ''a PLACE b''"
  using scrub_stream_text [of "replicate 20 3" "[key_pair]" "[''a k%6'', ''5y'']" "''-9 b''"]
  by (simp add: key_text numeral_Bit0 numeral_Bit1)

text \<open>
  C19: A character written literally or in any of the escape forms is read back, with its
  whole width, whatever follows it.
\<close>

theorem match_token_spell:
  assumes "writes_form r f"
  shows "\<exists>sp. match_token (spell [] r f hc @ rest) True final = Some (r, length (spell [] r f hc), sp)"
  using reads_as_spell [OF assms, of hc] by (auto simp: reads_as_def)

theorem match_token_spell_witness:
  "\<exists>sp. match_token (spell [] 0x20AC FormPercent UpperCase @ ''x'') True False =
    Some (0x20AC, length (spell [] 0x20AC FormPercent UpperCase), sp)"
  by (rule match_token_spell) code_simp

text \<open>
  C4: A plain needle, one without the characters that start an escape (percent sign, backslash,
  ampersand) and without format characters of its own, spelled in any mixture of the forms and
  with up to sixteen format characters between its characters, never survives in the bytes that
  the scrub passes through: the scrubbed text is the pieces the scan copied and the replacements
  it made, and no run of copied bytes contains such a spelling.
\<close>

theorem scrub_hides_spelled:
  assumes "p \<in> set pairs" "plain_needle (needle_of p)" "spells_needle (needle_of p) cs"
  shows "concat (map piece_source (pieces (new_scrubber pairs) data)) = data
    \<and> concat (map piece_output (pieces (new_scrubber pairs) data)) = scrub_text (new_scrubber pairs) data
    \<and> (\<forall>before run after. pieces (new_scrubber pairs) data = before @ map Copied run @ after \<longrightarrow>
        \<not> sublist (spelled_text cs) run)"
proof -
  have "needle_of p \<in> set (sc_needles (new_scrubber pairs))"
    using assms(1,2) by (auto simp: new_scrubber_needles plain_needle_def)
  with copied_no_occurrence [of "new_scrubber pairs" "needle_of p" cs data]
    pieces_scrub [of "new_scrubber pairs" data] assms(2,3)
  show ?thesis by (simp add: scrubber_inv_new)
qed

theorem scrub_hides_spelled_witness:
  "\<nexists>before run after. pieces (new_scrubber [key_pair]) ''a k%65y-9 b'' = before @ map Copied run @ after
    \<and> sublist (spelled_text [Spelled [] 0x6B FormLiteral LowerCase, Spelled [(0x200B, FormPercent, UpperCase)] 0x65 FormPercent LowerCase,
      Spelled [] 0x79 FormLiteral LowerCase, Spelled [] 0x2D FormHTMLDec LowerCase, Spelled [] 0x39 FormJSONU LowerCase]) run"
proof -
  let ?cs = "[Spelled [] 0x6B FormLiteral LowerCase, Spelled [(0x200B, FormPercent, UpperCase)] 0x65 FormPercent LowerCase,
      Spelled [] 0x79 FormLiteral LowerCase, Spelled [] 0x2D FormHTMLDec LowerCase, Spelled [] 0x39 FormJSONU LowerCase]"
  have "plain_needle (needle_of key_pair)" by code_simp
  moreover have "spells_needle (needle_of key_pair) ?cs" by code_simp
  ultimately show ?thesis
    using scrub_hides_spelled [of key_pair "[key_pair]" ?cs "''a k%65y-9 b''"] by auto
qed

text \<open>
  Between reads the scrub holds back fewer bytes than one token, or fewer than the longest
  spelling of one of its needles, and at the end of the stream it holds back nothing.
\<close>

theorem scan_held_bound:
  "snd (scan (new_scrubber pairs) final data)
      < Max (insert max_token (needle_span ` set (sc_needles (new_scrubber pairs))))
    \<and> snd (scan (new_scrubber pairs) True data) = 0"
proof -
  have "0 < max_token" by (simp add: max_token_def)
  with scan_held [OF scrubber_inv_new, of pairs final data]
    scan_final_held [OF scrubber_inv_new, of pairs data] show ?thesis
    by (simp only: conj_commute) (auto simp: Max_gr_iff)
qed

end
