(* ===== verification/Scrub_Forms.thy ===== *)
theory Scrub_Forms
  imports Scrub_Detect Go_Encoding
begin

text \<open>
  The forms of a secret a response must not carry (\<^verbatim>\<open>scrubPairsFor\<close> in
  \<^verbatim>\<open>internal/transform/secrets/scrub.go\<close>): the value, its hex text, its reverse, its rot13, and
  the parts of its base64 and base32 texts that do not depend on what surrounds it. The
  lemmas show that one of these parts occurs in the encoding of every text that contains
  the value.
\<close>

definition min_fragment :: nat where
  "min_fragment = 8"

definition reverse_text :: "string \<Rightarrow> string" where
  "reverse_text v = string_of_runes (rev (runes_of v))"

definition rot13_rune :: "nat \<Rightarrow> nat" where
  "rot13_rune r =
    (if 97 \<le> r \<and> r \<le> 122 then 97 + (r - 97 + 13) mod 26
     else if 65 \<le> r \<and> r \<le> 90 then 65 + (r - 65 + 13) mod 26
     else r)"

definition rot13 :: "string \<Rightarrow> string" where
  "rot13 v = string_of_runes (map rot13_rune (runes_of v))"

definition fragment :: "(bytes \<Rightarrow> string) \<Rightarrow> nat \<Rightarrow> bytes \<Rightarrow> nat \<Rightarrow> string" where
  "fragment encode bits value pad =
    (let encoded = encode (replicate pad (CHR 0x00) @ value);
         start = (8 * pad + bits - 1) div bits;
         end = 8 * (pad + length value) div bits
     in if end \<le> start then [] else take (end - start) (drop start encoded))"

definition derived :: "string \<Rightarrow> string \<Rightarrow> string \<Rightarrow> bool \<Rightarrow> scrub_pair list \<Rightarrow> scrub_pair list" where
  "derived realValue needle repl fd pairs =
    (if rune_count needle < min_fragment \<or> repl = [] \<or> needle = realValue then pairs
     else if list_ex (\<lambda>p. pair_needle p = needle) pairs then pairs
     else pairs @ [\<lparr>pair_needle = needle, pair_repl = repl, pair_fold = fd\<rparr>])"

definition base32_lower :: "string \<Rightarrow> bytes \<Rightarrow> string" where
  "base32_lower alphabet b = to_lower (base32_encode alphabet b)"

text \<open>The forms in the order they are added, each of the value and of the placeholder.\<close>

definition scrub_forms :: "string \<Rightarrow> string \<Rightarrow> (string \<times> string \<times> bool) list" where
  "scrub_forms realValue placeholder =
    [(hex_encode realValue, hex_encode placeholder, True),
     (reverse_text realValue, reverse_text placeholder, False),
     (rot13 realValue, rot13 placeholder, False)]
    @ concat (map (\<lambda>alphabet. map (\<lambda>pad.
        (fragment (encode_groups 6 alphabet) 6 realValue pad,
         fragment (encode_groups 6 alphabet) 6 placeholder pad, False)) [0, 1, 2])
      [base64_std, base64_url])
    @ concat (map (\<lambda>alphabet. map (\<lambda>pad.
        (fragment (base32_lower alphabet) 5 realValue pad,
         fragment (base32_lower alphabet) 5 placeholder pad, True)) [0, 1, 2, 3, 4])
      [base32_std, base32_hex])"

definition scrub_pairs_for :: "string \<Rightarrow> string \<Rightarrow> scrub_pair list" where
  "scrub_pairs_for realValue placeholder =
    (if realValue = [] then []
     else fold (\<lambda>(needle, repl, fd). derived realValue needle repl fd) (scrub_forms realValue placeholder)
            [\<lparr>pair_needle = realValue, pair_repl = placeholder, pair_fold = False\<rparr>])"

section \<open>Every form is a needle\<close>

lemma derived_keeps: "p \<in> set pairs \<Longrightarrow> p \<in> set (derived v n r f pairs)"
  by (simp add: derived_def)

lemma fold_derived_keeps:
  "p \<in> set pairs \<Longrightarrow> p \<in> set (fold (\<lambda>(n, r, f). derived v n r f) fs pairs)"
  by (induction fs arbitrary: pairs) (auto simp: derived_keeps)

lemma fold_derived_has:
  assumes "(n, r, f) \<in> set fs" "min_fragment \<le> rune_count n" "r \<noteq> []" "\<exists>p \<in> set pairs. pair_needle p = v"
  shows "\<exists>p \<in> set (fold (\<lambda>(n, r, f). derived v n r f) fs pairs). pair_needle p = n"
  using assms
proof (induction fs arbitrary: pairs)
  case (Cons x fs)
  obtain n' r' f' where x: "x = (n', r', f')" by (metis prod_cases3)
  have has_v: "\<exists>p \<in> set (derived v n' r' f' pairs). pair_needle p = v"
    using Cons.prems(4) derived_keeps by blast
  show ?case
  proof (cases "x = (n, r, f)")
    case True
    with Cons.prems have "\<exists>p \<in> set (derived v n r f pairs). pair_needle p = n"
      by (auto simp: derived_def list_ex_iff)
    with True fold_derived_keeps show ?thesis by fastforce
  next
    case False
    with Cons.prems(1) have "(n, r, f) \<in> set fs" by auto
    from Cons.IH [OF this Cons.prems(2,3) has_v] x show ?thesis by simp
  qed
qed simp

lemma derived_origin:
  "q \<in> set (derived v n r f pairs) \<Longrightarrow>
    q \<in> set pairs \<or> pair_needle q = n \<and> pair_fold q = f \<and> min_fragment \<le> rune_count n"
  by (auto simp: derived_def split: if_splits)

lemma fold_derived_origin:
  "q \<in> set (fold (\<lambda>(n, r, f). derived v n r f) fs pairs) \<Longrightarrow>
    q \<in> set pairs \<or> (\<exists>r. (pair_needle q, r, pair_fold q) \<in> set fs) \<and> min_fragment \<le> rune_count (pair_needle q)"
proof (induction fs arbitrary: pairs)
  case (Cons x fs)
  obtain n r f where x: "x = (n, r, f)" by (metis prod_cases3)
  with Cons.prems have "q \<in> set (fold (\<lambda>(n, r, f). derived v n r f) fs (derived v n r f pairs))" by simp
  from Cons.IH [OF this] derived_origin [of q v n r f pairs] x show ?case by auto
qed simp

lemma scrub_pairs_origin:
  assumes "q \<in> set (scrub_pairs_for v ph)"
  obtains "pair_needle q = v" "\<not> pair_fold q"
  | r where "(pair_needle q, r, pair_fold q) \<in> set (scrub_forms v ph)" "min_fragment \<le> rune_count (pair_needle q)"
  using assms fold_derived_origin [of q v "scrub_forms v ph"]
  by (fastforce simp: scrub_pairs_for_def split: if_splits)

lemma scrub_pairs_has:
  assumes "(n, r, f) \<in> set (scrub_forms v ph)" "min_fragment \<le> rune_count n" "r \<noteq> []" "v \<noteq> []"
  shows "\<exists>p \<in> set (scrub_pairs_for v ph). pair_needle p = n"
  using fold_derived_has [OF assms(1-3)] assms(4) by (simp add: scrub_pairs_for_def)

lemma scrub_pairs_value:
  assumes "v \<noteq> []"
  shows "\<lparr>pair_needle = v, pair_repl = ph, pair_fold = False\<rparr> \<in> set (scrub_pairs_for v ph)"
  using assms by (simp add: scrub_pairs_for_def fold_derived_keeps)

section \<open>Fragments\<close>

text \<open>The characters \<open>fragment\<close> selects, for an encoder that works by groups.\<close>

lemma ceil_div_le:
  assumes "0 < k" "(a + k - 1) div k \<le> i"
  shows "a \<le> k * (i :: nat)"
proof -
  from assms(2) have "(a + k - 1) div k < Suc i" by simp
  with assms(1) have "a + k - 1 < Suc i * k" by (simp add: div_less_iff_less_mult)
  with assms(1) show ?thesis by (simp add: algebra_simps)
qed

lemma floor_div_ge:
  assumes "0 < k" "Suc i \<le> a div k"
  shows "k * Suc i \<le> (a :: nat)"
  using assms by (metis less_eq_div_iff_mult_less_eq mult.commute)

lemma take_drop_nth:
  "n + m \<le> length xs \<Longrightarrow> take m (drop n xs) = map (\<lambda>i. xs ! (n + i)) [0..<m]"
  by (rule nth_equalityI) auto

lemma sublist_nth:
  assumes "\<And>i. i < m \<Longrightarrow> n + i < length xs \<and> xs ! (n + i) = ys ! i" "length ys = m"
  shows "sublist ys xs"
proof -
  have "n + m \<le> length xs \<or> m = 0" using assms(1) [of "m - 1"] by (cases m) auto
  then show ?thesis
  proof
    assume "n + m \<le> length xs"
    then have "take m (drop n xs) = ys"
      using assms by (intro nth_equalityI) auto
    then show ?thesis by (metis sublist_drop sublist_take sublist_order.order.trans)
  qed (use assms(2) in simp)
qed

lemma fragment_sublist:
  assumes k: "0 < k" and q: "8 * length pre = 8 * pad + k * q"
    and enc: "\<And>s. prefix (map h (encode_groups k a s)) (encode s)"
  shows "sublist (fragment encode k v pad) (map h (encode_groups k a (pre @ v @ post)))"
proof -
  let ?start = "(8 * pad + k - 1) div k"
  let ?stop = "8 * (pad + length v) div k"
  let ?pad = "replicate pad (CHR 0x00)"
  let ?e = "map h (encode_groups k a (?pad @ v))"
  have "length (encode_groups k a (?pad @ v)) = (8 * (pad + length v) + k - 1) div k"
    using k by (simp add: encode_groups_def length_bit_groups algebra_simps)
  moreover have "?stop \<le> (8 * (pad + length v) + k - 1) div k" using k by (intro div_le_mono) auto
  ultimately have len: "?stop \<le> length ?e" by simp
  obtain t where t: "encode (?pad @ v) = ?e @ t" using enc [of "?pad @ v"] by (auto simp: prefix_def)
  show ?thesis
  proof (cases "?stop \<le> ?start")
    case False
    then have f: "fragment encode k v pad = take (?stop - ?start) (drop ?start ?e)"
      using t len by (simp add: fragment_def Let_def)
    show ?thesis unfolding f
    proof (rule sublist_nth [where n = "q + ?start"])
      fix i
      assume i: "i < ?stop - ?start"
      have "8 * pad \<le> k * (?start + i)" by (rule ceil_div_le [OF k]) simp
      moreover have "k * Suc (?start + i) \<le> 8 * (pad + length v)" using i by (intro floor_div_ge [OF k]) auto
      ultimately have s: "q + (?start + i) < length (encode_groups k a (pre @ v @ post))"
          "encode_groups k a (pre @ v @ post) ! (q + (?start + i)) = encode_groups k a (?pad @ v) ! (?start + i)"
        using encode_groups_shift [OF k, of pre ?pad q "?start + i" v a post] q by simp_all
      then show "q + ?start + i < length (map h (encode_groups k a (pre @ v @ post)))
          \<and> map h (encode_groups k a (pre @ v @ post)) ! (q + ?start + i) = take (?stop - ?start) (drop ?start ?e) ! i"
        using i len by (simp add: add.assoc)
    qed (use len False in auto)
  qed (simp add: fragment_def)
qed

section \<open>Encodings of the value are found\<close>

definition plain_char :: "char \<Rightarrow> bool" where
  "plain_char c \<longleftrightarrow> byte c < rune_self \<and> \<not> is_escape_start c"

lemma decode_runes_ascii_text: "list_all (\<lambda>c. byte c < rune_self) t \<Longrightarrow> decode_runes t = map of_char t"
  by (induction t) (auto simp: rune_error_def rune_self_def)

lemma decode_runes_ascii: "list_all plain_char t \<Longrightarrow> decode_runes t = map of_char t"
  by (rule decode_runes_ascii_text) (auto simp: plain_char_def list_all_iff)

lemma rune_count_ascii: "list_all plain_char t \<Longrightarrow> rune_count t = length t"
  unfolding rune_count_def
  by (induction t) (auto simp: plain_char_def)

lemma plain_char_facts:
  assumes "plain_char c"
  shows "\<not> is_escape_rune (byte c)" "\<not> is_gap (byte c)" "writes_form (byte c) FormLiteral"
    "spell [] (byte c) FormLiteral hc = [c]"
  using assms
  by (auto simp: plain_char_def is_escape_start_def is_escape_rune_def is_gap_def rune_self_def writes_form_def
      valid_rune_def spell_def append_rune_def max_rune_def encode_rune_def surrogate_def char_eq_byte)

lemma spelled_plain:
  "list_all plain_char t \<Longrightarrow> spelled_text (map (\<lambda>c. Spelled [] (byte c) FormLiteral NoCase) t) = t"
  by (induction t) (auto simp: spelled_text_def plain_char_facts)

lemma plain_text_needle:
  assumes "list_all plain_char (pair_needle p)" "pair_needle p \<noteq> []"
  defines "cs \<equiv> map (\<lambda>c. Spelled [] (byte c) FormLiteral NoCase) (pair_needle p)"
  shows "plain_needle (needle_of p)" "spells_needle (needle_of p) cs" "spelled_text cs = pair_needle p"
proof -
  have r: "n_runes (needle_of p) = map of_char (pair_needle p)"
    using assms(1) by (simp add: needle_of_def decode_runes_ascii)
  show "plain_needle (needle_of p)"
    using assms(1,2) by (auto simp: plain_needle_def r list_all_iff plain_char_facts)
  show "spells_needle (needle_of p) cs"
    using assms(1,2) unfolding spells_needle_def r cs_def
    by (cases "pair_needle p") (auto simp: list_all2_map1 list_all2_map2 list_all2_same plain_char_facts
        equal_rune_def list_all_iff)
  show "spelled_text cs = pair_needle p"
    using assms(1) by (simp add: cs_def spelled_plain)
qed

lemma copied_no_plain_needle:
  assumes "p \<in> set pairs" "list_all plain_char (pair_needle p)" "pair_needle p \<noteq> []"
    and "pieces (new_scrubber pairs) data = before @ map Copied run @ after"
  shows "\<not> sublist (pair_needle p) run"
proof -
  note n = plain_text_needle [OF assms(2,3)]
  have "needle_of p \<in> set (sc_needles (new_scrubber pairs))"
    using assms(1) n(1) by (auto simp: new_scrubber_needles plain_needle_def)
  from copied_no_occurrence [OF scrubber_inv_new this n(2,1) assms(4)] n(3) show ?thesis by simp
qed

text \<open>A needle that folds case is found in any case.\<close>

lemma plain_lower:
  assumes "plain_char (lower_char c)"
  shows "plain_char c" "equal_rune (byte c) (byte (lower_char c)) True"
  using assms
  by (auto simp: plain_char_def lower_char_def equal_rune_def lower_rune_def is_escape_start_def rune_self_def split: if_splits)

lemma folded_text_needle:
  assumes "list_all plain_char (pair_needle p)" "pair_needle p \<noteq> []" "pair_fold p" "to_lower t = pair_needle p"
  defines "cs \<equiv> map (\<lambda>c. Spelled [] (byte c) FormLiteral NoCase) t"
  shows "spells_needle (needle_of p) cs" "spelled_text cs = t"
proof -
  have lt: "pair_needle p = map lower_char t" using assms(4) by (simp add: to_lower_def)
  then have pt: "list_all plain_char t" and eq: "list_all (\<lambda>c. equal_rune (byte c) (byte (lower_char c)) True) t"
    using assms(1) plain_lower by (auto simp: list_all_iff)
  have r: "n_runes (needle_of p) = map of_char (map lower_char t)"
    using assms(1) lt by (simp add: needle_of_def decode_runes_ascii)
  have "n_fold (needle_of p)" using assms(3) by (simp add: needle_of_def)
  then show "spells_needle (needle_of p) cs"
    using pt eq unfolding spells_needle_def r cs_def
    by (cases t) (auto simp: list_all2_map1 list_all2_map2 list_all2_same plain_char_facts list_all_iff)
  show "spelled_text cs = t" using pt by (simp add: cs_def spelled_plain)
qed

lemma copied_no_folded_needle:
  assumes "p \<in> set pairs" "list_all plain_char (pair_needle p)" "pair_needle p \<noteq> []" "pair_fold p"
    and "sublist (pair_needle p) (to_lower t)"
    and "pieces (new_scrubber pairs) data = before @ map Copied run @ after"
  shows "\<not> sublist t run"
proof -
  from assms(5) obtain a b where "map lower_char t = a @ pair_needle p @ b" by (auto simp: sublist_def to_lower_def)
  then obtain x yz where xy: "t = x @ yz" "pair_needle p @ b = map lower_char yz"
    by (auto simp: map_eq_append_conv)
  then obtain y z where "yz = y @ z" and y: "to_lower y = pair_needle p"
    by (auto simp: append_eq_map_conv to_lower_def)
  with xy have t: "t = x @ y @ z" by simp
  note n = folded_text_needle [OF assms(2-4) y]
  have "needle_of p \<in> set (sc_needles (new_scrubber pairs))"
    using assms(1) plain_text_needle(1) [OF assms(2,3)] by (auto simp: new_scrubber_needles plain_needle_def)
  from copied_no_occurrence [OF scrubber_inv_new this n(1) plain_text_needle(1) [OF assms(2,3)] assms(6)] n(2)
  have "\<not> sublist y run" by simp
  then show ?thesis unfolding t by (metis sublist_appendI sublist_order.order.trans)
qed

text \<open>The encoders of the forms, and the fragments as needles.\<close>

lemma alphabets_plain:
  "list_all plain_char base64_std" "list_all plain_char base64_url"
  "list_all plain_char (to_lower base32_std)" "list_all plain_char (to_lower base32_hex)"
  "list_all plain_char ''0123456789abcdef''"
  "length base64_url = 64" "length base32_std = 32" "length base32_hex = 32"
  by code_simp+

lemma encode_groups_set:
  assumes "0 < k" "length a = 2 ^ k"
  shows "set (encode_groups k a s) \<subseteq> set a"
proof
  fix c
  assume "c \<in> set (encode_groups k a s)"
  then obtain g where g: "g \<in> set (bit_groups k (text_bits s))" "c = a ! bits_val g"
    by (auto simp: encode_groups_def)
  from bit_groups_length [OF assms(1) g(1)] bits_val_less [of g] assms(2) g(2) show "c \<in> set a" by simp
qed

lemma fragment_set:
  assumes "0 < k" "length a = 2 ^ k" and "\<And>s. prefix (map h (encode_groups k a s)) (encode s)"
    and "list_all plain_char (map h a)"
  shows "list_all plain_char (fragment encode k v pad)"
proof -
  have "sublist (fragment encode k v pad) (map h (encode_groups k a (replicate pad (CHR 0x00) @ v @ [])))"
    by (rule fragment_sublist [where q = 0]) (use assms in auto)
  then have "set (fragment encode k v pad) \<subseteq> h ` set a"
    using set_mono_sublist encode_groups_set [OF assms(1,2)] by fastforce
  with assms(4) show ?thesis by (auto simp: list_all_iff)
qed

lemma fragment_length:
  assumes "0 < k" "\<And>s. length (encode_groups k a s) \<le> length (encode s)"
  shows "length (fragment encode k v pad) = 8 * (pad + length v) div k - (8 * pad + k - 1) div k"
proof -
  have "length (encode_groups k a (replicate pad (CHR 0x00) @ v)) = (8 * (pad + length v) + k - 1) div k"
    using assms(1) by (simp add: encode_groups_def length_bit_groups algebra_simps)
  moreover have "8 * (pad + length v) div k \<le> (8 * (pad + length v) + k - 1) div k"
    using assms(1) by (intro div_le_mono) auto
  ultimately have "8 * (pad + length v) div k \<le> length (encode (replicate pad (CHR 0x00) @ v))"
    using assms(2) [of "replicate pad (CHR 0x00) @ v"] by simp
  then show ?thesis by (simp add: fragment_def Let_def)
qed

definition form_encoders :: "(nat \<times> nat \<times> string \<times> (char \<Rightarrow> char) \<times> (bytes \<Rightarrow> string)) list" where
  "form_encoders =
    [(6, 3, base64_std, id, encode_groups 6 base64_std), (6, 3, base64_url, id, encode_groups 6 base64_url),
     (5, 5, base32_std, lower_char, base32_lower base32_std), (5, 5, base32_hex, lower_char, base32_lower base32_hex)]"

lemma less_3_cases: "(n :: nat) < 3 \<Longrightarrow> n = 0 \<or> n = 1 \<or> n = 2"
  by auto

lemma less_5_cases: "(n :: nat) < 5 \<Longrightarrow> n = 0 \<or> n = 1 \<or> n = 2 \<or> n = 3 \<or> n = 4"
  by auto

lemma fragment_grows:
  assumes "m \<le> n" "c \<le> 8 * (pad + m) div k - d"
  shows "c \<le> 8 * (pad + n) div k - (d :: nat)"
proof -
  have "8 * (pad + m) div k \<le> 8 * (pad + n) div k" using assms(1) by (intro div_le_mono) auto
  with assms(2) show ?thesis by linarith
qed

lemma form_encoders_cases:
  assumes "(k, p, a, h, encode) \<in> set form_encoders"
  obtains (six) "k = 6" "p = 3" "h = id" "a \<in> {base64_std, base64_url}" "encode = encode_groups 6 a"
  | (five) "k = 5" "p = 5" "h = lower_char" "a \<in> {base32_std, base32_hex}" "encode = base32_lower a"
  using assms by (auto simp: form_encoders_def)

lemma form_encoders_basic:
  assumes "(k, p, a, h, encode) \<in> set form_encoders"
  shows "0 < k" "0 < p" "k dvd 8 * p" "length a = 2 ^ k" "list_all plain_char (map h a)"
    "prefix (map h (encode_groups k a s)) (encode s)"
  using assms
  by (cases rule: form_encoders_cases; auto simp: alphabets_plain base64_std_props base32_lower_def base32_encode_def
      pad_to_def to_lower_def [symmetric])+

lemma form_encoders_length:
  assumes "(k, p, a, h, encode) \<in> set form_encoders" "pad < p"
  shows "7 \<le> n \<Longrightarrow> 8 \<le> 8 * (pad + n) div k - (8 * pad + k - 1) div k"
    "2 \<le> n \<Longrightarrow> 1 \<le> 8 * (pad + n) div k - (8 * pad + k - 1) div k"
proof -
  from assms have "8 \<le> 8 * (pad + 7) div k - (8 * pad + k - 1) div k
      \<and> 1 \<le> 8 * (pad + 2) div k - (8 * pad + k - 1) div k"
    by (cases rule: form_encoders_cases) (auto dest!: less_3_cases less_5_cases)
  then show "7 \<le> n \<Longrightarrow> 8 \<le> 8 * (pad + n) div k - (8 * pad + k - 1) div k"
    "2 \<le> n \<Longrightarrow> 1 \<le> 8 * (pad + n) div k - (8 * pad + k - 1) div k"
    using fragment_grows by blast+
qed

lemma in_concat_map: "\<lbrakk>a \<in> set as; x \<in> set xs\<rbrakk> \<Longrightarrow> f a x \<in> set (concat (map (\<lambda>a. map (f a) xs) as))"
  by auto

lemma form_encoders_forms:
  assumes "(k, p, a, h, encode) \<in> set form_encoders" "pad < p"
  shows "\<exists>f. (fragment encode k v pad, fragment encode k ph pad, f) \<in> set (scrub_forms v ph)"
  using assms
proof (cases rule: form_encoders_cases)
  case six
  with assms(2) less_3_cases [of pad] have "a \<in> set [base64_std, base64_url]" "pad \<in> set [0, 1, 2]" by auto
  from in_concat_map [OF this, of "\<lambda>a pad. (fragment (encode_groups 6 a) 6 v pad, fragment (encode_groups 6 a) 6 ph pad, False)"]
  have "(fragment (encode_groups 6 a) 6 v pad, fragment (encode_groups 6 a) 6 ph pad, False) \<in> set (scrub_forms v ph)"
    unfolding scrub_forms_def set_append Un_iff by (rule disjI2 [OF disjI1])
  with six show ?thesis by (simp only:) (rule exI)
next
  case five
  with assms(2) less_5_cases [of pad] have "a \<in> set [base32_std, base32_hex]" "pad \<in> set [0, 1, 2, 3, 4]" by auto
  from in_concat_map [OF this, of "\<lambda>a pad. (fragment (base32_lower a) 5 v pad, fragment (base32_lower a) 5 ph pad, True)"]
  have "(fragment (base32_lower a) 5 v pad, fragment (base32_lower a) 5 ph pad, True) \<in> set (scrub_forms v ph)"
    unfolding scrub_forms_def set_append Un_iff by (rule disjI2 [OF disjI2])
  with five show ?thesis by (simp only:) (rule exI)
qed

text \<open>The long forms fold case: no other form has as many plain characters.\<close>

lemma plain_rune_length: "list_all plain_char (encode_rune r) \<Longrightarrow> length (encode_rune r) = 1"
  by (auto simp: encode_rune_def Let_def plain_char_def rune_self_def split: if_splits)

lemma plain_runes_length: "list_all plain_char (string_of_runes rs) \<Longrightarrow> length (string_of_runes rs) = length rs"
  by (induction rs) (auto simp: string_of_runes_def plain_rune_length)

lemma runes_of_length: "length (runes_of s) \<le> length s"
proof (induction s rule: runes_of.induct)
  case (2 c cs)
  have "0 < snd (decode_rune (c # cs))" by (rule decode_rune_size_pos) simp
  with 2 show ?case by simp
qed simp

lemma base64_fragment_length: "6 * length (fragment (encode_groups 6 a) 6 v pad) \<le> 8 * length v"
proof -
  have "length (fragment (encode_groups 6 a) 6 v pad) = 8 * (pad + length v) div 6 - (8 * pad + 6 - 1) div 6"
    by (rule fragment_length [of 6 a]) simp_all
  then show ?thesis by (simp add: algebra_simps)
qed

lemma form_folds:
  assumes "(n, r, f) \<in> set (scrub_forms v ph)" "list_all plain_char n" "8 * length v < 6 * length n"
  shows f
proof (rule ccontr)
  assume "\<not> f"
  with assms(1) consider "n = reverse_text v" | "n = rot13 v" | a pad where "n = fragment (encode_groups 6 a) 6 v pad"
    by (auto simp: scrub_forms_def)
  then have "6 * length n \<le> 8 * length v"
  proof cases
    case 3
    then show ?thesis by (simp add: base64_fragment_length)
  qed (use assms(2) plain_runes_length runes_of_length [of v] in \<open>auto simp: reverse_text_def rot13_def\<close>)
  with assms(3) show False by simp
qed

lemma scrub_pairs_fold:
  assumes "q \<in> set (scrub_pairs_for v ph)" "list_all plain_char (pair_needle q)" "8 * length v < 6 * length (pair_needle q)"
  shows "pair_fold q"
proof -
  from assms(3) have "pair_needle q \<noteq> v" by auto
  with assms(1) obtain r where "(pair_needle q, r, pair_fold q) \<in> set (scrub_forms v ph)" by (auto elim: scrub_pairs_origin)
  from form_folds [OF this assms(2,3)] show ?thesis .
qed

lemma base32_fragment_long:
  assumes "7 \<le> n"
  shows "8 * n < 6 * (8 * (pad + n) div 5 - (8 * pad + 5 - 1) div (5 :: nat))"
  using assms by (simp add: algebra_simps)

lemma form_encoders_needle:
  assumes e: "(k, p, a, h, encode) \<in> set form_encoders" and v: "7 \<le> length v" and ph: "2 \<le> length ph"
  shows "\<exists>q \<in> set (scrub_pairs_for v ph). list_all plain_char (pair_needle q) \<and> pair_needle q \<noteq> []
    \<and> (k = 5 \<longrightarrow> pair_fold q) \<and> sublist (pair_needle q) (encode (pre @ v @ post))"
proof -
  note b = form_encoders_basic [OF e]
  let ?pad = "length pre mod p"
  have pad: "?pad < p" using b(2) by simp
  have le: "length (encode_groups k a s) \<le> length (encode s)" for s
    using prefix_length_le [OF b(6) [of s]] by simp
  note len = fragment_length [OF b(1) le]
  let ?f = "fragment encode k v ?pad"
  have plain: "list_all plain_char ?f" by (rule fragment_set [OF b(1,4,6,5)])
  have "8 \<le> length ?f" using form_encoders_length(1) [OF e pad v] by (simp add: len)
  then have n: "min_fragment \<le> rune_count ?f" "?f \<noteq> []"
    by (auto simp: rune_count_ascii [OF plain] min_fragment_def)
  have "fragment encode k ph ?pad \<noteq> []"
    using form_encoders_length(2) [OF e pad ph] len [of ph ?pad] by auto
  with form_encoders_forms [OF e pad] n(1) v
  obtain q where q: "q \<in> set (scrub_pairs_for v ph)" "pair_needle q = ?f"
    using scrub_pairs_has [of ?f "fragment encode k ph ?pad" _ v ph] by fastforce
  obtain d where d: "8 * p = k * d" using b(3) by (auto elim: dvdE)
  have "8 * length pre = 8 * ?pad + k * (d * (length pre div p))"
  proof -
    have "8 * length pre = 8 * ?pad + 8 * p * (length pre div p)"
      by (metis add_mult_distrib2 mod_mult_div_eq mult.assoc)
    with d show ?thesis by (simp add: mult.assoc)
  qed
  from fragment_sublist [OF b(1) this b(6)] have "sublist ?f (map h (encode_groups k a (pre @ v @ post)))" .
  then have "sublist ?f (encode (pre @ v @ post))"
    using b(6) [of "pre @ v @ post"] prefix_imp_sublist sublist_order.order.trans by blast
  moreover have "pair_fold q" if "k = 5"
    using scrub_pairs_fold [OF q(1)] q(2) plain base32_fragment_long [OF v, of ?pad] len [of v ?pad] that by simp
  ultimately show ?thesis using q plain n(2) by (intro bexI [of _ q]) simp_all
qed

lemma hex_encode_simps [simp]: "hex_encode [] = []" "hex_encode (c # s) = hex_encode [c] @ hex_encode s"
proof -
  show "hex_encode [] = []" by (simp add: hex_encode_def encode_groups_def)
  have g: "bit_groups 4 (byte_bits c @ bs) = take 4 (byte_bits c) # drop 4 (byte_bits c) # bit_groups 4 bs" for bs
  proof -
    have "bit_groups 4 (take 4 (byte_bits c) @ drop 4 (byte_bits c) @ bs)
        = take 4 (byte_bits c) # drop 4 (byte_bits c) # bit_groups 4 bs"
      by (simp add: bit_groups_append)
    then show ?thesis by (simp add: append_assoc [symmetric] del: append_assoc)
  qed
  show "hex_encode (c # s) = hex_encode [c] @ hex_encode s"
    using g [of "text_bits s"] g [of "[]"] by (simp add: hex_encode_def encode_groups_def)
qed

lemma hex_encode_append: "hex_encode (a @ b) = hex_encode a @ hex_encode b"
proof (induction a)
  case (Cons c a)
  have "hex_encode ((c # a) @ b) = hex_encode [c] @ hex_encode (a @ b)"
    by (simp only: append_Cons hex_encode_simps(2) [of c "a @ b"])
  with Cons show ?case by (simp only: hex_encode_simps(2) [of c a] append_assoc)
qed simp

lemma hex_encode_length: "length (hex_encode s) = 2 * length s"
  by (simp add: hex_encode_def encode_groups_def length_bit_groups)

lemma hex_needle:
  assumes "7 \<le> length v" "2 \<le> length ph"
  shows "\<exists>q \<in> set (scrub_pairs_for v ph). list_all plain_char (pair_needle q) \<and> pair_needle q \<noteq> []
    \<and> pair_fold q \<and> sublist (pair_needle q) (hex_encode (pre @ v @ post))"
proof -
  have plain: "list_all plain_char (hex_encode v)"
    using encode_groups_set [of 4 "''0123456789abcdef''" v] alphabets_plain(5)
    by (auto simp: hex_encode_def list_all_iff)
  have "min_fragment \<le> rune_count (hex_encode v)" "hex_encode ph \<noteq> []" "hex_encode v \<noteq> []" "v \<noteq> []"
    using assms hex_encode_length [of v] hex_encode_length [of ph]
    by (auto simp: rune_count_ascii [OF plain] min_fragment_def)
  moreover have "(hex_encode v, hex_encode ph, True) \<in> set (scrub_forms v ph)" by (simp add: scrub_forms_def)
  ultimately obtain q where q: "q \<in> set (scrub_pairs_for v ph)" "pair_needle q = hex_encode v"
    using scrub_pairs_has by blast
  have "pair_fold q" using scrub_pairs_fold [OF q(1)] q(2) plain hex_encode_length [of v] assms(1) by fastforce
  with q plain \<open>hex_encode v \<noteq> []\<close> show ?thesis
    by (intro bexI [of _ q]) (auto simp: hex_encode_append sublist_iff_append)
qed

text \<open>
  C9: When a secret of at least seven bytes has a placeholder of at least two, the bytes a
  response keeps never contain the base64 text, standard or URL, of anything that has the secret
  in it, nor its hex or base32 text, standard or hex alphabet, in upper case, lower case or any
  mixture; wherever in the encoded text the secret starts. The scrub finds the part of the
  encoding that comes from the secret alone.
\<close>

theorem scrub_hides_encodings:
  assumes "7 \<le> length v" "2 \<le> length ph"
    and "encode \<in> {encode_groups 6 base64_std, encode_groups 6 base64_url} \<and> t = encode (pre @ v @ post)
      \<or> encode \<in> {base32_encode base32_std, base32_encode base32_hex, hex_encode}
        \<and> to_lower t = to_lower (encode (pre @ v @ post))"
  shows "\<nexists>before run after. pieces (new_scrubber (scrub_pairs_for v ph)) data = before @ map Copied run @ after
    \<and> sublist t run"
  using assms(3)
proof (elim disjE conjE)
  assume e: "encode \<in> {encode_groups 6 base64_std, encode_groups 6 base64_url}" "t = encode (pre @ v @ post)"
  then obtain a where "(6, 3, a, id, encode) \<in> set form_encoders" unfolding form_encoders_def by auto
  from form_encoders_needle [OF this assms(1,2), of pre post] obtain q where
    q: "q \<in> set (scrub_pairs_for v ph)" "list_all plain_char (pair_needle q)" "pair_needle q \<noteq> []"
      "sublist (pair_needle q) t" using e(2) by blast
  show ?thesis using copied_no_plain_needle [OF q(1-3)] q(4) sublist_order.order.trans by blast
next
  assume e: "encode \<in> {base32_encode base32_std, base32_encode base32_hex, hex_encode}"
    "to_lower t = to_lower (encode (pre @ v @ post))"
  have lower: "to_lower (hex_encode s) = hex_encode s" for s
  proof -
    have "set (hex_encode s) \<subseteq> set ''0123456789abcdef''"
      using encode_groups_set [of 4 "''0123456789abcdef''" s] by (simp add: hex_encode_def)
    moreover have "list_all (\<lambda>c. lower_char c = c) ''0123456789abcdef''" by code_simp
    ultimately show ?thesis unfolding to_lower_def by (intro map_idI) (auto simp: list_all_iff)
  qed
  have "\<exists>q \<in> set (scrub_pairs_for v ph). list_all plain_char (pair_needle q) \<and> pair_needle q \<noteq> []
    \<and> pair_fold q \<and> sublist (pair_needle q) (to_lower t)" (is "\<exists>q \<in> _. ?P q")
  proof (cases "encode = hex_encode")
    case True
    with hex_needle [OF assms(1,2), of pre post] e(2) lower show ?thesis by simp
  next
    case False
    with e(1) obtain a where a: "(5, 5, a, lower_char, base32_lower a) \<in> set form_encoders" "encode = base32_encode a"
      unfolding form_encoders_def by auto
    from form_encoders_needle [OF a(1) assms(1,2), of pre post] show ?thesis
      using e(2) a(2) by (simp add: base32_lower_def)
  qed
  then obtain q where q: "q \<in> set (scrub_pairs_for v ph)" "?P q" by blast
  then show ?thesis using copied_no_folded_needle [OF q(1), of t] by blast
qed

theorem scrub_hides_encodings_witness:
  "\<nexists>before run after. pieces (new_scrubber (scrub_pairs_for ''hunter22'' ''PH'')) ''id=MFSG2ZLTOR''
      = before @ map Copied run @ after
    \<and> sublist (base32_encode base32_std (''admin:'' @ ''hunter22'' @ [])) run"
  by (rule scrub_hides_encodings [where encode = "base32_encode base32_std" and pre = "''admin:''" and post = "[]"]) simp_all

end
