(* ===== verification/Secrets.thy ===== *)
theory Secrets
  imports Secrets_Config Scrub_Forms Pipeline
begin

text \<open>
  The credential transform on requests (\<^verbatim>\<open>secrets.go\<close>, \<^verbatim>\<open>canonical.go\<close>, \<^verbatim>\<open>pending.go\<close>): placeholders
  are swapped for real values in headers, query, path and body, values are injected, canonical
  placeholders are swapped only as a whole component inside their scope, and requests wait for
  placeholders whose secret is not installed yet. The request context keeps what the response
  has to be scrubbed of.
\<close>

section \<open>What a request remembers (canonical.go)\<close>

record request_scrubs =
  qs_canonical :: "resolved_secret list"
  qs_authority :: string
  qs_pairs :: "scrub_pair list"
  qs_names :: "string list"

type_synonym srequest = "request_scrubs request"

definition empty_scrubs :: request_scrubs where
  "empty_scrubs = \<lparr>qs_canonical = [], qs_authority = [], qs_pairs = [], qs_names = []\<rparr>"

definition secret_pairs :: "resolved_secret \<Rightarrow> string \<Rightarrow> scrub_pair list" where
  "secret_pairs sec value =
    (let pairs = scrub_pairs_for value (rs_proxy_value sec) in
     case rs_presentation sec of
       Some p \<Rightarrow>
         (if pn_type p = ''basic'' then
            (let encode = (\<lambda>secret. base64_encode (pn_username p @ '':'' @ secret)) in
             \<lparr>pair_needle = encode value, pair_repl = encode (rs_proxy_value sec), pair_fold = False\<rparr> # pairs)
          else pairs)
     | None \<Rightarrow> pairs)"

definition remember_scrub :: "resolved_secret \<Rightarrow> string \<Rightarrow> srequest \<Rightarrow> srequest" where
  "remember_scrub sec value req =
    (if \<not> rs_scrub sec \<or> rs_mode sec \<noteq> ModeReplace then req
     else
       (let state = (case r_ctx req of Some st \<Rightarrow> st | None \<Rightarrow> empty_scrubs);
            pairs = secret_pairs sec value;
            state = (if rs_presentation sec \<noteq> None
                     then state\<lparr>qs_canonical := qs_canonical state @ [sec], qs_authority := r_host req,
                            qs_pairs := pairs @ qs_pairs state\<rparr>
                     else state\<lparr>qs_pairs := qs_pairs state @ pairs\<rparr>);
            state = state\<lparr>qs_names := qs_names state @ [src_name (rs_source sec)]\<rparr>
        in req\<lparr>r_ctx := Some state, r_header := h_del (r_header req) ''Accept-Encoding''\<rparr>))"

section \<open>The scope of a canonical secret (canonical.go)\<close>

definition authority :: "string \<Rightarrow> (string \<times> string) option" where
  "authority value =
    (case (if contains_char value CHR '':'' then split_host_port value else Some (value, ''443'')) of
       None \<Rightarrow> None
     | Some (host, port) \<Rightarrow>
       (if list_ex (\<lambda>c. 127 < byte c) host then None
        else
          (case atoi port of
             None \<Rightarrow> None
           | Some n \<Rightarrow>
             (if 0 < n \<and> n \<le> 65535 \<and> canonical_host (to_lower host)
              then Some (to_lower host, itoa_nat (nat n)) else None))))"

definition rule_permits :: "rule \<Rightarrow> string \<Rightarrow> string \<Rightarrow> string \<Rightarrow> bool" where
  "rule_permits rule host method path =
    (if \<not> rule_matches_host rule host
        \<or> (case rl_methods rule of Some ms \<Rightarrow> method \<notin> set ms | None \<Rightarrow> False) then False
     else
       (case rl_paths rule of
          None \<Rightarrow> True
        | Some ps \<Rightarrow>
          list_ex (\<lambda>p. p = path \<or> has_suffix p ''/*'' \<and> has_prefix path (trim_suffix p ''*'')) ps))"

definition permits :: "resolved_secret \<Rightarrow> 'x request \<Rightarrow> string \<Rightarrow> bool" where
  "permits sec req host \<longleftrightarrow>
    valid_canonical_path (u_path (r_url req)) \<and> \<not> contains_char (url_escaped_path (r_url req)) CHR ''%''
    \<and> list_ex (\<lambda>rule. rule_permits rule host (r_method req) (u_path (r_url req))) (rs_rules sec)"

definition canonical_scope :: "resolved_secret \<Rightarrow> transform_context \<Rightarrow> 'x request \<Rightarrow> bool" where
  "canonical_scope sec tctx req =
    (case (authority (r_host req), authority (tc_sni tctx)) of
       (Some (host, port), Some (sni, _)) \<Rightarrow>
         r_tls req \<noteq> None \<and> sni = host
         \<and> (u_host (r_url req) \<noteq> [] \<longrightarrow>
              authority (u_host (r_url req)) = Some (host, port) \<and> u_scheme (r_url req) = ''https'')
         \<and> (case tc_tunnel tctx of
              Some tun \<Rightarrow> authority (tun_target tun) = Some (host, port)
            | None \<Rightarrow> True)
         \<and> permits sec req host
     | _ \<Rightarrow> False)"

definition before_expiry :: "int \<Rightarrow> resolved_secret \<Rightarrow> bool" where
  "before_expiry now sec = (case rs_expires sec of Some t \<Rightarrow> now < t | None \<Rightarrow> False)"

section \<open>Components (canonical.go)\<close>

text \<open>The component a placeholder fills completely, as the function that writes a value there.\<close>

datatype component_result = CompError | CompAbsent | CompApply "string \<Rightarrow> srequest" string

definition valid_utf8 :: "string \<Rightarrow> bool" where
  "valid_utf8 s \<longleftrightarrow> list_all (\<lambda>r. r \<le> max_rune) (decode_runes s)"

text \<open>The loop over the query parts: the index selected so far.\<close>

fun select_query :: "string \<Rightarrow> nat \<Rightarrow> string list \<Rightarrow> nat option \<Rightarrow> nat option option" where
  "select_query name i [] selected = Some selected"
| "select_query name i (part # parts) selected =
    (let (rawName, rawValue) = cut_at part ''='' in
     case query_unescape rawName of
       None \<Rightarrow> None
     | Some n \<Rightarrow>
       (if \<not> valid_utf8 n then None
        else if n \<noteq> name then select_query name (Suc i) parts selected
        else if selected \<noteq> None then None
        else
          (case query_unescape rawValue of
             None \<Rightarrow> None
           | Some v \<Rightarrow> (if \<not> valid_utf8 v then None else select_query name (Suc i) parts (Some i)))))"

definition query_component :: "presentation \<Rightarrow> string \<Rightarrow> srequest \<Rightarrow> component_result" where
  "query_component p placeholder req =
    (let parts = split_char CHR ''&'' (u_rawquery (r_url req)) in
     case select_query (pn_name p) 0 parts None of
       None \<Rightarrow> CompError
     | Some None \<Rightarrow> CompAbsent
     | Some (Some i) \<Rightarrow>
       (let (name, raw) = cut_at (parts ! i) ''='';
            value = (case query_unescape raw of Some v \<Rightarrow> v | None \<Rightarrow> [])
        in if value \<noteq> placeholder
           then (if str_contains value placeholder then CompError else CompAbsent)
           else CompApply (\<lambda>real. req\<lparr>r_url := (r_url req)\<lparr>u_rawquery :=
                    str_join (parts[i := name @ ''='' @ query_escape real]) ''&''\<rparr>\<rparr>) (''query:'' @ pn_name p)))"

definition header_component_name :: "presentation \<Rightarrow> string" where
  "header_component_name p = (if pn_type p = ''header'' then pn_name p else ''Authorization'')"

definition write_header :: "string \<Rightarrow> string \<Rightarrow> header \<Rightarrow> header" where
  "write_header name v h = h_set (filter (\<lambda>(k, _). \<not> equal_fold k name) h) name v"

definition header_values_fold :: "string \<Rightarrow> header \<Rightarrow> string list" where
  "header_values_fold name h = concat (map snd (filter (\<lambda>(k, _). equal_fold k name) h))"

text \<open>
  The expected value and the format of the replacement; \<^const>\<open>None\<close> for a basic header that is not
  this placeholder's, with the flag set when it is refused.
\<close>

definition expected_value ::
    "presentation \<Rightarrow> string \<Rightarrow> string \<Rightarrow> bool + string \<times> (string \<Rightarrow> string)" where
  "expected_value p placeholder value =
    (if pn_type p = ''bearer'' then Inr (''Bearer '' @ placeholder, \<lambda>real. ''Bearer '' @ real)
     else if pn_type p = ''basic'' then
       (if \<not> has_prefix value ''Basic '' then Inl False
        else
          (let encoded = trim_prefix value ''Basic '' in
           case base64_decode True encoded of
             None \<Rightarrow> Inl True
           | Some decoded \<Rightarrow>
             (if base64_encode decoded \<noteq> encoded \<or> \<not> valid_utf8 decoded then Inl True
              else if decoded \<noteq> pn_username p @ '':'' @ placeholder then Inl (str_contains decoded placeholder)
              else Inr (value, \<lambda>real. ''Basic '' @ base64_encode (pn_username p @ '':'' @ real)))))
     else Inr (placeholder, \<lambda>real. real))"

definition header_component :: "presentation \<Rightarrow> string \<Rightarrow> srequest \<Rightarrow> component_result" where
  "header_component p placeholder req =
    (let name = header_component_name p in
     case header_values_fold name (r_header req) of
       [] \<Rightarrow> CompAbsent
     | [value] \<Rightarrow>
       (case expected_value p placeholder value of
          Inl refused \<Rightarrow> (if refused then CompError else CompAbsent)
        | Inr (expected, fmt) \<Rightarrow>
          (if value \<noteq> expected
           then (if str_contains value placeholder then CompError else CompAbsent)
           else CompApply (\<lambda>real. req\<lparr>r_header := write_header name (fmt real) (r_header req)\<rparr>)
                  (''header:'' @ name)))
     | _ \<Rightarrow> CompError)"

definition component :: "presentation \<Rightarrow> resolved_secret \<Rightarrow> srequest \<Rightarrow> component_result" where
  "component p sec req =
    (if pn_type p = ''query'' then query_component p (rs_proxy_value sec) req
     else header_component p (rs_proxy_value sec) req)"

text \<open>
  \<open>now\<close> are the readings of the clock before and after the source is asked. \<^const>\<open>None\<close> is an error.
\<close>

definition swap_canonical ::
    "(string \<Rightarrow> bool) \<Rightarrow> int \<times> int \<Rightarrow> presentation \<Rightarrow> resolved_secret \<Rightarrow> transform_context \<Rightarrow> srequest \<Rightarrow>
      srequest \<times> string list option" where
  "swap_canonical valid_value now p sec tctx req =
    (if tc_tunnel_admission tctx then (req, Some [])
     else
       (case component p sec req of
          CompError \<Rightarrow> (req, None)
        | CompAbsent \<Rightarrow> (req, Some [])
        | CompApply apply location \<Rightarrow>
          (if \<not> canonical_scope sec tctx req \<or> \<not> before_expiry (fst now) sec then (req, None)
           else
             (case src_get (rs_source sec) of
                None \<Rightarrow> (req, None)
              | Some value \<Rightarrow>
                (if \<not> before_expiry (snd now) sec
                    \<or> (pn_type p = ''header'' \<or> pn_type p = ''bearer'') \<and> \<not> valid_value value
                 then (req, None)
                 else (remember_scrub sec value (apply value), Some [location]))))))"

definition validate_final_destination :: "(resolved_secret \<Rightarrow> int) \<Rightarrow> srequest \<Rightarrow> bool" where
  "validate_final_destination now req =
    (case r_ctx req of
       None \<Rightarrow> True
     | Some state \<Rightarrow>
       (if qs_canonical state = [] then True
        else
          (let valid = (case (authority (u_host (r_url req)), authority (qs_authority state)) of
                 (Some d, Some orig) \<Rightarrow>
                   d = orig \<and> (u_scheme (r_url req) = ''https'' \<or> u_scheme (r_url req) = ''wss'')
                   \<and> \<not> u_user (r_url req) \<and> (r_host req \<noteq> [] \<longrightarrow> authority (r_host req) = Some d)
               | _ \<Rightarrow> False)
           in list_all (\<lambda>sec. valid \<and> before_expiry (now sec) sec
                \<and> permits sec req (case authority (u_host (r_url req)) of Some (h, _) \<Rightarrow> h | None \<Rightarrow> []))
                (qs_canonical state))))"

section \<open>Swapping (secrets.go)\<close>

definition decode_basic_auth :: "string \<Rightarrow> string option" where
  "decode_basic_auth value =
    (case cut_prefix value ''Basic '' of None \<Rightarrow> None | Some rest \<Rightarrow> base64_decode False rest)"

definition replace_in_header :: "string \<Rightarrow> string \<Rightarrow> string \<Rightarrow> string \<Rightarrow> string" where
  "replace_in_header headerName value proxyValue realValue =
    (case (if equal_fold headerName ''Authorization'' then decode_basic_auth value else None) of
       Some decoded \<Rightarrow> ''Basic '' @ base64_encode (replace_all decoded proxyValue realValue)
     | None \<Rightarrow> replace_all value proxyValue realValue)"

definition header_contains :: "string \<Rightarrow> string \<Rightarrow> string \<Rightarrow> bool" where
  "header_contains headerName value proxyValue =
    (case (if equal_fold headerName ''Authorization'' then decode_basic_auth value else None) of
       Some decoded \<Rightarrow> str_contains decoded proxyValue
     | None \<Rightarrow> str_contains value proxyValue)"

definition swap_all_headers :: "string \<Rightarrow> string \<Rightarrow> header \<Rightarrow> header \<times> string list" where
  "swap_all_headers pv real h =
    (map (\<lambda>(name, vals). (name, map (\<lambda>v. if header_contains name v pv
        then replace_in_header name v pv real else v) vals)) h,
     concat (map (\<lambda>(name, vals). map (\<lambda>_. ''header:'' @ name)
        (filter (\<lambda>v. header_contains name v pv) vals)) h))"

text \<open>One header: its map, the names processed, the locations.\<close>

definition swap_header ::
    "string \<Rightarrow> string \<Rightarrow> string \<Rightarrow> string \<Rightarrow> header \<times> string list \<times> string list \<Rightarrow>
      header \<times> string list \<times> string list" where
  "swap_header pv real canonical wireName st =
    (let (h, processed, locs) = st in
     if canonical \<in> set processed then st
     else
       (headers_swap h canonical wireName (\<lambda>v. replace_in_header canonical v pv real),
        canonical # processed,
        if list_ex (\<lambda>v. header_contains canonical v pv) (h_values h canonical)
        then locs @ [''header:'' @ wireName] else locs))"

definition swap_matcher ::
    "string \<Rightarrow> string \<Rightarrow> secret_header \<Rightarrow> header \<times> string list \<times> string list \<Rightarrow>
      header \<times> string list \<times> string list" where
  "swap_matcher pv real m st =
    (case m of
       SecretRe re \<Rightarrow>
         fold (\<lambda>name st. if map_get (fst st) name \<noteq> None \<and> re name then swap_header pv real name name st else st)
           (map_keys (fst st)) st
     | SecretName name wireName \<Rightarrow> swap_header pv real name wireName st)"

definition swap_headers :: "resolved_secret \<Rightarrow> string \<Rightarrow> srequest \<Rightarrow> srequest \<times> string list" where
  "swap_headers sec real req =
    (if rs_match_headers sec = [] then
       (let (h, locs) = swap_all_headers (rs_proxy_value sec) real (r_header req) in (req\<lparr>r_header := h\<rparr>, locs))
     else
       (let (h, _, locs) = fold (swap_matcher (rs_proxy_value sec) real) (rs_match_headers sec) (r_header req, [], [])
        in (req\<lparr>r_header := h\<rparr>, locs)))"

definition set_rawquery :: "string \<Rightarrow> srequest \<Rightarrow> srequest" where
  "set_rawquery q req = req\<lparr>r_url := (r_url req)\<lparr>u_rawquery := q\<rparr>\<rparr>"

definition swap_query :: "resolved_secret \<Rightarrow> string \<Rightarrow> srequest \<Rightarrow> srequest \<times> string list" where
  "swap_query sec real req =
    (let raw = u_rawquery (r_url req); pv = rs_proxy_value sec in
     if raw = [] \<or> \<not> str_contains raw pv then (req, [])
     else
       (let (params, err) = parse_query raw in
        if err then (req, [])
        else
          (let params' = map (\<lambda>(k, vs). (k, map (\<lambda>v. if str_contains v pv then replace_all v pv real else v) vs)) params;
               locs = concat (map (\<lambda>(k, vs). map (\<lambda>_. ''query:'' @ k) (filter (\<lambda>v. str_contains v pv) vs)) params)
           in (if locs = [] then req else set_rawquery (encode_query params') req, locs))))"

definition swap_path :: "resolved_secret \<Rightarrow> string \<Rightarrow> srequest \<Rightarrow> srequest \<times> string list" where
  "swap_path sec real req =
    (let path = u_path (r_url req); pv = rs_proxy_value sec in
     if path = [] \<or> \<not> str_contains path pv then (req, [])
     else (req\<lparr>r_url := (r_url req)\<lparr>u_path := replace_all path pv real, u_rawpath := []\<rparr>\<rparr>, [''path'']))"

text \<open>The pipeline attaches a \<^verbatim>\<open>BufferedBody\<close>; \<^const>\<open>None\<close> is the panic of a closed one.\<close>

definition swap_body :: "resolved_secret \<Rightarrow> string \<Rightarrow> srequest \<Rightarrow> (srequest \<times> string list) option" where
  "swap_body sec real req =
    (case r_body req of
       PlainBody data \<Rightarrow>
         (if \<not> str_contains data (rs_proxy_value sec) then Some (req\<lparr>r_body := PlainBody []\<rparr>, [])
          else Some (req\<lparr>r_body := Buffered (new_buffered_body_from_bytes
                 (replace_all data (rs_proxy_value sec) real))\<rparr>, [''body'']))
     | Buffered bb \<Rightarrow>
         (case bb_read_all bb of
            (bb, ReadData data) \<Rightarrow>
              (if \<not> str_contains data (rs_proxy_value sec) then Some (req\<lparr>r_body := Buffered bb\<rparr>, [])
               else Some (req\<lparr>r_body := Buffered (new_buffered_body_from_bytes
                      (replace_all data (rs_proxy_value sec) real))\<rparr>, [''body'']))
          | (bb, ReadPanic) \<Rightarrow> None
          | (bb, _) \<Rightarrow> Some (req\<lparr>r_body := Buffered bb\<rparr>, [])))"

definition format_value :: "resolved_secret \<Rightarrow> string \<Rightarrow> string option" where
  "format_value sec real = (case rs_formatter sec of None \<Rightarrow> Some real | Some tmpl \<Rightarrow> tmpl real)"

definition inject_secret :: "resolved_secret \<Rightarrow> string \<Rightarrow> srequest \<Rightarrow> (srequest \<times> string list) option" where
  "inject_secret sec real req =
    (case format_value sec real of
       None \<Rightarrow> None
     | Some formatted \<Rightarrow>
       (let (req, locs) =
              (if rs_inject_header sec \<noteq> []
               then (req\<lparr>r_header := headers_set (r_header req) (rs_inject_header sec) formatted\<rparr>,
                     [''header:'' @ rs_inject_header sec])
               else (req, []))
        in Some (if rs_inject_query sec \<noteq> []
                 then (set_rawquery (encode_query (map_set (fst (parse_query (u_rawquery (r_url req))))
                         (rs_inject_query sec) [formatted])) req,
                       locs @ [''query:'' @ rs_inject_query sec])
                 else (req, locs))))"

definition allow_connect_without_header :: "resolved_secret \<Rightarrow> 'x request \<Rightarrow> bool" where
  "allow_connect_without_header sec req =
    (if \<not> rs_allow_connect sec \<or> r_method req \<noteq> ''CONNECT'' \<or> rs_match_headers sec = [] then False
     else list_all (\<lambda>m. case m of
            SecretRe re \<Rightarrow> \<not> list_ex (\<lambda>name. re (canonical_key name)) (map_keys (r_header req))
          | SecretName name _ \<Rightarrow> h_values (r_header req) name = []) (rs_match_headers sec))"

definition secret_admits :: "resolved_secret \<Rightarrow> transform_context \<Rightarrow> bool" where
  "secret_admits sec tctx \<longleftrightarrow> \<not> rs_tls_only sec \<or> tc_sni tctx \<noteq> []"

section \<open>The request loop (secrets.go)\<close>

record secrets_log =
  lg_swapped :: "(string \<times> string list) list"
  lg_injected :: "(string \<times> string list) list"
  lg_unavailable :: "string list"
  lg_plaintext :: "string list"

type_synonym secrets_state = "transform_context \<times> srequest \<times> secrets_log"

text \<open>Swapping one replace-mode secret everywhere it looks; \<^const>\<open>None\<close> is a panic.\<close>

definition swap_everywhere :: "resolved_secret \<Rightarrow> string \<Rightarrow> srequest \<Rightarrow> (srequest \<times> string list) option" where
  "swap_everywhere sec real req =
    (let (req, l1) = swap_headers sec real req;
         (req, l2) = (if rs_match_query sec then swap_query sec real req else (req, []));
         (req, l3) = (if rs_match_path sec then swap_path sec real req else (req, []))
     in case (if rs_match_body sec then swap_body sec real req else Some (req, [])) of
          None \<Rightarrow> None
        | Some (req, l4) \<Rightarrow> Some (req, l1 @ l2 @ l3 @ l4))"

text \<open>One round of the loop; an outcome ends it.\<close>

definition plain_step :: "resolved_secret \<Rightarrow> secrets_state \<Rightarrow> secrets_state \<times> outcome option" where
  "plain_step sec st =
    (let (tctx, req, lg) = st; name = src_name (rs_source sec) in
     if \<not> match_any_rule (rs_rules sec) req then (st, None)
     else if \<not> secret_admits sec tctx then ((tctx, req, lg\<lparr>lg_plaintext := lg_plaintext lg @ [name]\<rparr>), None)
     else
       (let req = (if rs_scrub sec then req\<lparr>r_header := h_del (r_header req) ''Accept-Encoding''\<rparr> else req) in
        case src_get (rs_source sec) of
          None \<Rightarrow>
            (if rs_require sec
             then ((annotate (annotate tctx ''rejected'' (AStr name)) ''reject_reason'' (AStr ''secret_unavailable''),
                    req, lg), Some (Done reject_result))
             else ((tctx, req, lg\<lparr>lg_unavailable := lg_unavailable lg @ [name]\<rparr>), None))
        | Some real \<Rightarrow>
          (let req = remember_scrub sec real req in
           if rs_mode sec = ModeInject then
             (case inject_secret sec real req of
                None \<Rightarrow> ((tctx, req, lg), Some (Failed (''injecting secret '' @ name)))
              | Some (req, locs) \<Rightarrow>
                ((tctx, req, if locs \<noteq> [] then lg\<lparr>lg_injected := lg_injected lg @ [(name, locs)]\<rparr> else lg), None))
           else
             (case swap_everywhere sec real req of
                None \<Rightarrow> ((tctx, req, lg), Some Panicked)
              | Some (req, locs) \<Rightarrow>
                (if locs \<noteq> [] then ((tctx, req, lg\<lparr>lg_swapped := lg_swapped lg @ [(name, locs)]\<rparr>), None)
                 else if rs_require sec \<and> \<not> allow_connect_without_header sec req
                   then ((annotate tctx ''rejected'' (AStr name), req, lg), Some (Done reject_result))
                 else ((tctx, req, lg), None))))))"

definition secret_step ::
    "(string \<Rightarrow> bool) \<Rightarrow> int \<times> int \<Rightarrow> resolved_secret \<Rightarrow> secrets_state \<Rightarrow> secrets_state \<times> outcome option" where
  "secret_step valid_value now sec st =
    (case rs_presentation sec of
       None \<Rightarrow> plain_step sec st
     | Some p \<Rightarrow>
       (let (tctx, req, lg) = st in
        case swap_canonical valid_value now p sec tctx req of
          (req, None) \<Rightarrow>
            ((annotate tctx ''reject_reason'' (AStr ''canonical_secret_refused''), req, lg), Some (Done reject_result))
        | (req, Some locs) \<Rightarrow>
            ((tctx, req, if locs \<noteq> [] then lg\<lparr>lg_swapped := lg_swapped lg @ [(src_name (rs_source sec), locs)]\<rparr> else lg),
             None)))"

fun secrets_loop ::
    "(string \<Rightarrow> bool) \<Rightarrow> (nat \<Rightarrow> int \<times> int) \<Rightarrow> nat \<Rightarrow> resolved_secret list \<Rightarrow> secrets_state \<Rightarrow>
      secrets_state \<times> outcome option" where
  "secrets_loop valid_value clock i [] st = (st, None)"
| "secrets_loop valid_value clock i (sec # secs) st =
    (case secret_step valid_value (clock i) sec st of
       (st, Some out) \<Rightarrow> (st, Some out)
     | (st, None) \<Rightarrow> secrets_loop valid_value clock (Suc i) secs st)"

definition records_val :: "(string \<times> string list) list \<Rightarrow> anyval" where
  "records_val rs = AList (map (\<lambda>(n, locs).
     AObj [(''secret'', AStr n), (''locations'', AList (map AStr locs))]) rs)"

definition log_annotations :: "secrets_log \<Rightarrow> transform_context \<Rightarrow> transform_context" where
  "log_annotations lg tctx =
    (let tctx = (if lg_swapped lg \<noteq> [] then annotate tctx ''swapped'' (records_val (lg_swapped lg)) else tctx);
         tctx = (if lg_injected lg \<noteq> [] then annotate tctx ''injected'' (records_val (lg_injected lg)) else tctx);
         tctx = (if lg_unavailable lg \<noteq> []
                 then annotate tctx ''secret_unavailable'' (AList (map AStr (lg_unavailable lg))) else tctx)
     in if lg_plaintext lg \<noteq> []
        then annotate tctx ''secret_plaintext_skipped'' (AList (map AStr (lg_plaintext lg))) else tctx)"

definition empty_log :: secrets_log where
  "empty_log = \<lparr>lg_swapped = [], lg_injected = [], lg_unavailable = [], lg_plaintext = []\<rparr>"

section \<open>Pending placeholders (pending.go)\<close>

text \<open>
  The slots of the process: the slot of a placeholder, and the secret a slot was resolved
  with, which is what closing its channel announces. Slots are numbered as they are made.
\<close>

record pending_slots =
  sl_by_value :: "(string, nat) gomap"
  sl_resolved :: "nat \<Rightarrow> resolved_secret option"
  sl_next :: nat

definition declare_pending :: "string \<Rightarrow> pending_slots \<Rightarrow> pending_slots \<times> nat" where
  "declare_pending pv sl =
    (case map_get (sl_by_value sl) pv of
       Some i \<Rightarrow>
         (if sl_resolved sl i = None then (sl, i)
          else (sl\<lparr>sl_by_value := map_set (sl_by_value sl) pv (sl_next sl), sl_next := Suc (sl_next sl)\<rparr>, sl_next sl))
     | None \<Rightarrow>
         (sl\<lparr>sl_by_value := map_set (sl_by_value sl) pv (sl_next sl), sl_next := Suc (sl_next sl)\<rparr>, sl_next sl))"

definition install_pending :: "string \<Rightarrow> resolved_secret \<Rightarrow> pending_slots \<Rightarrow> pending_slots" where
  "install_pending pv sec sl =
    (case map_get (sl_by_value sl) pv of
       Some i \<Rightarrow>
         (if sl_resolved sl i \<noteq> None then sl else sl\<lparr>sl_resolved := (sl_resolved sl)(i := Some sec)\<rparr>)
     | None \<Rightarrow> sl)"

record pending_entry =
  pe_proxy_value :: string
  pe_match_headers :: "string list"
  pe_rules :: "rule_config list"
  pe_name :: string
  pe_sandbox :: string

record resolved_pending =
  pd_slot :: nat
  pd_proxy_value :: string
  pd_match_headers :: "secret_header list"
  pd_rules :: "rule list"
  pd_name :: string
  pd_sandbox :: string

definition compile_pending ::
    "regexp_compile \<Rightarrow> nat \<Rightarrow> pending_entry \<Rightarrow> pending_slots \<Rightarrow> pending_slots \<times> (secrets_error + resolved_pending)" where
  "compile_pending compile i entry sl =
    (if pe_proxy_value entry = [] then (sl, Inl (PendingNoProxyValue i))
     else
       (case secret_headers compile (pe_match_headers entry) of
          Inl e \<Rightarrow> (sl, Inl (EntryHeaderRegex i e))
        | Inr matchers \<Rightarrow>
          (case compile_rules (pe_rules entry) of
             Inl e \<Rightarrow> (sl, Inl (EntryRules i e))
           | Inr rules \<Rightarrow>
             (let (sl, slot) = declare_pending (pe_proxy_value entry) sl in
              (sl, Inr \<lparr>pd_slot = slot, pd_proxy_value = pe_proxy_value entry, pd_match_headers = matchers,
                 pd_rules = rules, pd_name = pe_name entry, pd_sandbox = pe_sandbox entry\<rparr>)))))"

definition carries :: "resolved_pending \<Rightarrow> 'x request \<Rightarrow> bool" where
  "carries p req =
    (let holds = (\<lambda>(name, vals). list_ex (\<lambda>v. header_contains name v (pd_proxy_value p)) vals) in
     if pd_match_headers p = [] then list_ex holds (r_header req)
     else list_ex (\<lambda>m. list_ex (\<lambda>e. (case m of
              SecretRe re \<Rightarrow> re (fst e)
            | SecretName name _ \<Rightarrow> canonical_key (fst e) = name) \<and> holds e) (r_header req))
            (pd_match_headers p))"

text \<open>\<^verbatim>\<open>%q\<close> of an ASCII string.\<close>

definition quote_char :: "char \<Rightarrow> string" where
  "quote_char c =
    (if c = CHR 0x22 then [CHR 0x5C, CHR 0x22]
     else if c = CHR 0x5C then [CHR 0x5C, CHR 0x5C]
     else if byte c = 7 then [CHR 0x5C, CHR ''a'']
     else if byte c = 8 then [CHR 0x5C, CHR ''b'']
     else if byte c = 12 then [CHR 0x5C, CHR ''f'']
     else if byte c = 10 then [CHR 0x5C, CHR ''n'']
     else if byte c = 13 then [CHR 0x5C, CHR ''r'']
     else if byte c = 9 then [CHR 0x5C, CHR ''t'']
     else if byte c = 11 then [CHR 0x5C, CHR ''v'']
     else if byte c < 32 \<or> byte c = 127
       then [CHR 0x5C, CHR ''x''] @ [lower_hex (byte c div 16), lower_hex (byte c mod 16)]
     else [c])"

definition go_quote :: "string \<Rightarrow> string" where
  "go_quote s = [CHR 0x22] @ concat (map quote_char s) @ [CHR 0x22]"

definition pending_unavailable :: "string \<Rightarrow> transform_result" where
  "pending_unavailable name =
    (let body = ''egress credential '' @ go_quote name @
         '' is not installed yet; the request was not sent upstream'' @ [CHR 0x0A] in
     \<lparr>res_action = ActionReject,
      res_response = Some \<lparr>p_status = 503,
        p_header = [(''Content-Type'', [''text/plain; charset=utf-8'']), (''Retry-After'', [''2''])],
        p_body = PlainBody body, p_content_length = 0, p_trailer = []\<rparr>\<rparr>)"

text \<open>
  What the select over the slot, the timer and the request's context delivered: the secret
  the slot was resolved with, the end of the wait, or the end of the request.
\<close>

datatype wait_event = WaitReady resolved_secret | WaitTimeout | WaitCanceled

text \<open>The swap of an installed secret; \<^const>\<open>None\<close> when it cannot be read or is refused.\<close>

definition swap_installed ::
    "(string \<Rightarrow> bool) \<Rightarrow> int \<times> int \<Rightarrow> resolved_secret \<Rightarrow> transform_context \<Rightarrow> srequest \<Rightarrow>
      srequest \<times> string list option" where
  "swap_installed valid_value now sec tctx req =
    (case rs_presentation sec of
       Some p \<Rightarrow> swap_canonical valid_value now p sec tctx req
     | None \<Rightarrow>
       (case src_get (rs_source sec) of
          None \<Rightarrow> (req, None)
        | Some value \<Rightarrow>
          (let (req, locs) = swap_headers sec value req in (remember_scrub sec value req, Some locs))))"

definition pending_rejected ::
    "resolved_pending \<Rightarrow> string \<Rightarrow> transform_context \<Rightarrow> transform_context \<times> outcome" where
  "pending_rejected p why tctx =
    (annotate (annotate tctx ''rejected'' (AStr (pd_name p))) ''reject_reason'' (AStr (''pending_placeholder_'' @ why)),
     Done (pending_unavailable (pd_name p)))"

fun wait_for_pending ::
    "(string \<Rightarrow> bool) \<Rightarrow> (nat \<Rightarrow> int \<times> int) \<Rightarrow> (nat \<Rightarrow> wait_event) \<Rightarrow> resolved_pending list \<Rightarrow>
      transform_context \<Rightarrow> srequest \<Rightarrow> transform_context \<times> srequest \<times> outcome option" where
  "wait_for_pending valid_value clock waits [] tctx req = (tctx, req, None)"
| "wait_for_pending valid_value clock waits (p # ps) tctx req =
    (if \<not> match_any_rule (pd_rules p) req \<or> \<not> carries p req
     then wait_for_pending valid_value clock waits ps tctx req
     else
       (case waits (pd_slot p) of
          WaitTimeout \<Rightarrow> (let (tctx, out) = pending_rejected p ''timeout'' tctx in (tctx, req, Some out))
        | WaitCanceled \<Rightarrow> (let (tctx, out) = pending_rejected p ''canceled'' tctx in (tctx, req, Some out))
        | WaitReady sec \<Rightarrow>
          (case swap_installed valid_value (clock (pd_slot p)) sec tctx req of
             (req, None) \<Rightarrow> (let (tctx, out) = pending_rejected p ''unavailable'' tctx in (tctx, req, Some out))
           | (req, Some locs) \<Rightarrow>
             wait_for_pending valid_value clock waits ps
               (annotate tctx ''swapped'' (records_val [(src_name (rs_source sec), locs)])) req)))"

section \<open>The transform\<close>

record secrets =
  ss_secrets :: "resolved_secret list"
  ss_pending :: "resolved_pending list"
  ss_pending_wait :: int

definition secrets_request ::
    "(string \<Rightarrow> bool) \<Rightarrow> (nat \<Rightarrow> int \<times> int) \<Rightarrow> (nat \<Rightarrow> wait_event) \<Rightarrow> secrets \<Rightarrow>
      transform_context \<Rightarrow> srequest \<Rightarrow> transform_context \<times> srequest \<times> outcome" where
  "secrets_request valid_value clock waits s tctx req =
    (case wait_for_pending valid_value clock waits (ss_pending s) tctx req of
       (tctx, req, Some out) \<Rightarrow> (tctx, req, out)
     | (tctx, req, None) \<Rightarrow>
       (case secrets_loop valid_value clock 0 (ss_secrets s) (tctx, req, empty_log) of
          ((tctx, req, lg), Some out) \<Rightarrow> (tctx, req, out)
        | ((tctx, req, lg), None) \<Rightarrow> (log_annotations lg tctx, req, Done continue_result)))"

section \<open>Building the transform (secrets.go)\<close>

definition default_pending_wait :: int where
  "default_pending_wait = 5000000000"

fun installed_secrets :: "resolved_secret list \<Rightarrow> (string, resolved_secret) gomap \<Rightarrow> (string, resolved_secret) gomap" where
  "installed_secrets [] m = m"
| "installed_secrets (sec # secs) m =
    installed_secrets secs (if rs_mode sec = ModeReplace then map_set m (rs_proxy_value sec) sec else m)"

fun compile_pendings ::
    "regexp_compile \<Rightarrow> (string, resolved_secret) gomap \<Rightarrow> nat \<Rightarrow> pending_entry list \<Rightarrow> pending_slots \<Rightarrow>
      pending_slots \<times> (secrets_error + resolved_pending list)" where
  "compile_pendings compile installed i [] sl = (sl, Inr [])"
| "compile_pendings compile installed i (e # es) sl =
    (if map_get installed (pe_proxy_value e) \<noteq> None then compile_pendings compile installed (Suc i) es sl
     else
       (case compile_pending compile i e sl of
          (sl, Inl err) \<Rightarrow> (sl, Inl err)
        | (sl, Inr p) \<Rightarrow>
          (case compile_pendings compile installed (Suc i) es sl of
             (sl, Inl err) \<Rightarrow> (sl, Inl err)
           | (sl, Inr ps) \<Rightarrow> (sl, Inr (p # ps)))))"

record 'n secrets_config =
  sc_secrets :: "'n secret_entry list"
  sc_pending :: "pending_entry list"
  sc_pending_wait :: string

definition secrets_new_from_config ::
    "'n secrets_env \<Rightarrow> 'n secrets_config \<Rightarrow> pending_slots \<Rightarrow> pending_slots \<times> (secrets_error + secrets)" where
  "secrets_new_from_config env cfg sl =
    (case resolve_secrets env 0 (sc_secrets cfg) of
       Inl e \<Rightarrow> (sl, Inl e)
     | Inr resolved \<Rightarrow>
       (case (if sc_pending_wait cfg = [] then Some default_pending_wait else ev_duration env (sc_pending_wait cfg)) of
          None \<Rightarrow> (sl, Inl (BadPendingWait (sc_pending_wait cfg)))
        | Some wait \<Rightarrow>
          (if wait \<le> 0 then (sl, Inl (BadPendingWait (sc_pending_wait cfg)))
           else
             (let installed = installed_secrets resolved [] in
              case compile_pendings (ev_compile env) installed 0 (sc_pending cfg) sl of
                (sl, Inl e) \<Rightarrow> (sl, Inl e)
              | (sl, Inr pending) \<Rightarrow>
                (fold (\<lambda>(pv, sec). install_pending pv sec) installed sl,
                 Inr \<lparr>ss_secrets = resolved, ss_pending = pending, ss_pending_wait = wait\<rparr>)))))"

end
