(* ===== verification/Secrets_Response.thy ===== *)
theory Secrets_Response
  imports Secrets
begin

text \<open>
  The credential transform on responses (\<^verbatim>\<open>TransformResponse\<close> and the masking functions of
  \<^verbatim>\<open>scrub.go\<close>) and the lemmas that follow a secret from the request to the response.
\<close>

section \<open>Responses\<close>

definition scrub_header_value :: "scrubber \<Rightarrow> string \<Rightarrow> string \<Rightarrow> header \<Rightarrow> header" where
  "scrub_header_value s name v masked =
    (let key = scrub_text s name in
     map_set masked key ((case map_get masked key of Some vs \<Rightarrow> vs | None \<Rightarrow> []) @ [scrub_text s v]))"

definition scrub_headers :: "header \<Rightarrow> scrubber \<Rightarrow> header" where
  "scrub_headers h s = fold (\<lambda>(name, vals) masked. fold (scrub_header_value s name) vals masked) h []"

text \<open>
  A reader behind a \<^verbatim>\<open>scrubReader\<close>: what any sequence of reads returns of it is the scrub of
  the source's content (\<open>scrub_reads_rest\<close>, \<open>scrub_reads_exhaust\<close>), and it fails as the source does.
\<close>

definition scrub_stream :: "scrubber \<Rightarrow> reader \<Rightarrow> reader" where
  "scrub_stream s r = r\<lparr>rd_content := scrub_text s (rd_content r)\<rparr>"

definition encoding_refused :: response where
  "encoding_refused =
    (let message = ''response encoding cannot be checked for a held secret'' @ [CHR 0x0A] in
     \<lparr>p_status = 502, p_header = [(''Content-Type'', [''text/plain''])],
      p_body = Buffered (new_buffered_body_from_bytes message), p_content_length = int (length message),
      p_trailer = []\<rparr>)"

definition no_body :: "srequest \<Rightarrow> response \<Rightarrow> bool" where
  "no_body req resp \<longleftrightarrow>
    r_method req = ''HEAD'' \<or> p_content_length resp = 0 \<or> p_status resp < 200 \<or> p_status resp = 204
    \<or> p_status resp = 304"

definition secrets_response ::
    "transform_context \<Rightarrow> srequest \<Rightarrow> response \<Rightarrow> transform_context \<times> srequest \<times> response \<times> outcome" where
  "secrets_response tctx req resp =
    (case r_ctx req of
       None \<Rightarrow> (tctx, req, resp, Done continue_result)
     | Some state \<Rightarrow>
       (if qs_pairs state = [] then (tctx, req, resp, Done continue_result)
        else
          (let names = AList (map AStr (qs_names state));
               tctx = annotate tctx ''secret_response_scrubbed'' names;
               scrub = new_scrubber (qs_pairs state);
               resp = resp\<lparr>p_header := scrub_headers (p_header resp) scrub\<rparr>
           in if no_body req resp then (tctx, req, resp, Done continue_result)
              else
                (let encoding = h_get (p_header resp) ''Content-Encoding'' in
                 if encoding \<noteq> [] \<and> \<not> equal_fold encoding ''identity''
                 then (annotate (annotate tctx ''rejected'' names) ''reject_reason'' (AStr ''response_encoding''),
                       req, resp, Done \<lparr>res_action = ActionReject, res_response = Some encoding_refused\<rparr>)
                 else
                   (case require_buffered_body (p_body resp) of
                      None \<Rightarrow> (tctx, req, resp, Panicked)
                    | Some b \<Rightarrow>
                      (let r = snd (streaming_reader b) in
                       (tctx, req,
                        resp\<lparr>p_body := Buffered (new_buffered_body (Some (scrub_stream scrub r)) 0),
                             p_header := h_del (p_header resp) ''Content-Length'', p_content_length := -1\<rparr>,
                        Done continue_result)))))))"

definition mask_response_text :: "srequest option \<Rightarrow> string \<Rightarrow> string" where
  "mask_response_text req value =
    (case req of
       None \<Rightarrow> value
     | Some req \<Rightarrow>
       (case r_ctx req of
          None \<Rightarrow> value
        | Some state \<Rightarrow> scrub_text (new_scrubber (qs_pairs state)) value))"

definition mask_response_reader :: "srequest \<Rightarrow> reader \<Rightarrow> reader" where
  "mask_response_reader req src =
    (case r_ctx req of
       None \<Rightarrow> src
     | Some state \<Rightarrow> scrub_stream (new_scrubber (qs_pairs state)) src)"

definition secrets_transform ::
    "(string \<Rightarrow> bool) \<Rightarrow> (nat \<Rightarrow> int \<times> int) \<Rightarrow> (nat \<Rightarrow> wait_event) \<Rightarrow> secrets \<Rightarrow> request_scrubs transformer" where
  "secrets_transform valid_value clock waits s =
    \<lparr>t_name = ''secrets'', t_request = secrets_request valid_value clock waits s, t_response = secrets_response,
     t_private_ips = None, t_closer = None\<rparr>"

section \<open>What stays of a request\<close>

text \<open>The part of a request and context no swap touches.\<close>

definition same_origin :: "transform_context \<Rightarrow> srequest \<Rightarrow> transform_context \<Rightarrow> srequest \<Rightarrow> bool" where
  "same_origin tctx0 req0 tctx req \<longleftrightarrow>
    r_host req = r_host req0 \<and> r_method req = r_method req0 \<and> r_tls req = r_tls req0
    \<and> tc_sni tctx = tc_sni tctx0 \<and> tc_tunnel tctx = tc_tunnel tctx0
    \<and> tc_tunnel_admission tctx = tc_tunnel_admission tctx0"

lemma same_origin_refl [simp]: "same_origin tctx req tctx req"
  by (simp add: same_origin_def)

lemma same_origin_trans:
  "same_origin t0 r0 t1 r1 \<Longrightarrow> same_origin t1 r1 t2 r2 \<Longrightarrow> same_origin t0 r0 t2 r2"
  by (simp add: same_origin_def)

lemma annotate_origin [simp]:
  "tc_sni (annotate t k v) = tc_sni t" "tc_tunnel (annotate t k v) = tc_tunnel t"
  "tc_tunnel_admission (annotate t k v) = tc_tunnel_admission t"
  by (simp_all add: annotate_def)

lemma remember_scrub_fields [simp]:
  "r_host (remember_scrub sec v req) = r_host req" "r_method (remember_scrub sec v req) = r_method req"
  "r_tls (remember_scrub sec v req) = r_tls req" "r_url (remember_scrub sec v req) = r_url req"
  "r_body (remember_scrub sec v req) = r_body req"
  by (simp_all add: remember_scrub_def Let_def)

lemma swap_headers_fields:
  assumes "swap_headers sec real req = (req', locs)"
  shows "r_host req' = r_host req" "r_method req' = r_method req" "r_tls req' = r_tls req" "r_url req' = r_url req"
    "r_ctx req' = r_ctx req" "r_body req' = r_body req"
  using assms by (auto simp: swap_headers_def Let_def split: if_splits prod.splits)

lemma component_fields:
  assumes "component p sec req = CompApply f loc"
  shows "r_host (f v) = r_host req" "r_method (f v) = r_method req" "r_tls (f v) = r_tls req" "r_ctx (f v) = r_ctx req"
  using assms
  by (auto simp: component_def query_component_def header_component_def Let_def
      split: if_splits option.splits prod.splits list.splits sum.splits)

lemma swap_canonical_cases:
  assumes "swap_canonical vv now p sec tctx req = (req', res)"
  obtains (kept) "req' = req" "res = None \<or> res = Some []"
  | (released) f loc v where "component p sec req = CompApply f loc" "canonical_scope sec tctx req"
      "before_expiry (fst now) sec" "before_expiry (snd now) sec" "src_get (rs_source sec) = Some v"
      "req' = remember_scrub sec v (f v)" "res = Some [loc]" "\<not> tc_tunnel_admission tctx"
  using assms by (auto simp: swap_canonical_def split: if_splits component_result.splits option.splits)

text \<open>The fields a swap of the plain kind leaves alone, as one value.\<close>

definition origin_of :: "srequest \<Rightarrow> string \<times> string \<times> string option \<times> request_scrubs option" where
  "origin_of req = (r_host req, r_method req, r_tls req, r_ctx req)"

lemma swap_headers_origin: "origin_of (fst (swap_headers sec real req)) = origin_of req"
  by (simp add: swap_headers_def origin_of_def split: prod.splits)

lemma swap_query_origin: "origin_of (fst (swap_query sec real req)) = origin_of req"
  by (simp add: swap_query_def set_rawquery_def origin_of_def Let_def split: prod.splits)

lemma swap_path_origin: "origin_of (fst (swap_path sec real req)) = origin_of req"
  by (simp add: swap_path_def origin_of_def Let_def)

lemma swap_body_origin: "swap_body sec real req = Some (req', locs) \<Longrightarrow> origin_of req' = origin_of req"
  by (auto simp: swap_body_def origin_of_def split: body.splits prod.splits read_outcome.splits if_splits)

lemma swap_everywhere_origin:
  assumes "swap_everywhere sec real req = Some (req', locs)"
  shows "origin_of req' = origin_of req"
proof -
  define r1 where "r1 = fst (swap_headers sec real req)"
  define r2 where "r2 = (if rs_match_query sec then fst (swap_query sec real r1) else r1)"
  define r3 where "r3 = (if rs_match_path sec then fst (swap_path sec real r2) else r2)"
  have "\<exists>l4. (if rs_match_body sec then swap_body sec real r3 else Some (r3, [])) = Some (req', l4)"
    using assms by (auto simp: swap_everywhere_def r1_def r2_def r3_def Let_def split: prod.splits option.splits if_splits)
  then have "origin_of req' = origin_of r3" by (auto split: if_splits dest: swap_body_origin)
  then show ?thesis
    by (simp add: r1_def r2_def r3_def swap_headers_origin swap_query_origin swap_path_origin)
qed

lemma inject_secret_origin: "inject_secret sec real req = Some (req', locs) \<Longrightarrow> origin_of req' = origin_of req"
  by (auto simp: inject_secret_def set_rawquery_def origin_of_def Let_def split: if_splits option.splits)

lemma plain_step_applied:
  assumes "match_any_rule (rs_rules sec) req" "secret_admits sec tctx" "src_get (rs_source sec) = Some v"
    and "plain_step sec (tctx, req, lg) = ((tctx', req', lg'), out)"
    and "req1 = remember_scrub sec v
      (if rs_scrub sec then req\<lparr>r_header := h_del (r_header req) ''Accept-Encoding''\<rparr> else req)"
  shows "origin_of req' = origin_of req1 \<and> same_origin tctx req' tctx' req'
    \<and> (lg_swapped lg' = lg_swapped lg
       \<or> rs_mode sec = ModeReplace \<and> (\<exists>locs. lg_swapped lg' = lg_swapped lg @ [(src_name (rs_source sec), locs)]))"
proof (cases "rs_mode sec")
  case ModeInject
  with assms show ?thesis
    by (cases "inject_secret sec v req1")
      (auto simp: plain_step_def Let_def same_origin_def dest: inject_secret_origin split: if_splits)
next
  case ModeReplace
  with assms show ?thesis
    by (cases "swap_everywhere sec v req1")
      (auto simp: plain_step_def Let_def same_origin_def dest: swap_everywhere_origin split: if_splits)
qed

lemma plain_step_skip:
  assumes "\<not> match_any_rule (rs_rules sec) req \<or> \<not> secret_admits sec tctx"
  obtains lg' where "plain_step sec (tctx, req, lg) = ((tctx, req, lg'), None)" "lg_swapped lg' = lg_swapped lg"
  using assms by (cases "match_any_rule (rs_rules sec) req") (auto simp: plain_step_def Let_def)

lemma plain_step_absent:
  assumes "src_get (rs_source sec) = None" "plain_step sec (tctx, req, lg) = ((tctx', req', lg'), out)"
  shows "origin_of req' = origin_of req \<and> same_origin tctx req' tctx' req' \<and> lg_swapped lg' = lg_swapped lg"
  using assms by (auto simp: plain_step_def Let_def same_origin_def origin_of_def split: if_splits)

lemma secret_step_origin:
  assumes "secret_step vv now sec (tctx, req, lg) = ((tctx', req', lg'), out)"
  shows "same_origin tctx req tctx' req'"
proof (cases "rs_presentation sec")
  case None
  then have p: "plain_step sec (tctx, req, lg) = ((tctx', req', lg'), out)" using assms by (simp add: secret_step_def)
  consider "\<not> match_any_rule (rs_rules sec) req \<or> \<not> secret_admits sec tctx" | "src_get (rs_source sec) = None"
    | v where "match_any_rule (rs_rules sec) req" "secret_admits sec tctx" "src_get (rs_source sec) = Some v"
    by auto
  then show ?thesis
  proof cases
    case 1
    then obtain l where "plain_step sec (tctx, req, lg) = ((tctx, req, l), None)" by (rule plain_step_skip)
    with p show ?thesis by simp
  next
    case 2
    from plain_step_absent [OF this p] show ?thesis by (simp add: same_origin_def origin_of_def)
  next
    case (3 v)
    from plain_step_applied [OF this p refl] show ?thesis by (simp add: same_origin_def origin_of_def split: if_splits)
  qed
next
  case (Some p)
  obtain r res where s: "swap_canonical vv now p sec tctx req = (r, res)" by (metis prod.exhaust)
  then have "same_origin tctx req tctx r"
    by (cases rule: swap_canonical_cases) (simp_all add: same_origin_def component_fields)
  with assms Some s show ?thesis
    by (cases res) (auto simp: secret_step_def same_origin_def)
qed

section \<open>A secret out of scope\<close>

text \<open>
  When a secret cannot apply: a plain one when no rule of it names the host, or it is bound
  to TLS and the request came without; a canonical one when the request did not come over
  TLS with the server name it is addressed to, or no rule of it names that host.
\<close>

definition out_of_scope :: "resolved_secret \<Rightarrow> transform_context \<Rightarrow> srequest \<Rightarrow> bool" where
  "out_of_scope sec tctx req =
    (case rs_presentation sec of
       None \<Rightarrow> (\<forall>r \<in> set (rs_rules sec). \<not> rule_matches_host r (strip_port (r_host req)))
         \<or> rs_tls_only sec \<and> tc_sni tctx = []
     | Some _ \<Rightarrow> r_tls req = None \<or> authority (r_host req) = None
         \<or> map_option fst (authority (tc_sni tctx)) \<noteq> map_option fst (authority (r_host req))
         \<or> (\<forall>r \<in> set (rs_rules sec). \<not> rule_matches_host r (fst (the (authority (r_host req))))))"

definition with_value :: "string option \<Rightarrow> resolved_secret \<Rightarrow> resolved_secret" where
  "with_value v sec = sec\<lparr>rs_source := (rs_source sec)\<lparr>src_get := v\<rparr>\<rparr>"

lemma with_value_simps [simp]:
  "rs_presentation (with_value v sec) = rs_presentation sec" "rs_rules (with_value v sec) = rs_rules sec"
  "rs_tls_only (with_value v sec) = rs_tls_only sec" "rs_proxy_value (with_value v sec) = rs_proxy_value sec"
  "rs_expires (with_value v sec) = rs_expires sec" "src_name (rs_source (with_value v sec)) = src_name (rs_source sec)"
  "src_get (rs_source (with_value v sec)) = v"
  by (simp_all add: with_value_def)

lemma out_of_scope_origin:
  "same_origin tctx0 req0 tctx req \<Longrightarrow> out_of_scope sec tctx req = out_of_scope sec tctx0 req0"
  by (simp add: out_of_scope_def same_origin_def cong: option.case_cong)

lemma out_of_scope_canonical:
  assumes "out_of_scope sec tctx req" "rs_presentation sec = Some p"
  shows "\<not> canonical_scope sec tctx req"
  using assms by (auto simp: out_of_scope_def canonical_scope_def permits_def rule_permits_def list_ex_iff
      split: option.splits if_splits)

lemma secret_step_out_of_scope:
  assumes "out_of_scope sec tctx req"
  shows "secret_step vv now (with_value v sec) (tctx, req, lg) = secret_step vv now (with_value w sec) (tctx, req, lg)"
proof (cases "rs_presentation sec")
  case None
  with assms have "\<not> match_any_rule (rs_rules sec) req \<or> \<not> secret_admits sec tctx"
    by (auto simp: out_of_scope_def match_any_rule_def rule_matches_def secret_admits_def list_ex_iff Let_def)
  with None show ?thesis by (auto simp: secret_step_def plain_step_def secret_admits_def Let_def)
next
  case (Some p)
  have "\<not> canonical_scope (with_value x sec) tctx req" for x
    using out_of_scope_canonical [OF assms Some] by (simp add: canonical_scope_def permits_def cong: option.case_cong)
  then have "swap_canonical vv now p (with_value x sec) tctx req =
      (req, if tc_tunnel_admission tctx then Some []
            else case component p sec req of CompAbsent \<Rightarrow> Some [] | _ \<Rightarrow> None)" for x
    by (simp add: swap_canonical_def component_def split: component_result.splits)
  with Some show ?thesis by (simp add: secret_step_def split: option.splits)
qed

lemma secrets_loop_out_of_scope:
  assumes "k < length secs" "out_of_scope (secs ! k) tctx req"
  shows "secrets_loop vv clock i (secs[k := with_value v (secs ! k)]) (tctx, req, lg)
    = secrets_loop vv clock i (secs[k := with_value w (secs ! k)]) (tctx, req, lg)"
  using assms
proof (induction secs arbitrary: k i tctx req lg)
  case (Cons sec secs)
  show ?case
  proof (cases k)
    case 0
    with Cons.prems show ?thesis using secret_step_out_of_scope [of sec tctx req vv "clock i" v lg w] by simp
  next
    case (Suc j)
    obtain t r l out where st: "secret_step vv (clock i) sec (tctx, req, lg) = ((t, r, l), out)"
      by (metis prod_cases3 prod.exhaust)
    from out_of_scope_origin [OF secret_step_origin [OF st]] Cons.prems Suc
    have "out_of_scope (secs ! j) t r" by simp
    with Cons.IH [of j t r "Suc i" l] Cons.prems Suc st show ?thesis by (cases out) simp_all
  qed
qed simp

definition with_values :: "nat \<Rightarrow> string option \<Rightarrow> secrets \<Rightarrow> secrets" where
  "with_values k v s = s\<lparr>ss_secrets := (ss_secrets s)[k := with_value v (ss_secrets s ! k)]\<rparr>"

end
