(* ===== verification/Secrets_Flow.thy ===== *)
theory Secrets_Flow
  imports Secrets_Response
begin

text \<open>
  The properties of the credential transform: when a canonical value is released and where it
  may be sent, that what was put into a request is taken out of its response, how a basic
  credential is rewritten, and where the pending path differs from the ordinary one.
\<close>

section \<open>Release of canonical values\<close>

lemma canonical_scopeD:
  assumes "canonical_scope sec tctx req"
  obtains h port where "authority (r_host req) = Some (h, port)" "map_option fst (authority (tc_sni tctx)) = Some h"
    "r_tls req \<noteq> None" "permits sec req h"
    "u_host (r_url req) = [] \<or> authority (u_host (r_url req)) = Some (h, port) \<and> u_scheme (r_url req) = ''https''"
    "\<And>tun. tc_tunnel tctx = Some tun \<Longrightarrow> authority (tun_target tun) = Some (h, port)"
  using assms by (auto simp: canonical_scope_def split: option.splits prod.splits)

lemma permits_wire_path:
  assumes "permits sec req h"
  shows "url_escaped_path (r_url req) = u_path (r_url req)"
  using assms escaped_path_no_percent by (simp add: permits_def contains_char_def url_escaped_path_def)

text \<open>
  C5: A canonical value enters a request only over TLS, when the host of the request, the
  target of the tunnel, if there is one, and the host of the request's URL, if it has one, are one
  and the same authority, that URL is then an HTTPS one, the server name of the handshake is the
  host of that authority, a rule names that host and covers method and path, the path is the one
  on the wire, and the secret has not expired by the time it has been fetched. In every other case
  the request is unchanged.
\<close>

theorem canonical_release:
  assumes "swap_canonical vv now p sec tctx req = (req', res)" "req' \<noteq> req"
  shows "r_tls req \<noteq> None
    \<and> (\<exists>h port. authority (r_host req) = Some (h, port) \<and> map_option fst (authority (tc_sni tctx)) = Some h
         \<and> (case tc_tunnel tctx of Some tun \<Rightarrow> authority (tun_target tun) = Some (h, port) | None \<Rightarrow> True)
         \<and> (u_host (r_url req) = [] \<or> authority (u_host (r_url req)) = Some (h, port) \<and> u_scheme (r_url req) = ''https'')
         \<and> (\<exists>rule \<in> set (rs_rules sec). rule_permits rule h (r_method req) (u_path (r_url req))))
    \<and> url_escaped_path (r_url req) = u_path (r_url req) \<and> before_expiry (snd now) sec"
  using assms(1)
proof (cases rule: swap_canonical_cases)
  case (released f loc v)
  obtain h port where s: "authority (r_host req) = Some (h, port)" "map_option fst (authority (tc_sni tctx)) = Some h"
    "r_tls req \<noteq> None" "permits sec req h"
    "\<And>tun. tc_tunnel tctx = Some tun \<Longrightarrow> authority (tun_target tun) = Some (h, port)"
    "u_host (r_url req) = [] \<or> authority (u_host (r_url req)) = Some (h, port) \<and> u_scheme (r_url req) = ''https''"
    using canonical_scopeD [OF released(2)] by metis
  then show ?thesis
    using released(4) permits_wire_path [OF s(4)]
    by (auto simp: permits_def list_ex_iff split: option.splits)
qed (use assms(2) in simp)

definition canonical_secret :: resolved_secret where
  "canonical_secret =
    \<lparr>rs_presentation = Some \<lparr>pn_type = ''bearer'', pn_name = [], pn_username = []\<rparr>, rs_expires = Some 100,
     rs_source = \<lparr>src_name = ''TOKEN'', src_get = Some ''s3''\<rparr>, rs_mode = ModeReplace,
     rs_rules = [\<lparr>rl_matcher = \<lparr>m_domains = [''api.example.com''], m_cidrs = []\<rparr>, rl_methods = None,
        rl_paths = Some [''/v1/*'']\<rparr>],
     rs_proxy_value = ''PH'', rs_match_headers = [], rs_match_body = False, rs_match_path = False,
     rs_match_query = False, rs_require = True, rs_allow_connect = False, rs_tls_only = True, rs_scrub = True,
     rs_inject_header = [], rs_inject_query = [], rs_formatter = None\<rparr>"

definition bearer_request :: srequest where
  "bearer_request =
    \<lparr>r_method = ''GET'', r_host = ''api.example.com'',
     r_url = \<lparr>u_scheme = ''https'', u_host = ''api.example.com'', u_path = ''/v1/items'', u_rawpath = [],
       u_rawquery = [], u_user = False\<rparr>,
     r_header = [(''Authorization'', [''Bearer PH''])], r_body = Buffered (new_buffered_body_from_bytes []),
     r_tls = Some ''api.example.com'', r_remote = [], r_content_length = 0, r_ctx = None\<rparr>"

definition tls_context :: transform_context where
  "tls_context =
    \<lparr>tc_sni = ''api.example.com'', tc_mode = ModeMITM, tc_tunnel = None, tc_tunnel_admission = False,
     tc_body_capture = None, tc_annotations = []\<rparr>"

abbreviation bearer :: presentation where
  "bearer \<equiv> \<lparr>pn_type = ''bearer'', pn_name = [], pn_username = []\<rparr>"

lemma bearer_swap:
  "r_header (fst (swap_canonical (\<lambda>_. True) (1, 2) bearer canonical_secret tls_context bearer_request))
    = [(''Authorization'', [''Bearer s3''])]"
  by code_simp

theorem canonical_release_witness:
  "\<exists>rule \<in> set (rs_rules canonical_secret). rule_permits rule ''api.example.com'' ''GET'' ''/v1/items''"
proof -
  obtain req' res where s: "swap_canonical (\<lambda>_. True) (1, 2) bearer canonical_secret tls_context bearer_request = (req', res)"
    by (metis prod.exhaust)
  have "req' \<noteq> bearer_request" using bearer_swap unfolding s by (auto simp: bearer_request_def)
  from canonical_release [OF s this] have "\<exists>h port. authority (r_host bearer_request) = Some (h, port)
      \<and> (\<exists>rule \<in> set (rs_rules canonical_secret). rule_permits rule h (r_method bearer_request) (u_path (r_url bearer_request)))"
    by blast
  moreover have "authority (r_host bearer_request) = Some (''api.example.com'', ''443'')" by code_simp
  ultimately show ?thesis by (auto simp: bearer_request_def)
qed

section \<open>The final destination\<close>

lemma remember_canonical:
  assumes "rs_presentation sec = Some p" "rs_scrub sec" "rs_mode sec = ModeReplace"
  shows "\<exists>st. r_ctx (remember_scrub sec v req) = Some st \<and> qs_authority st = r_host req \<and> sec \<in> set (qs_canonical st)"
  using assms by (auto simp: remember_scrub_def Let_def)

text \<open>
  C6: Once a canonical value is in a request, the request is sent only to the authority it
  was addressed to when the value was released, over HTTPS or secure WebSocket, to a path the
  secret's rules permit and before it expires, whatever later transforms and retries make of
  the URL.
\<close>

theorem canonical_destination:
  assumes "swap_canonical vv now p sec tctx req = (req', res)" "req' \<noteq> req"
    and "rs_presentation sec = Some p" "rs_scrub sec" "rs_mode sec = ModeReplace"
    and "r_ctx out = r_ctx req'" "validate_final_destination later out"
  shows "authority (u_host (r_url out)) = authority (r_host req) \<and> authority (r_host req) \<noteq> None
    \<and> u_scheme (r_url out) \<in> {''https'', ''wss''} \<and> before_expiry (later sec) sec
    \<and> permits sec out (fst (the (authority (r_host req))))"
  using assms(1)
proof (cases rule: swap_canonical_cases)
  case (released f loc v)
  obtain st where st: "r_ctx out = Some st" "qs_authority st = r_host (f v)" "sec \<in> set (qs_canonical st)"
    using remember_canonical [OF assms(3-5), of v "f v"] assms(6) released(6) by auto
  then have "qs_canonical st \<noteq> []" "qs_authority st = r_host req" using component_fields [OF released(1)] by auto
  with assms(7) st show ?thesis
    by (auto simp: validate_final_destination_def Let_def list_all_iff split: option.splits)
qed (use assms(2) in simp)

definition redirected :: srequest where
  "redirected = (let r = fst (swap_canonical (\<lambda>_. True) (1, 2) bearer canonical_secret tls_context bearer_request)
     in r\<lparr>r_url := (r_url r)\<lparr>u_path := ''/v1/other''\<rparr>\<rparr>)"

theorem canonical_destination_witness:
  "authority (u_host (r_url redirected)) = authority ''api.example.com'' \<and> u_scheme (r_url redirected) \<in> {''https'', ''wss''}"
proof -
  obtain req' res where s: "swap_canonical (\<lambda>_. True) (1, 2) bearer canonical_secret tls_context bearer_request = (req', res)"
    by (metis prod.exhaust)
  have c: "req' \<noteq> bearer_request" using bearer_swap unfolding s by (auto simp: bearer_request_def)
  have "r_ctx redirected = r_ctx req'" by (simp add: redirected_def s)
  moreover have "validate_final_destination (\<lambda>_. 3) redirected" by code_simp
  ultimately show ?thesis
    using canonical_destination [OF s c, of redirected "\<lambda>_. 3"] by (simp add: canonical_secret_def bearer_request_def)
qed

section \<open>From the request to the response\<close>

text \<open>The response of a request will be scrubbed of the value the secret has now.\<close>

text \<open>What a request remembers only grows.\<close>

definition pairs_of :: "srequest \<Rightarrow> scrub_pair set" where
  "pairs_of req = (case r_ctx req of Some st \<Rightarrow> set (qs_pairs st) | None \<Rightarrow> {})"

lemma pairs_of_remember:
  "pairs_of (remember_scrub sec v req) = pairs_of req
    \<union> (if rs_scrub sec \<and> rs_mode sec = ModeReplace then set (secret_pairs sec v) else {})"
  by (auto simp: pairs_of_def remember_scrub_def empty_scrubs_def Let_def split: option.splits)

lemma pairs_of_origin: "origin_of a = origin_of b \<Longrightarrow> pairs_of a = pairs_of b"
  by (simp add: pairs_of_def origin_of_def)

lemma pairs_of_ctx: "r_ctx a = r_ctx b \<Longrightarrow> pairs_of a = pairs_of b"
  by (simp add: pairs_of_def)

lemma secret_step_pairs:
  assumes "secret_step vv now sec (tctx, req, lg) = ((tctx', req', lg'), out)"
  shows "pairs_of req \<subseteq> pairs_of req'
    \<and> (lg_swapped lg' = lg_swapped lg
       \<or> (\<exists>locs. lg_swapped lg' = lg_swapped lg @ [(src_name (rs_source sec), locs)])
         \<and> (\<exists>v. src_get (rs_source sec) = Some v
             \<and> (rs_scrub sec \<and> rs_mode sec = ModeReplace \<longrightarrow> set (secret_pairs sec v) \<subseteq> pairs_of req')))"
proof (cases "rs_presentation sec")
  case None
  then have p: "plain_step sec (tctx, req, lg) = ((tctx', req', lg'), out)" using assms by (simp add: secret_step_def)
  consider "\<not> match_any_rule (rs_rules sec) req \<or> \<not> secret_admits sec tctx" | "src_get (rs_source sec) = None"
    | v where "match_any_rule (rs_rules sec) req" "secret_admits sec tctx" "src_get (rs_source sec) = Some v"
    by auto
  then show ?thesis
  proof cases
    case 1
    then obtain l where "plain_step sec (tctx, req, lg) = ((tctx, req, l), None)" "lg_swapped l = lg_swapped lg"
      by (rule plain_step_skip)
    with p show ?thesis by simp
  next
    case 2
    from plain_step_absent [OF this p] show ?thesis by (auto dest: pairs_of_origin)
  next
    case (3 v)
    let ?r0 = "if rs_scrub sec then req\<lparr>r_header := h_del (r_header req) ''Accept-Encoding''\<rparr> else req"
    note a = plain_step_applied [OF 3 p refl]
    have "pairs_of req' = pairs_of (remember_scrub sec v ?r0)" using a by (intro pairs_of_origin) blast
    moreover have "pairs_of ?r0 = pairs_of req" by (intro pairs_of_ctx) simp
    ultimately have "pairs_of req' = pairs_of req
        \<union> (if rs_scrub sec \<and> rs_mode sec = ModeReplace then set (secret_pairs sec v) else {})"
      by (simp only: pairs_of_remember)
    with a 3(3) show ?thesis by auto
  qed
next
  case (Some p)
  obtain r res where s: "swap_canonical vv now p sec tctx req = (r, res)" by (metis prod.exhaust)
  then show ?thesis
  proof (cases rule: swap_canonical_cases)
    case kept
    with assms Some s show ?thesis by (cases res) (auto simp: secret_step_def)
  next
    case (released f loc v)
    have "pairs_of (f v) = pairs_of req" using component_fields [OF released(1)] by (intro pairs_of_ctx) simp
    with released assms Some s show ?thesis by (auto simp: secret_step_def pairs_of_remember)
  qed
qed

lemma secrets_loop_pairs:
  assumes "secrets_loop vv clock i secs (tctx, req, lg) = ((tctx', req', lg'), out)"
  shows "pairs_of req \<subseteq> pairs_of req'
    \<and> (\<forall>e \<in> set (lg_swapped lg') - set (lg_swapped lg). \<exists>sec \<in> set secs. src_name (rs_source sec) = fst e
        \<and> (\<exists>v. src_get (rs_source sec) = Some v
             \<and> (rs_scrub sec \<and> rs_mode sec = ModeReplace \<longrightarrow> set (secret_pairs sec v) \<subseteq> pairs_of req')))"
  using assms
proof (induction secs arbitrary: i tctx req lg)
  case (Cons sec secs)
  obtain t r l o1 where st: "secret_step vv (clock i) sec (tctx, req, lg) = ((t, r, l), o1)"
    by (metis prod_cases3 prod.exhaust)
  note p = secret_step_pairs [OF st]
  show ?case
  proof (cases o1)
    case None
    with Cons.prems st have rest: "secrets_loop vv clock (Suc i) secs (t, r, l) = ((tctx', req', lg'), out)" by simp
    note ih = Cons.IH [OF rest]
    show ?thesis
    proof (intro conjI ballI)
      show "pairs_of req \<subseteq> pairs_of req'" using p ih by blast
      fix e
      assume e: "e \<in> set (lg_swapped lg') - set (lg_swapped lg)"
      show "\<exists>s \<in> set (sec # secs). src_name (rs_source s) = fst e
        \<and> (\<exists>v. src_get (rs_source s) = Some v
             \<and> (rs_scrub s \<and> rs_mode s = ModeReplace \<longrightarrow> set (secret_pairs s v) \<subseteq> pairs_of req'))"
      proof (cases "e \<in> set (lg_swapped l)")
        case True
        with e p ih show ?thesis by (intro bexI [of _ sec]) fastforce+
      qed (use e ih in auto)
    qed
  next
    case (Some x)
    with Cons.prems st have eq: "t = tctx'" "r = req'" "l = lg'" by auto
    show ?thesis using p unfolding eq by fastforce
  qed
qed simp

lemma secrets_response_body:
  assumes "r_ctx req = Some st" "qs_pairs st \<noteq> []" "\<not> no_body req resp"
    and "secrets_response tctx req resp = (tctx', req', resp', Done continue_result)"
    and "require_buffered_body (p_body resp) = Some b"
  shows "p_body resp' = Buffered (new_buffered_body (Some (scrub_stream (new_scrubber (qs_pairs st))
    (snd (streaming_reader b)))) 0)"
  using assms by (auto simp: secrets_response_def Let_def no_body_def continue_result_def split: if_splits)

lemma secret_pairs_value:
  "v \<noteq> [] \<Longrightarrow> \<lparr>pair_needle = v, pair_repl = rs_proxy_value sec, pair_fold = False\<rparr> \<in> set (secret_pairs sec v)"
  by (simp add: secret_pairs_def scrub_pairs_value Let_def split: option.splits)

text \<open>
  C8: When a secret marked for response scrubbing, with a value of ASCII characters other than the
  percent sign, the backslash and the ampersand, was swapped into a request, the body of the
  response to that request is delivered through the scrub, and no stretch of bytes that passes
  unchanged contains the secret's value. (The conditions are on every secret that carries the
  name under which the swap was logged.)
\<close>

theorem swapped_not_reflected:
  assumes "secrets_loop vv clock i secs (tctx, req, empty_log) = ((tctx1, req1, lg), None)"
    and "(n, locs) \<in> set (lg_swapped lg)"
    and "list_all (\<lambda>sec. src_name (rs_source sec) = n \<longrightarrow> rs_scrub sec \<and> rs_mode sec = ModeReplace
      \<and> (case src_get (rs_source sec) of Some v \<Rightarrow> v \<noteq> [] \<and> list_all plain_char v | None \<Rightarrow> True)) secs"
    and "\<not> no_body req1 resp" "require_buffered_body (p_body resp) = Some b"
    and "secrets_response tctx2 req1 resp = (tctx3, req3, resp', Done continue_result)"
  shows "\<exists>sec \<in> set secs. \<exists>v pairs. src_name (rs_source sec) = n \<and> src_get (rs_source sec) = Some v
    \<and> p_body resp' = Buffered (new_buffered_body (Some (scrub_stream (new_scrubber pairs) (snd (streaming_reader b)))) 0)
    \<and> (\<nexists>before run after. pieces (new_scrubber pairs) (rd_content (snd (streaming_reader b)))
         = before @ map Copied run @ after \<and> sublist v run)"
proof -
  obtain sec v where sec: "sec \<in> set secs" "src_name (rs_source sec) = n" "src_get (rs_source sec) = Some v"
    and pairs: "rs_scrub sec \<and> rs_mode sec = ModeReplace \<longrightarrow> set (secret_pairs sec v) \<subseteq> pairs_of req1"
    using secrets_loop_pairs [OF assms(1)] assms(2) by (fastforce simp: empty_log_def)
  from assms(3) sec have m: "rs_scrub sec" "rs_mode sec = ModeReplace" "v \<noteq> []" "list_all plain_char v"
    by (auto simp: list_all_iff)
  let ?q = "\<lparr>pair_needle = v, pair_repl = rs_proxy_value sec, pair_fold = False\<rparr>"
  from pairs m secret_pairs_value [OF m(3), of sec] have q: "?q \<in> pairs_of req1" by blast
  then obtain st where st: "r_ctx req1 = Some st" "?q \<in> set (qs_pairs st)"
    by (auto simp: pairs_of_def split: option.splits)
  then have "qs_pairs st \<noteq> []" by auto
  from secrets_response_body [OF st(1) this assms(4,6,5)] copied_no_plain_needle [OF st(2)] m sec
  show ?thesis by (intro bexI [of _ sec] exI [of _ v] exI [of _ "qs_pairs st"]) auto
qed

section \<open>Basic credentials\<close>

text \<open>
  In a basic credential the placeholder is looked for and replaced in the decoded text,
  and the header that results decodes to exactly that text.
\<close>

theorem basic_credential_rewritten:
  assumes "equal_fold name ''Authorization''" "decode_basic_auth value = Some decoded"
  shows "decode_basic_auth (replace_in_header name value pv rv) = Some (replace_all decoded pv rv)
    \<and> header_contains name value pv = str_contains decoded pv"
  using assms
  by (simp add: replace_in_header_def header_contains_def decode_basic_auth_def cut_prefix_def
      base64_decode_encode split: option.splits if_splits)

theorem basic_credential_rewritten_witness:
  "decode_basic_auth (replace_in_header ''authorization'' ''Basic dXNlcjpQSA=='' ''PH'' ''real'') = Some ''user:real''"
proof -
  have "base64_encode ''user:PH'' = ''dXNlcjpQSA==''" by code_simp
  with base64_decode_encode [of False "''user:PH''"]
  have "decode_basic_auth ''Basic dXNlcjpQSA=='' = Some ''user:PH''" by (simp add: decode_basic_auth_def cut_prefix_def)
  moreover have "equal_fold ''authorization'' ''Authorization''"
    "replace_all ''user:PH'' ''PH'' ''real'' = ''user:real''" by code_simp+
  ultimately show ?thesis
    using basic_credential_rewritten [of "''authorization''" "''Basic dXNlcjpQSA==''" "''user:PH''" "''PH''" "''real''"]
    by simp
qed

section \<open>The pending path\<close>

definition tls_only_secret :: resolved_secret where
  "tls_only_secret = canonical_secret\<lparr>rs_presentation := None, rs_expires := None, rs_scrub := False\<rparr>"

lemma wait_for_pending_none:
  "list_all (\<lambda>p. \<not> match_any_rule (pd_rules p) req \<or> \<not> carries p req) ps \<Longrightarrow>
    wait_for_pending vv clock waits ps tctx req = (tctx, req, None)"
  by (induction ps) auto

text \<open>
  C7: A secret that is out of scope for a request which carries no pending placeholder has no
  influence on it: whatever the source of the secret answers, the request that leaves, the
  annotations and the decision are the same. A secret bound to TLS is out of scope for a plaintext
  request, and every secret is for a host no rule of it names. The condition on pending
  placeholders is needed: the pending path does not ask for the scope of the secret it installs.
\<close>

theorem secret_no_influence:
  assumes "list_all (\<lambda>p. \<not> match_any_rule (pd_rules p) req \<or> \<not> carries p req) (ss_pending s)"
    and "k < length (ss_secrets s)" "out_of_scope (ss_secrets s ! k) tctx req"
  shows "secrets_request vv clock waits (with_values k v s) tctx req
    = secrets_request vv clock waits (with_values k w s) tctx req"
  using wait_for_pending_none [OF assms(1)] secrets_loop_out_of_scope [OF assms(2,3), of vv clock 0 v empty_log w]
  by (simp add: secrets_request_def with_values_def)

definition plain_pending :: resolved_pending where
  "plain_pending = \<lparr>pd_slot = 0, pd_proxy_value = ''PH'', pd_match_headers = [], pd_rules = rs_rules canonical_secret,
     pd_name = ''TOKEN'', pd_sandbox = []\<rparr>"

theorem secret_no_influence_witness:
  "secrets_request (\<lambda>_. True) (\<lambda>_. (1, 2)) (\<lambda>_. WaitTimeout)
      (with_values 0 None \<lparr>ss_secrets = [tls_only_secret], ss_pending = [plain_pending\<lparr>pd_rules := []\<rparr>], ss_pending_wait = 5\<rparr>)
      (tls_context\<lparr>tc_sni := []\<rparr>) bearer_request
    = secrets_request (\<lambda>_. True) (\<lambda>_. (1, 2)) (\<lambda>_. WaitTimeout)
      (with_values 0 (Some ''other'') \<lparr>ss_secrets = [tls_only_secret], ss_pending = [plain_pending\<lparr>pd_rules := []\<rparr>], ss_pending_wait = 5\<rparr>)
      (tls_context\<lparr>tc_sni := []\<rparr>) bearer_request"
  by (rule secret_no_influence) (simp_all add: out_of_scope_def tls_only_secret_def canonical_secret_def
      tls_context_def secret_admits_def match_any_rule_def)

lemma tls_only_swap:
  "header_contains ''Authorization'' ''Bearer PH'' ''PH''"
  "replace_in_header ''Authorization'' ''Bearer PH'' ''PH'' ''s3'' = ''Bearer s3''"
proof -
  have d: "decode_basic_auth ''Bearer PH'' = None" by (simp add: decode_basic_auth_def cut_prefix_def)
  moreover have "str_contains ''Bearer PH'' ''PH''" by code_simp
  ultimately show "header_contains ''Authorization'' ''Bearer PH'' ''PH''" by (simp add: header_contains_def)
  have "replace_all ''Bearer PH'' ''PH'' ''s3'' = ''Bearer s3''" by code_simp
  with d show "replace_in_header ''Authorization'' ''Bearer PH'' ''PH'' ''s3'' = ''Bearer s3''"
    by (simp add: replace_in_header_def)
qed

lemma plain_pending_carries: "carries plain_pending (bearer_request\<lparr>r_tls := None\<rparr>)"
  by (simp add: carries_def plain_pending_def bearer_request_def tls_only_swap)

lemma plain_pending_match: "match_any_rule (pd_rules plain_pending) (bearer_request\<lparr>r_tls := None\<rparr>)"
  by code_simp

definition scrubbed_secret :: resolved_secret where
  "scrubbed_secret = canonical_secret\<lparr>rs_presentation := None, rs_expires := None\<rparr>"

definition echo_response :: response where
  "echo_response = \<lparr>p_status = 200, p_header = [], p_body = Buffered (new_buffered_body_from_bytes ''you sent s3''),
     p_content_length = 11, p_trailer = []\<rparr>"

definition scrubbed_request :: srequest where
  "scrubbed_request = bearer_request\<lparr>r_header := [(''Authorization'', [''Bearer s3''])],
     r_ctx := Some (empty_scrubs\<lparr>qs_pairs := secret_pairs scrubbed_secret ''s3'', qs_names := [''TOKEN'']\<rparr>)\<rparr>"

lemma scrubbed_loop:
  "secrets_loop (\<lambda>_. True) (\<lambda>_. (1, 2)) 0 [scrubbed_secret] (tls_context, bearer_request, empty_log) =
    ((tls_context, scrubbed_request, empty_log\<lparr>lg_swapped := [(''TOKEN'', [''header:Authorization''])]\<rparr>), None)"
proof -
  have "match_any_rule (rs_rules scrubbed_secret) bearer_request" by code_simp
  then show ?thesis
    by (simp add: secret_step_def plain_step_def scrubbed_secret_def [unfolded canonical_secret_def] scrubbed_request_def
        secret_admits_def tls_context_def remember_scrub_def swap_everywhere_def swap_headers_def
        swap_all_headers_def tls_only_swap bearer_request_def empty_log_def empty_scrubs_def h_del_def
        map_del_def canonical_key_def Let_def)
qed

theorem swapped_not_reflected_witness:
  "\<exists>pairs. p_body (fst (snd (snd (secrets_response tls_context scrubbed_request echo_response))))
    = Buffered (new_buffered_body (Some (scrub_stream (new_scrubber pairs)
        (snd (streaming_reader (new_buffered_body_from_bytes ''you sent s3''))))) 0)"
proof -
  let ?out = "secrets_response tls_context scrubbed_request echo_response"
  have "snd (snd (snd ?out)) = Done continue_result"
    by (simp add: secrets_response_def echo_response_def scrub_headers_def h_get_def no_body_def h_values_def map_get_def
        require_buffered_body_def scrubbed_request_def bearer_request_def Let_def)
  then have out: "?out = (fst ?out, fst (snd ?out), fst (snd (snd ?out)), Done continue_result)"
    by (metis prod.collapse)
  have pc: "plain_char CHR ''s''" "plain_char CHR ''3''" by code_simp+
  have b: "\<not> no_body scrubbed_request echo_response"
    "require_buffered_body (p_body echo_response) = Some (new_buffered_body_from_bytes ''you sent s3'')"
    by (simp_all add: no_body_def echo_response_def scrubbed_request_def bearer_request_def require_buffered_body_def)
  from swapped_not_reflected [OF scrubbed_loop _ _ b out, of "''TOKEN''" "[''header:Authorization'']"]
  show ?thesis using pc by (auto simp: scrubbed_secret_def canonical_secret_def)
qed

text \<open>
  C30: A secret bound to TLS is swapped into a plaintext request when it arrives through the
  pending path; the same secret in the same request keeps its placeholder on the ordinary
  path.
\<close>

theorem pending_ignores_tls_only:
  "r_header (fst (snd (secrets_request (\<lambda>_. True) (\<lambda>_. (1, 2)) (\<lambda>_. WaitReady tls_only_secret)
      \<lparr>ss_secrets = [], ss_pending = [plain_pending], ss_pending_wait = 5\<rparr>
      (tls_context\<lparr>tc_sni := []\<rparr>) (bearer_request\<lparr>r_tls := None\<rparr>)))) = [(''Authorization'', [''Bearer s3''])]
    \<and> r_header (fst (snd (secrets_request (\<lambda>_. True) (\<lambda>_. (1, 2)) (\<lambda>_. WaitTimeout)
      \<lparr>ss_secrets = [tls_only_secret], ss_pending = [], ss_pending_wait = 5\<rparr>
      (tls_context\<lparr>tc_sni := []\<rparr>) (bearer_request\<lparr>r_tls := None\<rparr>)))) = [(''Authorization'', [''Bearer PH''])]"
  using plain_pending_carries plain_pending_match
  by (simp add: secrets_request_def swap_installed_def swap_headers_def swap_all_headers_def
      tls_only_swap secret_step_def plain_step_def
      tls_only_secret_def [unfolded canonical_secret_def] remember_scrub_def
      plain_pending_def [unfolded canonical_secret_def]
      secret_admits_def bearer_request_def tls_context_def Let_def)




text \<open>
  What the slots of a process satisfy from its start on: every placeholder has one slot, no two
  placeholders share one, and the slots handed out are the ones below the next number.
\<close>

definition slots_wf :: "pending_slots \<Rightarrow> bool" where
  "slots_wf sl \<longleftrightarrow>
    (\<forall>pv i. map_get (sl_by_value sl) pv = Some i \<longrightarrow> i < sl_next sl)
    \<and> (\<forall>pv pv' i. map_get (sl_by_value sl) pv = Some i \<and> map_get (sl_by_value sl) pv' = Some i \<longrightarrow> pv = pv')"

lemma slots_wf_initial: "slots_wf \<lparr>sl_by_value = [], sl_resolved = (\<lambda>_. None), sl_next = 0\<rparr>"
  by (simp add: slots_wf_def map_get_def)
















end
