(* ===== verification/Scrub_Escape.thy ===== *)
theory Scrub_Escape
  imports Scrub_Forms
begin

text \<open>
  A limit of the scrub: a secret that itself holds an escape of the percent sign. The match reads
  the escape, finds the percent sign it wanted, and goes on behind the escape, so the characters
  of the escape are never compared.
\<close>

section \<open>The match reads its own escape\<close>

lemma percent_token: "match_token (''%25'' @ b) True True = Some (37, 3, Sp FormPercent NoCase)"
proof -
  have "read_hex (CHR ''2'' # CHR ''5'' # b) 2 = HexOk 37 NoCase" by (cases b) code_simp+
  then show ?thesis
    by (simp add: match_token_def read_token_def read_escape_def read_percent_def percent_need_def is_escape_start_def
      rune_self_def rune_error_def)
qed

lemma plain_token: "plain_char c \<Longrightarrow> match_token (c # cs) e f = Some (byte c, 1, literal_spelling)"
  by (simp add: match_token_def plain_char_def)

lemma own_escape_no_match:
  assumes "list_all plain_char a" "list_all plain_char b" "b \<noteq> []" "hd b \<noteq> CHR ''2''"
  shows "match_from False True True (map byte (a @ ''%25'' @ b)) first 0 (a @ ''%25'' @ b) at sps = MatchNone"
  using assms(1)
proof (induction a arbitrary: first at sps)
  case Nil
  obtain c cs where b: "b = c # cs" using assms(3) by (cases b) auto
  have t: "match_token b True True = Some (byte c, 1, literal_spelling)"
    using assms(2) b plain_token by simp
  have "\<not> equal_rune (byte c) 50 False" "\<not> is_gap (byte c)"
    using assms(2,4) b by (auto simp: equal_rune_def plain_char_facts char_eq_byte)
  then have "match_from False True True (50 # 53 # map byte b) False 0 b (at + 3) sps' = MatchNone" for sps'
    using match_from_Cons [OF assms(3) t] by (simp add: fallback_def)
  then show ?case
    using match_from_Cons [OF _ percent_token, of b] by (simp add: equal_rune_def)
next
  case (Cons c a)
  have t: "match_token (c # a @ ''%25'' @ b) True True = Some (byte c, 1, literal_spelling)"
    using Cons.prems plain_token by simp
  from Cons match_from_Cons [OF _ t] show ?case by (simp add: equal_rune_def)
qed

section \<open>No other form is found either\<close>

lemma scan_copies:
  assumes inv: "scrubber_inv s" and none: "\<And>d. suffix d data \<Longrightarrow> d \<noteq> [] \<Longrightarrow> snd (try_at s True d) = None"
  shows "fst (scan s True data) = data"
  using none
proof (induction data)
  case (Cons c cs)
  have "fst (scan s True cs) = cs" using Cons by (simp add: suffix_Cons)
  moreover have "snd (try_at s True (c # cs)) = None" "\<not> fst (try_at s True (c # cs))"
    using Cons.prems [of "c # cs"] try_at_final [OF inv, of "c # cs"] by auto
  then have "try_at s True (c # cs) = (False, None)" by (cases "try_at s True (c # cs)") simp
  ultimately show ?case by (simp add: scan_Cons_copy)
qed simp

text \<open>A form that is not longer than the value is the value, its reverse or its rot13.\<close>

lemma fragment_not_short:
  assumes "(k, p, a, h, encode) \<in> set form_encoders" "6 \<le> length v" "pad < p"
  shows "length v < length (fragment encode k v pad)" "list_all plain_char (fragment encode k v pad)"
proof -
  note b = form_encoders_basic [OF assms(1)]
  have le: "length (encode_groups k a s) \<le> length (encode s)" for s using prefix_length_le [OF b(6) [of s]] by simp
  have "length v < 8 * (pad + length v) div k - (8 * pad + k - 1) div k"
    using assms by (cases rule: form_encoders_cases) (auto simp: algebra_simps)
  then show "length v < length (fragment encode k v pad)" by (simp add: fragment_length [OF b(1) le])
  show "list_all plain_char (fragment encode k v pad)" by (rule fragment_set [OF b(1,4,6,5)])
qed

lemma short_forms:
  assumes "(n, r, f) \<in> set (scrub_forms v ph)" "6 \<le> length v" "length (decode_runes n) \<le> length v"
  shows "\<not> f \<and> (n = reverse_text v \<or> n = rot13 v)"
proof (rule ccontr)
  assume "\<not> ?thesis"
  with assms(1) consider "n = hex_encode v"
    | a pad where "a \<in> set [base64_std, base64_url]" "pad \<in> set [0, 1, 2]" "n = fragment (encode_groups 6 a) 6 v pad"
    | a pad where "a \<in> set [base32_std, base32_hex]" "pad \<in> set [0, 1, 2, 3, 4]" "n = fragment (base32_lower a) 5 v pad"
    unfolding scrub_forms_def by (auto simp del: list.map concat.simps)
  then have "n = hex_encode v \<or> (\<exists>k p a h encode pad. (k, p, a, h, encode) \<in> set form_encoders \<and> pad < p
      \<and> n = fragment encode k v pad)"
  proof cases
    case (2 a pad)
    then have "(6, 3, a, id, encode_groups 6 a) \<in> set form_encoders" "pad < 3" by (auto simp: form_encoders_def)
    with 2 show ?thesis by blast
  next
    case (3 a pad)
    then have "(5, 5, a, lower_char, base32_lower a) \<in> set form_encoders" "pad < 5" by (auto simp: form_encoders_def)
    with 3 show ?thesis by blast
  qed simp
  then have "length v < length n \<and> list_all plain_char n"
  proof
    assume "n = hex_encode v"
    moreover have "list_all plain_char (hex_encode v)"
      using encode_groups_set [of 4 "''0123456789abcdef''" v] alphabets_plain(5) by (auto simp: hex_encode_def list_all_iff)
    ultimately show ?thesis using assms(2) hex_encode_length [of v] by auto
  qed (use fragment_not_short assms(2) in blast)
  then show False using assms(3) by (simp add: decode_runes_ascii)
qed

lemma ascii_string_of_runes: "list_all (\<lambda>r. r < rune_self) rs \<Longrightarrow> string_of_runes rs = map char_of rs"
  by (induction rs) (auto simp: string_of_runes_def encode_rune_def valid_rune_def max_rune_def surrogate_def rune_self_def)

lemma ascii_runes_of: "list_all (\<lambda>c. byte c < rune_self) t \<Longrightarrow> runes_of t = map byte t"
  by (induction t) (auto simp: rune_self_def)

lemma rot13_ascii: "r < rune_self \<Longrightarrow> rot13_rune r < rune_self"
  by (auto simp: rot13_rune_def rune_self_def)

lemma rot13_letter: "is_letter r \<Longrightarrow> rot13_rune r \<noteq> r"
  unfolding is_letter_def rot13_rune_def by (auto simp: mod_if)

lemma ascii_forms:
  assumes "list_all (\<lambda>c. byte c < rune_self) v"
  shows "decode_runes (reverse_text v) = rev (map byte v)" "decode_runes (rot13 v) = map (rot13_rune \<circ> byte) v"
proof -
  have r: "list_all (\<lambda>r. r < rune_self) (rev (map byte v))" "list_all (\<lambda>r. r < rune_self) (map (rot13_rune \<circ> byte) v)"
    using assms rot13_ascii by (auto simp: list_all_iff)
  have c: "decode_runes (map char_of rs) = rs" if "list_all (\<lambda>r. r < rune_self) rs" for rs :: "nat list"
  proof -
    have "list_all (\<lambda>c. byte c < rune_self) (map char_of rs)" using that by (auto simp: list_all_iff rune_self_def)
    then show ?thesis using that by (auto simp: decode_runes_ascii_text list_all_iff rune_self_def intro!: map_idI)
  qed
  show "decode_runes (reverse_text v) = rev (map byte v)"
    using c [OF r(1)] ascii_string_of_runes [OF r(1)] by (simp add: reverse_text_def ascii_runes_of [OF assms])
  show "decode_runes (rot13 v) = map (rot13_rune \<circ> byte) v"
    using c [OF r(2)] ascii_string_of_runes [OF r(2)] by (simp add: rot13_def ascii_runes_of [OF assms])
qed

text \<open>
  C31: A secret of at least six bytes that holds the text %25, the escape of the percent sign, is
  not removed from a response that reflects it byte for byte, although a value is meant to match
  itself. The rest of the secret is ASCII without a percent sign, a backslash or an ampersand; it
  starts with a letter that is not also its last character, and the character behind the escape is
  not 2.
\<close>

theorem scrub_misses_own_escape:
  fixes a b :: string
  defines "v \<equiv> a @ ''%25'' @ b"
  assumes "a \<noteq> []" "b \<noteq> []" "list_all plain_char (a @ b)" "hd b \<noteq> CHR ''2''"
    and "is_letter (byte (hd a))" "last b \<noteq> hd a" "6 \<le> length v"
  shows "scrub_text (new_scrubber (scrub_pairs_for v ph)) v = v"
  unfolding scrub_text_def
proof (rule scan_copies [OF scrubber_inv_new])
  let ?s = "new_scrubber (scrub_pairs_for v ph)"
  have plain: "list_all plain_char a" "list_all plain_char b" using assms(4) by auto
  have ascii: "list_all (\<lambda>c. byte c < rune_self) v"
    using plain by (auto simp: v_def list_all_iff plain_char_def rune_self_def)
  have hd: "hd v = hd a" "v \<noteq> []" "plain_char (hd a)" using assms(2) plain by (auto simp: v_def list_all_iff)
  fix d
  assume d: "suffix d v" "d \<noteq> []"
  show "snd (try_at ?s True d) = None"
  proof (rule ccontr)
    assume "snd (try_at ?s True d) \<noteq> None"
    then obtain en i sps where f: "snd (try_at ?s True d) = Some (en, i, sps)" by (metis prod_cases3 not_None_eq)
    obtain e r w sp where t: "match_token d e True = Some (r, w, sp)" "i \<in> set (starting_with ?s r)"
      "match_at d (sc_needles ?s ! i) e True = MatchFound en sps"
      by (rule try_at_found [OF scrubber_inv_new d(2) f])
    note st = starting_withD [OF scrubber_inv_new t(2)]
    obtain q where q: "q \<in> set (scrub_pairs_for v ph)" "sc_needles ?s ! i = needle_of q"
      using nth_mem [OF st(1)] by (auto simp: new_scrubber_needles)
    let ?rs = "decode_runes (pair_needle q)"
    have len: "length ?rs \<le> length d"
      using match_from_end [OF t(3) [unfolded match_at_def]] q(2) by (auto simp: needle_of_def)
    also have "\<dots> \<le> length v" using d(1) by (rule suffix_length_le)
    finally have short: "length ?rs \<le> length v" .
    from q(1) have n: "\<not> pair_fold q \<and> (pair_needle q = v \<or> pair_needle q = reverse_text v \<or> pair_needle q = rot13 v)"
      by (rule scrub_pairs_origin) (use short_forms [OF _ assms(8) short] in blast)+
    then have forms: "?rs \<in> {map byte v, rev (map byte v), map (rot13_rune \<circ> byte) v}" "\<not> pair_fold q"
      using ascii_forms [OF ascii] decode_runes_ascii_text [OF ascii] by auto
    then have "length v \<le> length d" using len by auto
    with d(1) have dv: "d = v" by (metis suffix_length_le suffix_order.antisym suffix_def append_self_conv2 le_antisym
        length_append add_cancel_left_left length_0_conv)
    have tok: "match_token v e True = Some (byte (hd a), 1, literal_spelling)" for e
      using plain_token [OF hd(3), of "tl v"] hd(1,2) by (cases v) auto
    from st(2) t(1) tok dv q(2) forms(2) have "hd ?rs = byte (hd a)"
      by (auto simp: starts_needle_def needle_of_def equal_rune_def)
    moreover have "hd (rev (map byte v)) \<noteq> byte (hd a)" using assms(3,7) by (simp add: hd_rev last_map v_def)
    moreover have "hd (map (rot13_rune \<circ> byte) v) \<noteq> byte (hd a)"
      using hd(1,2) rot13_letter [OF assms(6)] by (simp add: hd_map)
    ultimately have rs: "?rs = map byte v" using forms(1) by auto
    have "\<not> is_escape_start (hd v)" using hd by (simp add: plain_char_def)
    with f dv have "snd (try_pass ?s True v True (False, None)) = Some (en, i, sps)"
      by (auto simp: try_at_def Let_def)
    then obtain "match_at v (needle_of q) True True = MatchFound en sps"
      by (rule try_pass_found [OF scrubber_inv_new hd(2)]) (use q(2) in auto)
    with own_escape_no_match [OF plain assms(3,5)] rs forms(2) show False
      by (simp add: match_at_def needle_of_def v_def)
  qed
qed

theorem scrub_misses_own_escape_witness:
  "scrub_text (new_scrubber (scrub_pairs_for ''pw%25x'' ''PH'')) ''pw%25x'' = ''pw%25x''"
proof -
  have "list_all plain_char (''pw'' @ ''x'')" "is_letter (byte (hd ''pw''))" by code_simp+
  with scrub_misses_own_escape [of "''pw''" "''x''" "''PH''"] show ?thesis by simp
qed

end
