(* ===== verification/Go_Url.thy ===== *)
theory Go_Url
  imports Go_Query Go_Http
begin

text \<open>
  \<^verbatim>\<open>net/url\<close>: \<^verbatim>\<open>url.Parse\<close> with the strict rules for the host, \<^verbatim>\<open>URL.String\<close>, and what
  \<^verbatim>\<open>http.NewRequest\<close> makes of a printed URL. Printing a URL and parsing it again keeps its
  host and the spelling of its path, and its query up to a fragment mark.
\<close>

section \<open>Escaping in the authority\<close>

definition should_escape_host :: "char \<Rightarrow> bool" where
  "should_escape_host c \<longleftrightarrow>
    \<not> is_alnum c \<and> c \<notin> set ''-_.~!$&()*+,;=:[]<>'' \<and> c \<noteq> CHR 0x27 \<and> c \<noteq> CHR 0x22"

definition should_escape_user :: "char \<Rightarrow> bool" where
  "should_escape_user c \<longleftrightarrow> \<not> is_alnum c \<and> c \<notin> set ''-_.~$&+,;=''"

definition escape_with :: "(char \<Rightarrow> bool) \<Rightarrow> string \<Rightarrow> string" where
  "escape_with bad s =
    concat (map (\<lambda>c. if bad c
       then [CHR ''%'', upper_hex (byte c div 16), upper_hex (byte c mod 16)] else [c]) s)"

text \<open>
  Unescaping a host, or the zone of an address: in a host only bytes beyond ASCII and the
  percent sign may be escaped, in a zone only what may also stand there plainly.
\<close>

definition escape_allowed :: "bool \<Rightarrow> nat \<Rightarrow> nat \<Rightarrow> bool" where
  "escape_allowed zone x y \<longleftrightarrow>
    x = 2 \<and> y = 5
    \<or> (if zone then x = 2 \<and> y = 0 \<or> \<not> should_escape_host (char_of (16 * x + y)) else 8 \<le> x)"

fun unescape_host :: "bool \<Rightarrow> string \<Rightarrow> string option" where
  "unescape_host zone [] = Some []"
| "unescape_host zone (c # cs) =
    (if c = CHR ''%'' then
       (case cs of
          a # b # rest \<Rightarrow>
            (case (hex_digit a, hex_digit b) of
               (Some x, Some y) \<Rightarrow>
                 if escape_allowed zone x y
                 then map_option ((#) (char_of (16 * x + y))) (unescape_host zone rest) else None
             | _ \<Rightarrow> None)
        | _ \<Rightarrow> None)
     else if byte c < 128 \<and> should_escape_host c then None
     else map_option ((#) c) (unescape_host zone cs))"

section \<open>Parsing\<close>

text \<open>\<^verbatim>\<open>strings.Cut\<close> at one byte.\<close>

definition cut_char :: "char \<Rightarrow> string \<Rightarrow> string \<times> string" where
  "cut_char c s = (takeWhile (\<lambda>x. x \<noteq> c) s, drop 1 (dropWhile (\<lambda>x. x \<noteq> c) s))"

definition scheme_char :: "char \<Rightarrow> bool" where
  "scheme_char c \<longleftrightarrow> is_alnum c \<or> c \<in> set ''+-.''"

definition get_scheme :: "string \<Rightarrow> (string \<times> string) option" where
  "get_scheme raw =
    (case dropWhile scheme_char raw of
       [] \<Rightarrow> Some ([], raw)
     | c # cs \<Rightarrow>
       (let scheme = takeWhile scheme_char raw in
        if c \<noteq> CHR '':'' then Some ([], raw)
        else if scheme = [] then None
        else if is_digit (hd scheme) \<or> hd scheme \<in> set ''+-.'' then Some ([], raw)
        else Some (scheme, cs)))"

definition valid_optional_port :: "string \<Rightarrow> bool" where
  "valid_optional_port port \<longleftrightarrow> port = [] \<or> hd port = CHR '':'' \<and> list_all is_digit (tl port)"

definition valid_userinfo :: "string \<Rightarrow> bool" where
  "valid_userinfo s \<longleftrightarrow> list_all (\<lambda>c. is_alnum c \<or> c \<in> set ''-._:~!$&()*+,;=%@'' \<or> c = CHR 0x27) s"

definition parse_ip_literal :: "string \<Rightarrow> string option" where
  "parse_ip_literal hostname =
    (case str_cut hostname ''%25'' of
       Some (a, z) \<Rightarrow>
         (case (unescape_host False a, unescape_host True (''%25'' @ z)) of
            (Some h, Some zone) \<Rightarrow> Some (h @ zone)
          | _ \<Rightarrow> None)
     | None \<Rightarrow> unescape_host False hostname)"

definition parse_url_host :: "string \<Rightarrow> string \<Rightarrow> string option" where
  "parse_url_host scheme host =
    (case last_index_byte host CHR ''['' of
       Some i \<Rightarrow>
         (if i \<noteq> 0 then None
          else
            (case last_index_byte host CHR '']'' of
               None \<Rightarrow> None
             | Some j \<Rightarrow>
               (let colonPort = drop (Suc j) host in
                if \<not> valid_optional_port colonPort then None
                else
                  (case (unescape_host False colonPort, parse_ip_literal (take (j - 1) (tl host))) of
                     (Some port, Some name) \<Rightarrow>
                       (case parse_addr name of
                          Some (V6 _ _) \<Rightarrow> Some (''['' @ name @ '']'' @ port)
                        | _ \<Rightarrow> None)
                   | _ \<Rightarrow> None))))
     | None \<Rightarrow>
       (case (if scheme = ''postgres'' \<or> scheme = ''postgresql'' then last_index_byte host CHR '':''
              else index_byte host CHR '':'') of
          Some i \<Rightarrow> if valid_optional_port (drop i host) then unescape_host False host else None
        | None \<Rightarrow> unescape_host False host))"

type_synonym userinfo = "string \<times> string option"

definition parse_userinfo :: "string \<Rightarrow> userinfo option" where
  "parse_userinfo s =
    (if \<not> valid_userinfo s then None
     else if CHR '':'' \<notin> set s then map_option (\<lambda>u. (u, None)) (unescape_path s)
     else
       (let (u, p) = cut_char CHR '':'' s in
        case (unescape_path u, unescape_path p) of
          (Some u, Some p) \<Rightarrow> Some (u, Some p)
        | _ \<Rightarrow> None))"

definition parse_authority :: "string \<Rightarrow> string \<Rightarrow> (userinfo option \<times> string) option" where
  "parse_authority scheme authority =
    (case last_index_byte authority CHR ''@'' of
       None \<Rightarrow> map_option (Pair None) (parse_url_host scheme authority)
     | Some i \<Rightarrow>
       (case (parse_url_host scheme (drop (Suc i) authority), parse_userinfo (take i authority)) of
          (Some host, Some user) \<Rightarrow> Some (Some user, host)
        | _ \<Rightarrow> None))"

text \<open>A URL as the parser delivers it, with the parts only printing looks at.\<close>

record parsed_url = url +
  pu_user :: "userinfo option"
  pu_opaque :: string
  pu_force :: bool
  pu_omit_host :: bool
  pu_fragment :: string

definition empty_url :: parsed_url where
  "empty_url =
    \<lparr>u_scheme = [], u_host = [], u_path = [], u_rawpath = [], u_rawquery = [], u_user = False,
     pu_user = None, pu_opaque = [], pu_force = False, pu_omit_host = False, pu_fragment = []\<rparr>"

definition set_path :: "string \<Rightarrow> parsed_url \<Rightarrow> parsed_url option" where
  "set_path p u =
    map_option (\<lambda>path. u\<lparr>u_path := path, u_rawpath := if p = escape_path path then [] else p\<rparr>) (unescape_path p)"

definition is_ctl :: "char \<Rightarrow> bool" where
  "is_ctl c \<longleftrightarrow> byte c < 32 \<or> byte c = 127"

definition split_query :: "string \<Rightarrow> string \<times> string \<times> bool" where
  "split_query rest =
    (let (before, after) = cut_char CHR ''?'' rest in
     if after = [] \<and> CHR ''?'' \<in> set rest then (before, [], True) else (before, after, False))"

definition parse_hierarchy :: "string \<Rightarrow> parsed_url \<Rightarrow> parsed_url option" where
  "parse_hierarchy rest u =
    (if has_prefix rest ''//'' \<and> (u_scheme u \<noteq> [] \<or> \<not> has_prefix rest ''///'') then
       (let authority = takeWhile (\<lambda>c. c \<noteq> CHR ''/'') (drop 2 rest);
            path = dropWhile (\<lambda>c. c \<noteq> CHR ''/'') (drop 2 rest) in
        case parse_authority (u_scheme u) authority of
          None \<Rightarrow> None
        | Some (user, host) \<Rightarrow> set_path path (u\<lparr>u_host := host, u_user := user \<noteq> None, pu_user := user\<rparr>))
     else set_path rest (u\<lparr>pu_omit_host := u_scheme u \<noteq> [] \<and> has_prefix rest ''/''\<rparr>))"

definition parse_plain_url :: "string \<Rightarrow> parsed_url option" where
  "parse_plain_url raw =
    (if list_ex is_ctl raw then None
     else if raw = ''*'' then Some (empty_url\<lparr>u_path := ''*''\<rparr>)
     else
       (case get_scheme raw of
          None \<Rightarrow> None
        | Some (scheme, rest) \<Rightarrow>
          (let (rest, query, force) = split_query rest;
               u = empty_url\<lparr>u_scheme := to_lower scheme, u_rawquery := query, pu_force := force\<rparr> in
           if \<not> has_prefix rest ''/'' \<and> scheme \<noteq> [] then Some (u\<lparr>pu_opaque := rest\<rparr>)
           else if \<not> has_prefix rest ''/'' \<and> CHR '':'' \<in> set (fst (cut_char CHR ''/'' rest)) then None
           else parse_hierarchy rest u)))"

definition url_parse :: "string \<Rightarrow> parsed_url option" where
  "url_parse raw =
    (let (plain, frag) = cut_char CHR ''#'' raw in
     case parse_plain_url plain of
       None \<Rightarrow> None
     | Some u \<Rightarrow>
       (if frag = [] then Some u else map_option (\<lambda>f. u\<lparr>pu_fragment := f\<rparr>) (unescape_path frag)))"

section \<open>Printing\<close>

definition userinfo_string :: "userinfo \<Rightarrow> string" where
  "userinfo_string ui =
    escape_with should_escape_user (fst ui)
    @ (case snd ui of None \<Rightarrow> [] | Some p \<Rightarrow> '':'' @ escape_with should_escape_user p)"

text \<open>The path as it is printed behind a host: it starts with a slash unless it is empty.\<close>

definition rooted_path :: "string \<Rightarrow> string" where
  "rooted_path p = (if p \<noteq> [] \<and> hd p \<noteq> CHR ''/'' then CHR ''/'' # p else p)"

text \<open>\<^verbatim>\<open>URL.String\<close> for a URL with a scheme, a host, no opaque part and no fragment.\<close>

definition url_string :: "parsed_url \<Rightarrow> string" where
  "url_string u =
    u_scheme u @ ''://''
    @ (case pu_user u of None \<Rightarrow> [] | Some ui \<Rightarrow> userinfo_string ui @ ''@'')
    @ escape_with should_escape_host (u_host u)
    @ rooted_path (escaped_path (u_path u) (u_rawpath u))
    @ (if pu_force u \<or> u_rawquery u \<noteq> [] then ''?'' @ u_rawquery u else [])"

section \<open>NewRequest\<close>

definition remove_empty_port :: "string \<Rightarrow> string" where
  "remove_empty_port host =
    (case (last_index_byte host CHR '':'', last_index_byte host CHR '']'') of
       (Some i, Some j) \<Rightarrow> if j < i then trim_suffix host '':'' else host
     | (Some i, None) \<Rightarrow> trim_suffix host '':''
     | _ \<Rightarrow> host)"

definition valid_method :: "string \<Rightarrow> bool" where
  "valid_method m \<longleftrightarrow> m \<noteq> [] \<and> list_all token_char m"

text \<open>The method and the URL of \<^verbatim>\<open>http.NewRequest\<close>, whose host is also that of the request.\<close>

definition new_request_line :: "string \<Rightarrow> string \<Rightarrow> (string \<times> parsed_url) option" where
  "new_request_line meth raw =
    (let m = (if meth = [] then ''GET'' else meth) in
     if \<not> valid_method m then None
     else map_option (\<lambda>u. (m, u\<lparr>u_host := remove_empty_port (u_host u)\<rparr>)) (url_parse raw))"

section \<open>Printing and parsing again\<close>

lemma unescape_path_hex: "unescape_path (CHR ''%'' # upper_hex (byte c div 16) # upper_hex (byte c mod 16) # s)
    = map_option ((#) c) (unescape_path s)"
proof -
  have "byte c < 16 * 16" by simp
  then have "byte c div 16 < 16" by (rule less_mult_imp_div_less)
  then have "hex_digit (upper_hex (byte c div 16)) = Some (byte c div 16)"
    "hex_digit (upper_hex (byte c mod 16)) = Some (byte c mod 16)"
    by (simp_all add: hex_digit_upper)
  then show ?thesis by simp
qed

lemma unescape_escape_with:
  assumes "bad CHR ''%''"
  shows "unescape_path (escape_with bad s) = Some s"
proof (induction s)
  case (Cons c s)
  then show ?case using assms
    by (auto simp: escape_with_def unescape_path_hex simp del: unescape_path.simps(2))
       (auto simp: escape_with_def)
qed (simp add: escape_with_def)

lemma escape_path_with: "escape_path s = escape_with should_escape_path s"
  by (simp add: escape_path_def escape_with_def)

lemma unescape_escape_path: "unescape_path (escape_path s) = Some s"
  by (simp add: escape_path_with unescape_escape_with should_escape_path_def is_alnum_def)

lemma unescape_host_path: "unescape_host zone s = Some t \<Longrightarrow> unescape_path s = Some t"
  by (induction zone s arbitrary: t rule: unescape_host.induct)
     (auto split: if_splits list.splits option.splits)

lemma unescape_path_append:
  "unescape_path a = Some x \<Longrightarrow> unescape_path (a @ b) = map_option ((@) x) (unescape_path b)"
proof (induction a arbitrary: x rule: unescape_path.induct)
  case (2 c cs)
  then show ?case
    by (cases "unescape_path b") (auto split: if_splits list.splits option.splits)
qed (cases "unescape_path b"; simp)

lemma str_cut_append: "str_cut s sep = Some (a, b) \<Longrightarrow> s = a @ sep @ b"
proof (induction s sep arbitrary: a b rule: str_cut.induct)
  case (2 c cs sep)
  then show ?case by (cases "prefix sep (c # cs)") (auto simp: prefix_def)
qed (auto split: if_splits)

lemma parse_ip_literal_path:
  assumes "parse_ip_literal h = Some t" shows "unescape_path h = Some t"
proof (cases "str_cut h ''%25''")
  case None
  with assms show ?thesis by (auto simp: parse_ip_literal_def dest: unescape_host_path)
next
  case (Some p)
  obtain a z where p: "p = (a, z)" by (cases p)
  with Some assms obtain x y where x: "unescape_host False a = Some x" and
    y: "unescape_host True (''%25'' @ z) = Some y" and t: "t = x @ y"
    by (auto simp: parse_ip_literal_def simp del: unescape_host.simps split: option.splits)
  have "h = a @ ''%25'' @ z" using Some p str_cut_append [of h "''%25''" a z] by simp
  with unescape_path_append [OF unescape_host_path [OF x], of "''%25'' @ z"] unescape_host_path [OF y] t
  show ?thesis by (simp del: unescape_path.simps)
qed

lemma parse_url_host_path:
  assumes "parse_url_host scheme h = Some t" shows "unescape_path h = Some t"
proof (cases "last_index_byte h CHR ''[''")
  case None
  with assms show ?thesis
    by (auto simp: parse_url_host_def split: if_splits option.splits dest: unescape_host_path)
next
  case (Some i)
  with assms obtain j port name where j: "i = 0" "last_index_byte h CHR '']'' = Some j"
    "unescape_host False (drop (Suc j) h) = Some port" "parse_ip_literal (take (j - 1) (tl h)) = Some name"
    and t: "t = ''['' @ name @ '']'' @ port"
    by (auto simp: parse_url_host_def Let_def split: if_splits option.splits addr.splits)
  obtain b where b: "h = CHR ''['' # b" using last_index_byte_SomeD [OF Some] j(1) by auto
  from last_index_byte_SomeD [OF j(2)] have d: "h = take j h @ CHR '']'' # drop (Suc j) h" by auto
  with b have "j \<noteq> 0" by (cases j) auto
  then have "take j h = CHR ''['' # take (j - 1) (tl h)" using b by (cases j) auto
  with d have h: "h = (CHR ''['' # take (j - 1) (tl h)) @ CHR '']'' # drop (Suc j) h" by simp
  have "unescape_path (CHR ''['' # take (j - 1) (tl h)) = Some (CHR ''['' # name)"
    using parse_ip_literal_path [OF j(4)] by simp
  from unescape_path_append [OF this, of "CHR '']'' # drop (Suc j) h"] unescape_host_path [OF j(3)]
  have "unescape_path ((CHR ''['' # take (j - 1) (tl h)) @ CHR '']'' # drop (Suc j) h) = Some t"
    by (simp add: t)
  with h show ?thesis by simp
qed

lemma upper_hex_chars: "n < 16 \<Longrightarrow> upper_hex n \<in> set ''0123456789ABCDEF''"
proof -
  have "list_all (\<lambda>n. upper_hex n \<in> set ''0123456789ABCDEF'') [0..<16]" by code_simp
  then show "n < 16 \<Longrightarrow> upper_hex n \<in> set ''0123456789ABCDEF''" by (simp add: list_all_iff)
qed

lemma escape_with_chars:
  assumes "c \<in> set (escape_with bad s)"
  shows "c \<in> set ''%0123456789ABCDEF'' \<or> \<not> bad c"
proof -
  have lt: "byte d div 16 < 16" for d :: char
  proof -
    have "byte d < 16 * 16" by simp
    then show ?thesis by (rule less_mult_imp_div_less)
  qed
  from assms obtain d where d: "c \<in> set (if bad d
      then [CHR ''%'', upper_hex (byte d div 16), upper_hex (byte d mod 16)] else [d])"
    unfolding escape_with_def set_concat set_map by blast
  show ?thesis
  proof (cases "bad d")
    case True
    with d have "c = CHR ''%'' \<or> c = upper_hex (byte d div 16) \<or> c = upper_hex (byte d mod 16)" by auto
    then show ?thesis using upper_hex_chars [OF lt, of d] upper_hex_chars [of "byte d mod 16"] by auto
  qed (use d in auto)
qed

lemma escape_host_chars:
  assumes "c \<in> set ''/?#@''" shows "c \<notin> set (escape_with should_escape_host s)"
proof
  have "list_all (\<lambda>c. c \<notin> set ''%0123456789ABCDEF'' \<and> should_escape_host c) ''/?#@''" by code_simp
  with assms have c: "c \<notin> set ''%0123456789ABCDEF''" "should_escape_host c" unfolding list_all_iff by blast+
  assume "c \<in> set (escape_with should_escape_host s)"
  from escape_with_chars [OF this] c show False by blast
qed

text \<open>What is printed of a path is a valid encoding of it.\<close>

lemma valid_encoded_escape: "valid_encoded_path (escape_path s)"
proof -
  have "list_all (\<lambda>c. c = CHR ''%'' \<or> \<not> should_escape_path c) ''%0123456789ABCDEF''" by code_simp
  then have "c = CHR ''%'' \<or> \<not> should_escape_path c" if "c \<in> set (escape_path s)" for c
    using escape_with_chars [of c should_escape_path s] that unfolding escape_path_with list_all_iff by blast
  moreover have "CHR ''%'' \<in> set ''!$&()*+,;=:@[]%''" by simp
  ultimately show ?thesis unfolding valid_encoded_path_def list_all_iff by blast
qed

lemma rooted_escaped_path:
  "valid_encoded_path (rooted_path (escaped_path path raw))"
  "\<exists>q. unescape_path (rooted_path (escaped_path path raw)) = Some q \<and> q \<noteq> ''*''
    \<and> (has_prefix (escaped_path path raw) ''/'' \<or> path = [] \<longrightarrow> q = path)"
proof -
  let ?e = "escaped_path path raw"
  have v: "valid_encoded_path ?e" using valid_encoded_escape [of path]
    by (auto simp: escaped_path_def valid_encoded_path_def)
  then show "valid_encoded_path (rooted_path ?e)"
    by (auto simp: rooted_path_def valid_encoded_path_def should_escape_path_def)
  have u: "unescape_path ?e = Some path"
    by (auto simp: escaped_path_def unescape_escape_path)
  show "\<exists>q. unescape_path (rooted_path ?e) = Some q \<and> q \<noteq> ''*'' \<and> (has_prefix ?e ''/'' \<or> path = [] \<longrightarrow> q = path)"
  proof (cases ?e)
    case Nil
    with u show ?thesis by (simp add: rooted_path_def)
  next
    case (Cons c cs)
    moreover from this u have "path \<noteq> []" by (auto split: if_splits list.splits option.splits)
    ultimately show ?thesis using u by (auto simp: rooted_path_def has_prefix_def)
  qed
qed

lemma set_path_escaped:
  assumes "set_path p u = Some v" "valid_encoded_path p" "unescape_path p = Some q" "q \<noteq> ''*''"
  shows "escaped_path (u_path v) (u_rawpath v) = p" "u_path v = q"
    "u_scheme v = u_scheme u" "u_host v = u_host u" "u_rawquery v = u_rawquery u" "u_user v = u_user u"
proof -
  from assms have v: "v = u\<lparr>u_path := q, u_rawpath := if p = escape_path q then [] else p\<rparr>"
    by (simp add: set_path_def)
  show "escaped_path (u_path v) (u_rawpath v) = p"
  proof (cases "p = escape_path q")
    case True
    with v assms(4) show ?thesis by (simp add: escaped_path_def)
  next
    case False
    moreover from this assms(3) have "p \<noteq> []" by (auto simp: escape_path_def)
    ultimately show ?thesis using v assms(2,3) by (simp add: escaped_path_def)
  qed
qed (use assms in \<open>auto simp: set_path_def\<close>)

lemma takeWhile_stop: "(\<And>x. x \<in> set a \<Longrightarrow> P x) \<Longrightarrow> \<not> P c \<Longrightarrow> takeWhile P (a @ c # b) = a"
  by (induction a) auto

lemma dropWhile_stop: "(\<And>x. x \<in> set a \<Longrightarrow> P x) \<Longrightarrow> \<not> P c \<Longrightarrow> dropWhile P (a @ c # b) = c # b"
  by (induction a) auto

lemma split_query_printed:
  assumes "CHR ''?'' \<notin> set a"
  shows "split_query a = (a, [], False)"
    "split_query (a @ CHR ''?'' # q) = (a, q, q = [])"
proof -
  from assms have "x \<in> set a \<Longrightarrow> x \<noteq> CHR ''?''" for x by auto
  moreover from this have "takeWhile (\<lambda>x. x \<noteq> CHR ''?'') a = a" "dropWhile (\<lambda>x. x \<noteq> CHR ''?'') a = []"
    by (auto simp: takeWhile_eq_all_conv)
  ultimately show "split_query a = (a, [], False)" "split_query (a @ CHR ''?'' # q) = (a, q, q = [])"
    using assms by (simp_all add: split_query_def cut_char_def takeWhile_stop dropWhile_stop
        del: takeWhile_eq_all_conv dropWhile_eq_Nil_conv)
qed

lemma valid_encoded_chars:
  assumes "valid_encoded_path p" "c \<in> set ''?#''" shows "c \<notin> set p"
proof
  have "list_all (\<lambda>c. \<not> (c \<in> set ''!$&()*+,;=:@[]%'' \<or> c = CHR 0x27 \<or> \<not> should_escape_path c)) ''?#''" by code_simp
  with assms(2) have c: "\<not> (c \<in> set ''!$&()*+,;=:@[]%'' \<or> c = CHR 0x27 \<or> \<not> should_escape_path c)"
    unfolding list_all_iff by blast
  assume "c \<in> set p"
  with assms(1) c show False unfolding valid_encoded_path_def list_all_iff by blast
qed

lemma rooted_path_cases: "rooted_path p = [] \<or> (\<exists>r. rooted_path p = CHR ''/'' # r)"
  by (cases p) (auto simp: rooted_path_def)

text \<open>What is printed before the host.\<close>

definition user_prefix :: "userinfo option \<Rightarrow> string" where
  "user_prefix ui = (case ui of None \<Rightarrow> [] | Some ui \<Rightarrow> userinfo_string ui @ ''@'')"

lemma user_prefix_chars:
  assumes "c \<in> set ''/?#''" shows "c \<notin> set (user_prefix ui)"
proof
  have "list_all (\<lambda>c. c \<notin> set ''%0123456789ABCDEF'' \<and> should_escape_user c \<and> c \<noteq> CHR '':'' \<and> c \<noteq> CHR ''@'') ''/?#''"
    by code_simp
  with assms have c: "c \<notin> set ''%0123456789ABCDEF''" "should_escape_user c" "c \<noteq> CHR '':''" "c \<noteq> CHR ''@''"
    unfolding list_all_iff by blast+
  have "c \<notin> set (escape_with should_escape_user s)" for s using escape_with_chars [of c should_escape_user s] c by blast
  moreover assume "c \<in> set (user_prefix ui)"
  ultimately show False using c by (auto simp: user_prefix_def userinfo_string_def split: option.splits)
qed

lemma parse_authority_printed:
  assumes "parse_authority sch (user_prefix ui @ escape_with should_escape_host host) = Some (user, h)"
  shows "h = host" "user = None \<longleftrightarrow> ui = None"
proof -
  let ?h = "escape_with should_escape_host host"
  have at: "CHR ''@'' \<notin> set ?h" using escape_host_chars [of "CHR ''@''" host] by simp
  have "parse_url_host sch ?h = Some h \<and> (user = None \<longleftrightarrow> ui = None)"
  proof (cases ui)
    case None
    with at have "last_index_byte (user_prefix ui @ ?h) CHR ''@'' = None"
      by (simp add: user_prefix_def last_index_byte_None)
    with None assms show ?thesis by (auto simp: parse_authority_def user_prefix_def)
  next
    case (Some x)
    have "last_index_byte (user_prefix ui @ ?h) CHR ''@'' = Some (length (userinfo_string x))"
      using last_index_byte_append [OF at, of "userinfo_string x"] Some by (simp add: user_prefix_def)
    with Some assms show ?thesis
      by (auto simp: parse_authority_def user_prefix_def split: option.splits) metis
  qed
  then show "user = None \<longleftrightarrow> ui = None" "h = host"
    using parse_url_host_path [of sch ?h h] unescape_escape_with [of should_escape_host host]
    by (auto simp: should_escape_host_def is_alnum_def)
qed

lemma parse_hierarchy_printed:
  assumes "parse_hierarchy (''//'' @ user_prefix ui @ escape_with should_escape_host host @ p) u = Some v"
    and "u_scheme u \<noteq> []" "p = rooted_path e" "valid_encoded_path p" "unescape_path p = Some q" "q \<noteq> ''*''"
  shows "u_host v = host" "escaped_path (u_path v) (u_rawpath v) = p" "u_path v = q"
    "u_scheme v = u_scheme u" "u_rawquery v = u_rawquery u" "u_user v \<longleftrightarrow> ui \<noteq> None"
proof -
  let ?h = "user_prefix ui @ escape_with should_escape_host host"
  have ne: "x \<noteq> CHR ''/''" if "x \<in> set ?h" for x
    using that escape_host_chars [of "CHR ''/''" host] user_prefix_chars [of "CHR ''/''" ui] by auto
  have t: "takeWhile (\<lambda>c. c \<noteq> CHR ''/'') (?h @ p) = ?h" and d: "dropWhile (\<lambda>c. c \<noteq> CHR ''/'') (?h @ p) = p"
    using ne rooted_path_cases [of e] assms(3)
    by (auto simp: takeWhile_stop [OF ne] dropWhile_stop [OF ne] takeWhile_append dropWhile_append
        simp del: append_assoc)
  from assms(1,2) t d obtain user h where h: "parse_authority (u_scheme u) ?h = Some (user, h)"
    "set_path p (u\<lparr>u_host := h, u_user := user \<noteq> None, pu_user := user\<rparr>) = Some v"
    by (auto simp: parse_hierarchy_def has_prefix_def split: option.splits)
  from set_path_escaped [OF h(2) assms(4-6)] parse_authority_printed [OF h(1)]
  show "u_host v = host" "escaped_path (u_path v) (u_rawpath v) = p" "u_path v = q"
    "u_scheme v = u_scheme u" "u_rawquery v = u_rawquery u" "u_user v \<longleftrightarrow> ui \<noteq> None" by simp_all
qed

lemma get_scheme_http:
  "s \<in> {''http'', ''https''} \<Longrightarrow> get_scheme (s @ ''://'' @ rest) = Some (s, ''//'' @ rest)"
  by (auto simp: get_scheme_def scheme_char_def is_alnum_def is_digit_def)

lemma cut_char_append:
  assumes "c \<notin> set a" shows "cut_char c (a @ b) = (a @ fst (cut_char c b), snd (cut_char c b))"
  using assms by (auto simp: cut_char_def takeWhile_append dropWhile_append)

text \<open>Printing and parsing keeps the host, the spelling of the path and the query.\<close>

lemma url_parse_string:
  assumes "u_scheme u \<in> {''http'', ''https''}" "url_parse (url_string u) = Some v"
  defines "e \<equiv> escaped_path (u_path u) (u_rawpath u)"
  shows "u_scheme v = u_scheme u" "u_host v = u_host u" "u_user v \<longleftrightarrow> pu_user u \<noteq> None"
    "escaped_path (u_path v) (u_rawpath v) = rooted_path e"
    "has_prefix e ''/'' \<Longrightarrow> u_path v = u_path u"
    "u_rawquery v = fst (cut_char CHR ''#'' (u_rawquery u))"
proof -
  let ?h = "escape_with should_escape_host (u_host u)" and ?p = "rooted_path e"
  let ?q = "if pu_force u \<or> u_rawquery u \<noteq> [] then ''?'' @ u_rawquery u else []"
  let ?q' = "fst (cut_char CHR ''#'' ?q)" and ?w = "user_prefix (pu_user u)"
  let ?a = "''//'' @ ?w @ ?h @ ?p"
  note enc = rooted_escaped_path [of "u_path u" "u_rawpath u", folded e_def]
  obtain path where path: "unescape_path ?p = Some path" "path \<noteq> ''*''" "has_prefix e ''/'' \<Longrightarrow> path = u_path u"
    using enc(2) by blast
  have free: "c \<notin> set ?a" if "c \<in> set ''?#''" for c
    using that escape_host_chars [of c "u_host u"] user_prefix_chars [of c "pu_user u"]
      valid_encoded_chars [OF enc(1) that] by auto
  have "CHR ''#'' \<notin> set (u_scheme u @ ''://'' @ ?w @ ?h @ ?p)" using free [of "CHR ''#''"] assms(1) by auto
  from cut_char_append [OF this, of ?q] assms(2) obtain w where
    w: "parse_plain_url (u_scheme u @ ''://'' @ ?w @ ?h @ ?p @ ?q') = Some w"
    and v: "\<exists>f. v = w\<lparr>pu_fragment := f\<rparr> \<or> v = w"
    by (auto simp: url_parse_def url_string_def user_prefix_def e_def Let_def split: prod.splits option.splits if_splits)
  obtain force where sq: "split_query (?a @ ?q') = (?a, fst (cut_char CHR ''#'' (u_rawquery u)), force)"
    using split_query_printed [OF free [of "CHR ''?''"]]
    by (cases "pu_force u \<or> u_rawquery u \<noteq> []") (auto simp: cut_char_def)
  have "to_lower (u_scheme u) = u_scheme u" "u_scheme u \<noteq> []" using assms(1) by (auto simp: to_lower_def lower_char_def)
  with w get_scheme_http [OF assms(1), of "?w @ ?h @ ?p @ ?q'"] sq
  have "parse_hierarchy ?a (empty_url\<lparr>u_scheme := u_scheme u, u_rawquery := fst (cut_char CHR ''#'' (u_rawquery u)),
      pu_force := force\<rparr>) = Some w"
    by (auto simp: parse_plain_url_def has_prefix_def split: if_splits)
  from parse_hierarchy_printed [OF this _ refl enc(1) path(1,2)] \<open>u_scheme u \<noteq> []\<close> v path(3)
  show "u_scheme v = u_scheme u" "u_host v = u_host u" "u_user v \<longleftrightarrow> pu_user u \<noteq> None"
    "escaped_path (u_path v) (u_rawpath v) = rooted_path e"
    "has_prefix e ''/'' \<Longrightarrow> u_path v = u_path u"
    "u_rawquery v = fst (cut_char CHR ''#'' (u_rawquery u))" by auto
qed

end
