(* ===== verification/Go_Mime.thy ===== *)
theory Go_Mime
  imports Go_Http
begin

text \<open>
  \<^verbatim>\<open>mime.ParseMediaType\<close>, for the callers that look at the media type only, and
  \<^verbatim>\<open>bytes.TrimSpace\<close> with the blanks of Unicode.
\<close>

section \<open>Blanks\<close>

definition unicode_space :: "nat \<Rightarrow> bool" where
  "unicode_space r \<longleftrightarrow> (9 \<le> r \<and> r \<le> 13) \<or> r \<in> {0x20, 0x85, 0xA0, 0x1680, 0x2028, 0x2029, 0x202F, 0x205F, 0x3000}
    \<or> (0x2000 \<le> r \<and> r \<le> 0x200A)"

function trim_left :: "bytes \<Rightarrow> bytes" where
  "trim_left [] = []"
| "trim_left (c # cs) =
    (if unicode_space (fst (decode_rune (c # cs))) then trim_left (drop (snd (decode_rune (c # cs))) (c # cs))
     else c # cs)"
  by pat_completeness auto
termination
proof (relation "measure length")
  fix c and cs :: bytes
  show "(drop (snd (decode_rune (c # cs))) (c # cs), c # cs) \<in> measure length"
    using decode_rune_size_pos [of "c # cs"] by (simp del: decode_rune.simps)
qed simp

lemma decode_last_rune_size_pos:
  assumes "p \<noteq> []"
  shows "0 < snd (decode_last_rune p)"
proof -
  have pos: "0 < snd (decode_rune (drop (length p - 1 - b) p))" for b
  proof (rule decode_rune_size_pos)
    have "length p - 1 - b < length p" using assms by (simp add: less_imp_diff_less)
    then show "drop (length p - 1 - b) p \<noteq> []" by simp
  qed
  have "snd (if q then (rune_error, 1) else x) > 0" if "0 < snd x" for q and x :: "nat \<times> nat" using that by simp
  with pos show ?thesis
    unfolding decode_last_rune_def Let_def case_prod_beta using assms by (simp del: decode_rune.simps)
qed

function trim_right :: "bytes \<Rightarrow> bytes" where
  "trim_right s =
    (if s \<noteq> [] \<and> unicode_space (fst (decode_last_rune s)) then trim_right (take (length s - snd (decode_last_rune s)) s)
     else s)"
  by pat_completeness auto
termination
proof (relation "measure length")
  fix s :: bytes
  assume "s \<noteq> [] \<and> unicode_space (fst (decode_last_rune s))"
  then show "(take (length s - snd (decode_last_rune s)) s, s) \<in> measure length"
    using decode_last_rune_size_pos [of s] by simp
qed simp

declare trim_right.simps [simp del]

definition bytes_trim_space :: "bytes \<Rightarrow> bytes" where
  "bytes_trim_space s = trim_right (trim_left s)"

text \<open>A text between two printable characters is left alone.\<close>

definition printable :: "char \<Rightarrow> bool" where
  "printable c \<longleftrightarrow> 33 \<le> byte c \<and> byte c < rune_self"

lemma printable_not_space [simp]: "printable c \<Longrightarrow> \<not> unicode_space (byte c)"
  by (auto simp: printable_def unicode_space_def rune_self_def)

lemma trim_right_printable: "\<lbrakk>s \<noteq> []; printable (last s)\<rbrakk> \<Longrightarrow> trim_right s = s"
  by (subst trim_right.simps) (simp add: decode_last_rune_def, simp add: printable_def)

lemma trim_left_printable: "printable c \<Longrightarrow> trim_left (c # cs) = c # cs"
  by (simp add: printable_def unicode_space_def rune_self_def)

lemma trim_printable:
  "\<lbrakk>s \<noteq> []; printable (hd s); printable (last s)\<rbrakk> \<Longrightarrow> bytes_trim_space s = s"
  by (cases s) (simp_all add: bytes_trim_space_def trim_left_printable trim_right_printable del: trim_left.simps)

section \<open>Media types\<close>

definition tspecial :: "char \<Rightarrow> bool" where
  "tspecial c \<longleftrightarrow> c \<in> set ''()<>@,;:/[]?='' \<or> c = CHR 0x5C \<or> c = CHR 0x22"

definition mime_token_char :: "char \<Rightarrow> bool" where
  "mime_token_char c \<longleftrightarrow> 32 < byte c \<and> byte c < 127 \<and> \<not> tspecial c"

definition consume_token :: "string \<Rightarrow> string \<times> string" where
  "consume_token v = (takeWhile mime_token_char v, dropWhile mime_token_char v)"

text \<open>A quoted value behind its opening quote; a backslash quotes a special character only.\<close>

fun quoted_value :: "string \<Rightarrow> string \<Rightarrow> (string \<times> string) option" where
  "quoted_value acc [] = None"
| "quoted_value acc (c # cs) =
    (if c = CHR 0x22 then Some (rev acc, cs)
     else if c = CHR 0x5C \<and> (case cs of d # _ \<Rightarrow> tspecial d | [] \<Rightarrow> False)
       then quoted_value (hd cs # acc) (tl cs)
     else if c = CHR 0x0D \<or> c = CHR 0x0A then None
     else quoted_value (c # acc) cs)"

definition consume_value :: "string \<Rightarrow> string \<times> string" where
  "consume_value v =
    (case v of
       [] \<Rightarrow> ([], [])
     | c # cs \<Rightarrow>
         if c \<noteq> CHR 0x22 then consume_token v
         else (case quoted_value [] cs of Some p \<Rightarrow> p | None \<Rightarrow> ([], v)))"

text \<open>A parameter with its key, its value and the rest; \<^const>\<open>None\<close> when there is none.\<close>

definition consume_media_param :: "string \<Rightarrow> (string \<times> string \<times> string) option" where
  "consume_media_param v =
    (let rest = trim_left v in
     if \<not> has_prefix rest '';'' then None
     else
       (let (param, rest) = consume_token (trim_left (tl rest)); param = to_lower param; rest = trim_left rest in
        if param = [] \<or> \<not> has_prefix rest ''='' then None
        else
          (let rest = trim_left (tl rest); (val, rest2) = consume_value rest in
           if val = [] \<and> rest2 = rest then None else Some (param, val, rest2))))"

text \<open>
  The parameters, for as many as the text has bytes. A key with a star is part of a longer
  value and is kept apart by its base name; the same key with another value is an error.
\<close>

fun media_params :: "nat \<Rightarrow> (string, string) gomap \<Rightarrow> string \<Rightarrow> bool" where
  "media_params 0 m v = True"
| "media_params (Suc n) m v =
    (let v = trim_left v in
     if v = [] then True
     else
       (case consume_media_param v of
          None \<Rightarrow> bytes_trim_space v = '';''
        | Some (k, val, rest) \<Rightarrow>
          (case map_get m k of
             Some old \<Rightarrow> old = val \<and> media_params n (map_set m k val) rest
           | None \<Rightarrow> media_params n (map_set m k val) rest)))"

text \<open>A type, a slash and a subtype, or a single token.\<close>

definition media_type_ok :: "string \<Rightarrow> bool" where
  "media_type_ok s =
    (let (typ, rest) = consume_token s in
     typ \<noteq> [] \<and>
     (rest = [] \<or>
      has_prefix rest ''/'' \<and> (let (sub, rest) = consume_token (tl rest) in sub \<noteq> [] \<and> rest = [])))"

definition parse_media_type :: "string \<Rightarrow> string option" where
  "parse_media_type v =
    (let base = takeWhile (\<lambda>c. c \<noteq> CHR '';'') v; mt = bytes_trim_space (to_lower base) in
     if media_type_ok mt \<and> media_params (length v) [] (drop (length base) v) then Some mt else None)"

end
