(* ===== verification/Dns_Guard.thy ===== *)
theory Dns_Guard
  imports Go_Http
begin

text \<open>
  \<^verbatim>\<open>internal/dnsguard\<close>: the deny list every upstream dial is checked against after name
  resolution. The lemmas relate the two entry points, show that masking and IPv4-mapped
  spellings do not matter, and compute the default list.
\<close>

section \<open>The guard (dnsguard.go)\<close>

definition metadata_addresses :: "addr list" where
  "metadata_addresses =
    [V4 0xA9FEA9FE, V6 0xFD000EC2000000000000000000000254 [],
     V6 0xFD2000CE000000000000000000000254 []]"

definition default_deny_cidrs :: "string list" where
  "default_deny_cidrs =
    map (\<lambda>a. prefix_string (Cidr a (bit_len a))) metadata_addresses @ [''127.0.0.0/8'', ''::1/128'']"

definition contains_metadata_address :: "cidr \<Rightarrow> bool" where
  "contains_metadata_address p = list_ex (cidr_contains p) metadata_addresses"

record deny_error =
  de_address :: string
  de_prefix :: cidr

datatype guard_error = EmptyCidr | NotCidr string | InvalidCidr string

record guard =
  g_prefixes :: "cidr list"

definition guard_parse_prefix :: "string \<Rightarrow> guard_error + cidr" where
  "guard_parse_prefix raw =
    (let s = trim_space raw in
     if s = [] then Inl EmptyCidr
     else if \<not> str_contains s ''/'' then Inl (NotCidr raw)
     else (case parse_prefix s of
             None \<Rightarrow> Inl (InvalidCidr raw)
           | Some p \<Rightarrow> Inr (cidr_masked p)))"

fun guard_prefixes :: "string list \<Rightarrow> guard_error + cidr list" where
  "guard_prefixes [] = Inr []"
| "guard_prefixes (raw # rest) =
    (case guard_parse_prefix raw of
       Inl e \<Rightarrow> Inl e
     | Inr p \<Rightarrow> (case guard_prefixes rest of Inl e \<Rightarrow> Inl e | Inr ps \<Rightarrow> Inr (p # ps)))"

definition new_guard :: "string list \<Rightarrow> guard_error + guard" where
  "new_guard cidrs =
    (case guard_prefixes cidrs of Inl e \<Rightarrow> Inl e | Inr ps \<Rightarrow> Inr \<lparr>g_prefixes = ps\<rparr>)"

fun validate_cidrs :: "string list \<Rightarrow> guard_error option" where
  "validate_cidrs [] = None"
| "validate_cidrs (raw # rest) =
    (case guard_parse_prefix raw of Inl e \<Rightarrow> Some e | Inr _ \<Rightarrow> validate_cidrs rest)"

text \<open>A nil guard pointer is \<^const>\<open>None\<close>.\<close>

definition is_denied :: "guard option \<Rightarrow> addr \<Rightarrow> bool" where
  "is_denied g ip =
    (case g of
       None \<Rightarrow> False
     | Some g \<Rightarrow>
       if g_prefixes g = [] then False
       else (let ip = without_zone (unmap ip) in list_ex (\<lambda>p. cidr_contains p ip) (g_prefixes g)))"

definition dial_control :: "guard option \<Rightarrow> string \<Rightarrow> deny_error option" where
  "dial_control g address =
    (case g of
       None \<Rightarrow> None
     | Some g \<Rightarrow>
       if g_prefixes g = [] then None
       else
         (let host = (case split_host_port address of Some (h, _) \<Rightarrow> h | None \<Rightarrow> address) in
          case parse_addr host of
            None \<Rightarrow> None
          | Some a \<Rightarrow>
            (let a = without_zone (unmap a) in
             case find (\<lambda>p. cidr_contains p a) (g_prefixes g) of
               Some p \<Rightarrow> Some \<lparr>de_address = host, de_prefix = p\<rparr>
             | None \<Rightarrow> None)))"

section \<open>Properties of the guard\<close>

lemma find_SomeD: "find P xs = Some x \<Longrightarrow> x \<in> set xs \<and> P x"
  by (induction xs) (auto split: if_splits)

lemma validate_cidrs_new_guard:
  "validate_cidrs cidrs = (case new_guard cidrs of Inl e \<Rightarrow> Some e | Inr _ \<Rightarrow> None)"
  by (induction cidrs) (auto simp: new_guard_def split: sum.splits)

lemma is_denied_iff:
  "is_denied (Some g) ip \<longleftrightarrow> (\<exists>p \<in> set (g_prefixes g). cidr_contains p (without_zone (unmap ip)))"
  by (auto simp: is_denied_def list_ex_iff)

lemma dial_control_is_denied:
  assumes "split_host_port address = Some (host, port)" and "parse_addr host = Some a"
  shows "dial_control g address \<noteq> None \<longleftrightarrow> is_denied g a"
  using assms
  by (auto simp: dial_control_def is_denied_def list_ex_iff find_None_iff
      dest: find_SomeD split: option.splits)

text \<open>The prefix reported is one of the list, and the first that contains the address.\<close>

lemma dial_control_SomeD:
  assumes "dial_control (Some g) address = Some e"
  obtains a where "parse_addr (de_address e) = Some a"
    and "cidr_contains (de_prefix e) (without_zone (unmap a))" and "de_prefix e \<in> set (g_prefixes g)"
  using assms
  by (fastforce simp: dial_control_def Let_def find_Some_iff split: option.splits if_splits)

lemma is_denied_unmap: "is_denied g (unmap a) = is_denied g a"
  by (cases g) (simp_all add: is_denied_def)

lemma is_denied_zone: "is_denied g (V6 w z) = is_denied g (V6 w [])"
  by (cases g) (simp_all add: is_denied_def unmap_def without_zone_def)

text \<open>What a compiled list denies, read off the configured strings.\<close>

lemma guard_prefixes_set:
  "guard_prefixes cidrs = Inr ps \<Longrightarrow>
    set ps = {cidr_masked p | raw p. raw \<in> set cidrs \<and> parse_prefix (trim_space raw) = Some p}"
proof (induction cidrs arbitrary: ps)
  case (Cons raw cidrs)
  then obtain p qs where p: "guard_parse_prefix raw = Inr p" and qs: "guard_prefixes cidrs = Inr qs"
    and ps: "ps = p # qs" by (auto split: sum.splits)
  from p obtain q where "parse_prefix (trim_space raw) = Some q" "p = cidr_masked q"
    by (auto simp: guard_parse_prefix_def Let_def split: if_splits option.splits)
  with Cons.IH [OF qs] ps show ?case by auto
qed simp

lemma new_guard_denies:
  assumes "new_guard cidrs = Inr g"
  shows "is_denied (Some g) ip \<longleftrightarrow>
    (\<exists>raw \<in> set cidrs. \<exists>p. parse_prefix (trim_space raw) = Some p
       \<and> cidr_contains p (without_zone (unmap ip)))"
proof -
  from assms have "guard_prefixes cidrs = Inr (g_prefixes g)"
    by (auto simp: new_guard_def split: sum.splits)
  from guard_prefixes_set [OF this] show ?thesis
    unfolding is_denied_iff by (fastforce simp: cidr_contains_masked)
qed

section \<open>The default list\<close>

lemma default_deny_cidrs_eval:
  "default_deny_cidrs =
    [''169.254.169.254/32'', ''fd00:ec2::254/128'', ''fd20:ce::254/128'', ''127.0.0.0/8'', ''::1/128'']"
  by (simp add: default_deny_cidrs_def metadata_addresses_def prefix_string_def addr_string_def
      is_4in6_def ipv4_string_def ipv6_string_def ipv6_groups_def hex_string.simps lower_hex_def
      itoa_def itoa_nat.simps bit_len_def char_of_def bit_0)

definition default_guard :: guard where
  "default_guard = \<lparr>g_prefixes =
    [Cidr (V4 0xA9FEA9FE) 32, Cidr (V6 0xFD000EC2000000000000000000000254 []) 128,
     Cidr (V6 0xFD2000CE000000000000000000000254 []) 128, Cidr (V4 0x7F000000) 8,
     Cidr (V6 1 []) 128]\<rparr>"

lemma new_guard_default: "new_guard default_deny_cidrs = Inr default_guard"
  unfolding default_deny_cidrs_eval by code_simp

lemma cidr_contains_host4: "cidr_contains (Cidr (V4 x) 32) (V4 y) \<longleftrightarrow> y = x"
  by (auto simp: cidr_contains_V4)

lemma cidr_contains_host6: "cidr_contains (Cidr (V6 x []) 128) (V6 y []) \<longleftrightarrow> y = x"
  by (auto simp: cidr_contains_V6)

lemma default_guard_V4:
  "is_denied (Some default_guard) (V4 w) \<longleftrightarrow> w = 0xA9FEA9FE \<or> drop_bit 24 w = 0x7F"
  by (auto simp: is_denied_iff default_guard_def unmap_def without_zone_def cidr_contains_host4
      cidr_contains_V4 cidr_contains_family)

lemma default_guard_V6:
  assumes "\<not> is_4in6 (V6 w z)"
  shows "is_denied (Some default_guard) (V6 w z) \<longleftrightarrow>
    w = 0xFD000EC2000000000000000000000254 \<or> w = 0xFD2000CE000000000000000000000254 \<or> w = 1"
  using assms
  by (auto simp: is_denied_iff default_guard_def unmap_def without_zone_def cidr_contains_host6
      is_4in6_def cidr_contains_family)

section \<open>A deny entry inside the IPv4-mapped range\<close>

lemma drop_bit_le_eq:
  fixes x y :: "'a::len word"
  assumes "drop_bit m x = drop_bit m y" and "m \<le> n"
  shows "drop_bit n x = drop_bit n y"
proof -
  have "drop_bit n x = drop_bit (n - m) (drop_bit m x)" using assms(2) by (simp add: drop_bit_drop_bit)
  also have "\<dots> = drop_bit n y" using assms by (simp add: drop_bit_drop_bit)
  finally show ?thesis .
qed

lemma mapped_prefix_never_denies:
  assumes "is_4in6 (V6 x z)" and "96 \<le> n" and "n \<le> 128"
  shows "\<not> cidr_contains (Cidr (V6 x z) n) (without_zone (unmap ip))"
proof
  assume c: "cidr_contains (Cidr (V6 x z) n) (without_zone (unmap ip))"
  then obtain w z' where ip: "ip = V6 w z'" and nm: "drop_bit 32 w \<noteq> 0xFFFF"
    by (auto simp: unmap_def without_zone_def cidr_contains_family split: addr.splits if_splits)
  with c have "drop_bit (128 - n) x = drop_bit (128 - n) w"
    by (auto simp: unmap_def without_zone_def cidr_contains_V6)
  from drop_bit_le_eq [OF this, of 32] assms nm show False by (auto simp: is_4in6_def)
qed

lemma guard_parse_prefix_mapped:
  assumes "parse_prefix (trim_space raw) = Some p"
  shows "guard_parse_prefix raw = Inr (cidr_masked p)"
proof -
  have "last_index_byte (trim_space raw) CHR ''/'' \<noteq> None"
    using assms by (auto simp: parse_prefix_def split: option.splits)
  then have "CHR ''/'' \<in> set (trim_space raw)" by (simp add: last_index_byte_None)
  then have "str_contains (trim_space raw) ''/''" "trim_space raw \<noteq> []"
    by (auto simp: str_contains_iff dest: split_list)
  with assms show ?thesis by (simp add: guard_parse_prefix_def)
qed

lemma guard_prefixes_insert:
  "\<lbrakk>guard_parse_prefix raw = Inr p; guard_prefixes (xs @ ys) = Inr ps\<rbrakk> \<Longrightarrow>
    \<exists>ps'. guard_prefixes (xs @ raw # ys) = Inr ps'"
  by (induction xs arbitrary: ps) (auto split: sum.splits)

section \<open>The promises of the guard\<close>

text \<open>
  C25: The guard of a configuration refuses to dial an address exactly when one of the
  configured ranges contains it, after mapped IPv4 addresses are unmapped and zones dropped.
\<close>

theorem dial_control_spec:
  assumes "new_guard cidrs = Inr g"
    and "split_host_port address = Some (host, port)" "parse_addr host = Some a"
  shows "dial_control (Some g) address \<noteq> None \<longleftrightarrow>
    (\<exists>raw \<in> set cidrs. \<exists>p. parse_prefix (trim_space raw) = Some p
       \<and> cidr_contains p (without_zone (unmap a)))"
  using dial_control_is_denied [OF assms(2,3), of "Some g"] new_guard_denies [OF assms(1), of a] by simp

theorem dial_control_spec_witness:
  "\<exists>raw \<in> set default_deny_cidrs. \<exists>p. parse_prefix (trim_space raw) = Some p
     \<and> cidr_contains p (without_zone (unmap (V6 0xFFFF7F000001 [])))"
proof -
  have "split_host_port ''[::ffff:127.0.0.1]:80'' = Some (''::ffff:127.0.0.1'', ''80'')"
    and "parse_addr ''::ffff:127.0.0.1'' = Some (V6 0xFFFF7F000001 [])"
    and "dial_control (Some default_guard) ''[::ffff:127.0.0.1]:80'' \<noteq> None" by code_simp+
  with dial_control_spec [OF new_guard_default] show ?thesis by blast
qed

text \<open>
  The default configuration is accepted and denies exactly the three metadata addresses
  and the loopback addresses, whether an IPv4 address is written plainly or mapped.
\<close>

theorem default_guard_exact:
  "new_guard default_deny_cidrs = Inr default_guard
    \<and> is_denied (Some default_guard) a =
      (case unmap a of
         V4 w \<Rightarrow> w = 0xA9FEA9FE \<or> drop_bit 24 w = 0x7F
       | V6 w z \<Rightarrow> w = 0xFD000EC2000000000000000000000254 \<or> w = 0xFD2000CE000000000000000000000254 \<or> w = 1)"
proof -
  have "is_denied (Some default_guard) a = is_denied (Some default_guard) (unmap a)"
    by (simp add: is_denied_unmap)
  then show ?thesis
    using is_4in6_unmap [of a]
    by (cases "unmap a") (simp_all add: new_guard_default default_guard_V4 default_guard_V6)
qed

text \<open>
  C28: An entry of the deny list that is an IPv4-mapped range of at least 96 bits is accepted and
  has no effect: the list with it denies the addresses the list without it denies, since an
  address is unmapped before the comparison and the range is not.
\<close>

theorem mapped_cidr_ignored:
  assumes "parse_prefix (trim_space raw) = Some (Cidr (V6 w z) n)" "is_4in6 (V6 w z)" "96 \<le> n"
    and "new_guard (before @ after) = Inr g"
  shows "\<exists>g'. new_guard (before @ raw # after) = Inr g' \<and> (\<forall>ip. is_denied (Some g') ip = is_denied (Some g) ip)"
proof -
  from parse_prefix_valid [OF assms(1)] have "n \<le> 128" by (simp add: cidr_valid_def bit_len_def)
  then have none: "\<not> cidr_contains (Cidr (V6 w z) n) (without_zone (unmap ip))" for ip
    using mapped_prefix_never_denies assms(2,3) by blast
  obtain g' where g': "new_guard (before @ raw # after) = Inr g'"
    using guard_prefixes_insert [OF guard_parse_prefix_mapped [OF assms(1)], of before after] assms(4)
    by (auto simp: new_guard_def split: sum.splits)
  moreover have "is_denied (Some g') ip = is_denied (Some g) ip" for ip
    using new_guard_denies [OF g', of ip] new_guard_denies [OF assms(4), of ip] none [of ip] assms(1) by auto
  ultimately show ?thesis by blast
qed

theorem mapped_cidr_ignored_witness:
  "\<exists>g'. new_guard (default_deny_cidrs @ [''::ffff:10.0.0.1/128'']) = Inr g' \<and> \<not> is_denied (Some g') (V4 0x0A000001)"
proof -
  have p: "parse_prefix (trim_space ''::ffff:10.0.0.1/128'') = Some (Cidr (V6 0xFFFF0A000001 []) 128)"
    "is_4in6 (V6 0xFFFF0A000001 [])" "\<not> is_denied (Some default_guard) (V4 0x0A000001)" by code_simp+
  have "96 \<le> (128 :: nat)" "new_guard (default_deny_cidrs @ []) = Inr default_guard"
    using new_guard_default by simp_all
  from mapped_cidr_ignored [OF p(1,2) this] p(3) show ?thesis by blast
qed

end
