(* ===== verification/Allowlist.thy ===== *)
theory Allowlist
  imports Host_Match Pipeline
begin

text \<open>
  \<^verbatim>\<open>internal/transform/allowlist\<close>: the default-deny transform over hosts, methods and paths,
  the check that a request inside a tunnel is for the tunnel's target, and the private address
  ranges a matching rule opens.
\<close>

section \<open>Rules with private ranges (private\_ips.go)\<close>

record private_rule =
  pr_rule :: rule
  pr_private :: "cidr list"

definition matches_http :: "private_rule \<Rightarrow> 'x request \<Rightarrow> string \<Rightarrow> bool" where
  "matches_http r req host \<longleftrightarrow>
    (rl_paths (pr_rule r) = None
       \<or> \<not> contains_any (url_escaped_path (r_url req)) [CHR ''%'', CHR 0x5C, CHR '';''])
    \<and> rule_matches (pr_rule r) host (r_method req) (u_path (r_url req))"

datatype allowlist_error = RuleError rule_error | InvalidPrivateCidr string

fun compile_private :: "string \<Rightarrow> string list \<Rightarrow> allowlist_error + cidr list" where
  "compile_private host [] = Inr []"
| "compile_private host (raw # raws) =
    (case parse_prefix raw of
       None \<Rightarrow> Inl (InvalidPrivateCidr raw)
     | Some p \<Rightarrow>
       (if host = [] then Inl (InvalidPrivateCidr raw)
        else
          (let ip = cidr_masked p;
               ip = (if is_4in6 (cidr_addr ip)
                     then Cidr (unmap (cidr_addr ip)) (cidr_bits ip - 96) else ip)
           in case compile_private host raws of Inl e \<Rightarrow> Inl e | Inr ps \<Rightarrow> Inr (ip # ps))))"

definition compile_private_rule :: "rule \<Rightarrow> rule_config \<Rightarrow> allowlist_error + private_rule" where
  "compile_private_rule compiled cfg =
    (case compile_private (rc_host cfg) (rc_private cfg) of
       Inl e \<Rightarrow> Inl e
     | Inr ps \<Rightarrow> Inr \<lparr>pr_rule = compiled, pr_private = ps\<rparr>)"

section \<open>The transform (allowlist.go)\<close>

record allowlist =
  al_rules :: "private_rule list"
  al_warn :: bool

record allowlist_config =
  ac_domains :: "string list"
  ac_cidrs :: "string list"
  ac_rules :: "rule_config list"
  ac_warn :: bool

definition host_rule :: "string \<Rightarrow> rule_config" where
  "host_rule host = \<lparr>rc_host = host, rc_cidr = [], rc_methods = [], rc_paths = [], rc_private = []\<rparr>"

definition cidr_rule :: "string \<Rightarrow> rule_config" where
  "cidr_rule cidr = \<lparr>rc_host = [], rc_cidr = cidr, rc_methods = [], rc_paths = [], rc_private = []\<rparr>"

definition allowlist_configs :: "allowlist_config \<Rightarrow> rule_config list" where
  "allowlist_configs cfg =
    ac_rules cfg @ map host_rule (filter (\<lambda>h. h \<noteq> []) (ac_domains cfg))
      @ map cidr_rule (ac_cidrs cfg)"

fun compile_allowlist :: "rule_config list \<Rightarrow> allowlist_error + private_rule list" where
  "compile_allowlist [] = Inr []"
| "compile_allowlist (rc # rcs) =
    (case compile_rules [rc] of
       Inl e \<Rightarrow> Inl (RuleError e)
     | Inr compiled \<Rightarrow>
       (case compile_private_rule (hd compiled) rc of
          Inl e \<Rightarrow> Inl e
        | Inr r \<Rightarrow> (case compile_allowlist rcs of Inl e \<Rightarrow> Inl e | Inr rs \<Rightarrow> Inr (r # rs))))"

definition new_from_config :: "allowlist_config \<Rightarrow> allowlist_error + allowlist" where
  "new_from_config cfg =
    (case compile_allowlist (allowlist_configs cfg) of
       Inl e \<Rightarrow> Inl e
     | Inr rs \<Rightarrow> Inr \<lparr>al_rules = rs, al_warn = ac_warn cfg\<rparr>)"

definition new_allowlist :: "string list \<Rightarrow> string list \<Rightarrow> allowlist_error + allowlist" where
  "new_allowlist domains cidrs =
    new_from_config \<lparr>ac_domains = domains, ac_cidrs = cidrs, ac_rules = [], ac_warn = False\<rparr>"

definition matches_tunnel_authority :: "string \<Rightarrow> string \<Rightarrow> bool \<Rightarrow> bool" where
  "matches_tunnel_authority target requestHost tls =
    (case split_host_port target of
       None \<Rightarrow> False
     | Some (targetHost, targetPort) \<Rightarrow>
       (case (if str_contains requestHost '':'' then split_host_port requestHost
              else Some (requestHost, if tls then ''443'' else ''80'')) of
          None \<Rightarrow> False
        | Some (reqHost, reqPort) \<Rightarrow> equal_fold targetHost reqHost \<and> targetPort = reqPort))"

definition allowlist_authority :: "transform_context \<Rightarrow> 'x request \<Rightarrow> bool" where
  "allowlist_authority tctx req \<longleftrightarrow>
    tc_tunnel_admission tctx
    \<or> (case tc_tunnel tctx of
         None \<Rightarrow> True
       | Some tun \<Rightarrow> matches_tunnel_authority (tun_target tun) (r_host req) (r_tls req \<noteq> None))"

definition allowlist_allowed :: "allowlist \<Rightarrow> transform_context \<Rightarrow> 'x request \<Rightarrow> bool" where
  "allowlist_allowed a tctx req =
    (let host = strip_port (r_host req) in
     list_ex (\<lambda>rule.
         allowlist_authority tctx req
         \<and> ((tc_tunnel_admission tctx \<and> rule_matches_host (pr_rule rule) host)
            \<or> (\<not> tc_tunnel_admission tctx \<and> matches_http rule req host)))
       (al_rules a))"

definition allowlist_request ::
    "allowlist \<Rightarrow> transform_context \<Rightarrow> 'x request \<Rightarrow>
      transform_context \<times> 'x request \<times> outcome" where
  "allowlist_request a tctx req =
    (if allowlist_allowed a tctx req then (tctx, req, Done continue_result)
     else if al_warn a then (annotate tctx ''action'' (AStr ''warn''), req, Done continue_result)
     else (tctx, req, Done reject_result))"

definition allowlist_private_ips :: "allowlist \<Rightarrow> 'x request \<Rightarrow> cidr list" where
  "allowlist_private_ips a req =
    concat (map pr_private
      (filter (\<lambda>rule. \<not> al_warn a \<and> matches_http rule req (strip_port (u_host (r_url req))))
        (al_rules a)))"

definition allowlist_transform :: "allowlist \<Rightarrow> 'x transformer" where
  "allowlist_transform a =
    \<lparr>t_name = ''allowlist'', t_request = allowlist_request a, t_response = response_continue,
     t_private_ips = Some (allowlist_private_ips a), t_closer = None\<rparr>"

section \<open>Decisions\<close>

lemma allowlist_allowed_iff:
  "allowlist_allowed a tctx req \<longleftrightarrow> allowlist_authority tctx req \<and>
    (\<exists>rule \<in> set (al_rules a).
       if tc_tunnel_admission tctx then rule_matches_host (pr_rule rule) (strip_port (r_host req))
       else matches_http rule req (strip_port (r_host req)))"
  by (auto simp: allowlist_allowed_def list_ex_iff Let_def)

lemma allowlist_request_continue_iff:
  "snd (snd (allowlist_request a tctx req)) = Done continue_result
    \<longleftrightarrow> al_warn a \<or> allowlist_allowed a tctx req"
  by (simp add: allowlist_request_def continue_result_def reject_result_def)

lemma allowlist_request_req [simp]: "fst (snd (allowlist_request a tctx req)) = req"
  by (simp add: allowlist_request_def)



section \<open>Private ranges\<close>

lemma compile_private_set:
  "compile_private host raws = Inr ps \<Longrightarrow> raws = [] \<or> host \<noteq> []"
  by (induction raws arbitrary: ps) (auto split: option.splits if_splits)

text \<open>Only a range of at least 96 bits is rewritten, so the bits stay in range.\<close>

lemma masked_4in6_bits:
  assumes "is_4in6 (cidr_addr (cidr_masked p))" and "cidr_valid p"
  shows "96 \<le> cidr_bits p"
proof (cases p)
  case (Cidr a n)
  show ?thesis
  proof (rule ccontr)
    assume "\<not> 96 \<le> cidr_bits p"
    with Cidr have n: "n < 96" by simp
    from assms(1) Cidr obtain x z where a: "a = V6 x z"
      and m: "drop_bit 32 (push_bit (128 - n) (drop_bit (128 - n) x)) = (0xFFFF :: 128 word)"
      by (cases a) (auto simp: cidr_masked_def is_4in6_def)
    have "bit (drop_bit 32 (push_bit (128 - n) (drop_bit (128 - n) x))) 0 = bit (0xFFFF :: 128 word) 0"
      by (simp only: m)
    with n show False by (auto simp: bit_simps)
  qed
qed

lemma allowlist_private_ips_iff:
  "p \<in> set (allowlist_private_ips a req) \<longleftrightarrow> \<not> al_warn a \<and>
    (\<exists>rule \<in> set (al_rules a). p \<in> set (pr_private rule)
       \<and> matches_http rule req (strip_port (u_host (r_url req))))"
  by (auto simp: allowlist_private_ips_def)

section \<open>Compilation\<close>

lemma compile_allowlist_error_index:
  "compile_allowlist rcs = Inl (RuleError e) \<Longrightarrow>
    e \<in> {HostAndCidr 0, HostOrCidrRequired 0} \<or> (\<exists>c. e = BadCidr 0 c) \<or> (\<exists>p. e = BadPath 0 p)"
proof (induction rcs)
  case (Cons rc rcs)
  have "compile_private_rule r c \<noteq> Inl (RuleError e)" for r c
  proof -
    have "compile_private h raws \<noteq> Inl (RuleError e)" for h raws
      by (induction raws) (auto simp: Let_def split: option.splits sum.splits)
    then show ?thesis by (auto simp: compile_private_rule_def split: sum.splits)
  qed
  with Cons show ?case
    by (auto simp: compile_rules_def compile_rule_def split: sum.splits if_splits option.splits)
qed simp

lemma compile_allowlist_in:
  assumes "compile_allowlist rcs = Inr rs"
  shows "length rs = length rcs \<and> (\<forall>k < length rcs. compile_rule 0 (rcs ! k) = Inr (pr_rule (rs ! k)))"
  using assms
proof (induction rcs arbitrary: rs)
  case (Cons rc rcs)
  from Cons.prems obtain c ps rs' where r: "compile_rule 0 rc = Inr c"
      "rs = \<lparr>pr_rule = c, pr_private = ps\<rparr> # rs'"
    and rs': "compile_allowlist rcs = Inr rs'"
    by (auto simp: compile_rules_def compile_private_rule_def split: sum.splits)
  from Cons.IH [OF rs'] r show ?case by (auto simp: nth_Cons split: nat.splits)
qed simp

section \<open>The promises of the allowlist\<close>





text \<open>
  An error in any rule is reported as an error of rule 0, since every rule is compiled
  on its own.
\<close>

theorem allowlist_error_index:
  assumes "compile_allowlist rcs = Inl (RuleError e)"
  shows "e \<in> {HostAndCidr 0, HostOrCidrRequired 0} \<or> (\<exists>c. e = BadCidr 0 c) \<or> (\<exists>p. e = BadPath 0 p)"
  by (rule compile_allowlist_error_index [OF assms])

theorem allowlist_error_index_witness:
  "compile_allowlist [host_rule ''a.b'', host_rule []] = Inl (RuleError (HostOrCidrRequired 0))"
proof -
  have e: "compile_allowlist [host_rule ''a.b'', host_rule []] = Inl (RuleError (HostOrCidrRequired 0))" by code_simp
  from allowlist_error_index [OF this] e show ?thesis by simp
qed

end
