(* ===== verification/Proxy_Wire.thy ===== *)
theory Proxy_Wire
  imports Go_Url Go_Mime Dns_Guard Secrets_Response Allowlist
begin

text \<open>
  The parts of \<^verbatim>\<open>internal/proxy\<close> below the request handler: the headers that go upstream, the
  response that goes to the client, and the send boundary of \<^verbatim>\<open>private_ip.go\<close> with its dialer.
\<close>

section \<open>Requests (proxy.go)\<close>

definition contains_dot_segments :: "string \<Rightarrow> bool" where
  "contains_dot_segments p = list_ex (\<lambda>seg. seg = ''.'' \<or> seg = ''..'') (split_char CHR ''/'' p)"

definition header_has_token :: "header \<Rightarrow> string \<Rightarrow> string \<Rightarrow> bool" where
  "header_has_token h name token =
    list_ex (\<lambda>v. list_ex (\<lambda>t. equal_fold (bytes_trim_space t) token) (split_char CHR '','' v)) (h_values h name)"

definition is_websocket_upgrade :: "'x request \<Rightarrow> bool" where
  "is_websocket_upgrade r \<longleftrightarrow>
    equal_fold (h_get (r_header r) ''Upgrade'') ''websocket'' \<and> header_has_token (r_header r) ''Connection'' ''upgrade''"

definition hop_by_hop_headers :: "string list" where
  "hop_by_hop_headers =
    [''Connection'', ''Proxy-Connection'', ''Keep-Alive'', ''Proxy-Authenticate'', ''Proxy-Authorization'', ''Te'',
     ''Trailer'', ''Transfer-Encoding'', ''Upgrade'']"

definition header_tokens :: "header \<Rightarrow> string \<Rightarrow> string list" where
  "header_tokens h name =
    filter (\<lambda>t. t \<noteq> []) (map bytes_trim_space (concat (map (split_char CHR '','') (h_values h name))))"

definition sanitize_upstream_headers :: "header \<Rightarrow> header" where
  "sanitize_upstream_headers h =
    (let connectionTokens = header_tokens h ''Connection'';
         keepTrailers = header_has_token h ''Te'' ''trailers'';
         h = fold (\<lambda>name h. h_del h name) hop_by_hop_headers h;
         h = fold (\<lambda>name h. h_del h name) connectionTokens h
     in if keepTrailers then h_set h ''Te'' ''trailers'' else h)"

definition copy_headers :: "header \<Rightarrow> header \<Rightarrow> header" where
  "copy_headers dst src = fold (\<lambda>(k, vs) h. fold (\<lambda>v h. h_add h k v) vs h) src dst"

definition response_retry_eligible :: "'x request \<Rightarrow> bool" where
  "response_retry_eligible req =
    (if r_content_length req < 0 \<or> is_websocket_upgrade req then False
     else
       (let contentType = to_lower (bytes_trim_space (fst (cut_char CHR '';'' (h_get (r_header req) ''Content-Type''))))
        in \<not> has_prefix contentType ''application/grpc''))"

text \<open>
  The body to send, the bytes for a replay, and whether a replay is possible; \<^const>\<open>None\<close> is a
  read error.
\<close>

definition prepare_replay_body :: "reader \<Rightarrow> int \<Rightarrow> int \<Rightarrow> (reader \<times> bytes \<times> bool) option" where
  "prepare_replay_body body contentLength limit =
    (if limit \<le> 0 \<or> limit < contentLength then Some (body, [], False)
     else
       (let (replayBody, failed) = read_all_limited body (limit + 1) in
        if failed then None
        else if limit < int (length replayBody) then Some (body, [], False)
        else Some (\<lparr>rd_content = replayBody, rd_fails = False\<rparr>, replayBody, True)))"

section \<open>Responses (proxy.go)\<close>

text \<open>What the client receives: a broken body ends early.\<close>

record client_response =
  cr_status :: nat
  cr_header :: header
  cr_body :: bytes
  cr_broken :: bool
  cr_trailer :: header

definition http_error :: "string \<Rightarrow> nat \<Rightarrow> client_response" where
  "http_error msg code =
    \<lparr>cr_status = code,
     cr_header = [(''Content-Type'', [''text/plain; charset=utf-8'']), (''X-Content-Type-Options'', [''nosniff''])],
     cr_body = msg @ [CHR 0x0A], cr_broken = False, cr_trailer = []\<rparr>"

definition is_sse :: "response \<Rightarrow> bool" where
  "is_sse resp = has_prefix (h_get (p_header resp) ''Content-Type'') ''text/event-stream''"

text \<open>\<open>request\<close> is the request the response belongs to, \<^const>\<open>None\<close> for a synthetic response.\<close>

definition copy_response_headers :: "srequest option \<Rightarrow> response \<Rightarrow> header" where
  "copy_response_headers request resp =
    (let h = copy_headers [] (p_header resp);
         h = (if p_trailer resp \<noteq> [] then h_del h ''Content-Length'' else h)
     in fold (\<lambda>(name, _) h. h_add h ''Trailer'' (mask_response_text request name)) (p_trailer resp) h)"

definition write_trailers :: "srequest option \<Rightarrow> response \<Rightarrow> header" where
  "write_trailers request resp =
    fold (\<lambda>(k, vs) h. fold (\<lambda>v h. h_add h (''Trailer:'' @ mask_response_text request k) (mask_response_text request v)) vs h)
      (p_trailer resp) []"

definition write_response :: "srequest option \<Rightarrow> response \<Rightarrow> client_response" where
  "write_response request resp =
    (let h = copy_response_headers request resp;
         out = (\<lambda>h r. \<lparr>cr_status = p_status resp, cr_header = h, cr_body = rd_content r, cr_broken = rd_fails r,
           cr_trailer = write_trailers request resp\<rparr>)
     in case p_body resp of
          Buffered buf \<Rightarrow>
            (let h = (if 0 \<le> bb_len buf \<and> p_trailer resp = [] then h_set h ''Content-Length'' (itoa (bb_len buf)) else h)
             in out h (snd (streaming_reader buf)))
        | PlainBody data \<Rightarrow> out h \<lparr>rd_content = data, rd_fails = False\<rparr>)"

text \<open>Streaming needs a buffered body: a plain one is a panic.\<close>

definition stream_sse :: "srequest option \<Rightarrow> response \<Rightarrow> client_response option" where
  "stream_sse request resp =
    (case require_buffered_body (p_body resp) of
       None \<Rightarrow> None
     | Some buf \<Rightarrow>
       (let r = snd (streaming_reader buf) in
        Some \<lparr>cr_status = p_status resp, cr_header = copy_response_headers request resp, cr_body = rd_content r,
          cr_broken = rd_fails r, cr_trailer = write_trailers request resp\<rparr>))"

section \<open>The send boundary (private\_ip.go)\<close>

text \<open>A request to send: its body stands beside it, the body field is not looked at.\<close>

record outbound =
  ob_request :: srequest
  ob_body :: reader

definition parse_addr_port :: "string \<Rightarrow> addr option" where
  "parse_addr_port s =
    (case last_index_byte s CHR '':'' of
       None \<Rightarrow> None
     | Some i \<Rightarrow>
       (let ip = take i s; port = drop (Suc i) s;
            bracket = ip \<noteq> [] \<and> hd ip = CHR ''['' in
        if ip = [] \<or> port = [] \<or> \<not> list_all is_digit port \<or> 65535 < dec_val 0 port then None
        else if bracket \<and> (length ip < 2 \<or> last ip \<noteq> CHR '']'') then None
        else
          (case parse_addr (if bracket then butlast (tl ip) else ip) of
             Some (V4 w) \<Rightarrow> if bracket then None else Some (V4 w)
           | Some (V6 w z) \<Rightarrow> if bracket then Some (V6 w z) else None
           | None \<Rightarrow> None)))"

definition private_policy :: "srequest \<Rightarrow> srequest" where
  "private_policy req =
    \<lparr>r_method = r_method req, r_host = [],
     r_url = \<lparr>u_scheme = [], u_host = u_host (r_url req), u_path = u_path (r_url req), u_rawpath = u_rawpath (r_url req),
       u_rawquery = [], u_user = False\<rparr>,
     r_header = [], r_body = PlainBody [], r_tls = None, r_remote = [], r_content_length = 0, r_ctx = None\<rparr>"

definition private_allowed :: "guard option \<Rightarrow> srequest \<Rightarrow> string \<Rightarrow> request_scrubs pipeline \<Rightarrow> bool" where
  "private_allowed g req address pl =
    (case parse_addr_port address of
       None \<Rightarrow> False
     | Some ip \<Rightarrow>
       (if \<not> is_denied g ip then True
        else
          (case private_ip_permission pl (private_policy req) of
             None \<Rightarrow> False
           | Some permit \<Rightarrow> permit (without_zone (unmap ip)))))"

definition private_control ::
    "guard option \<Rightarrow> srequest \<Rightarrow> request_scrubs pipeline option \<Rightarrow> string \<Rightarrow> deny_error option" where
  "private_control g req pl address =
    (case dial_control g address of
       None \<Rightarrow> None
     | Some e \<Rightarrow>
       (case pl of
          Some pl \<Rightarrow> if private_allowed g req address pl then None else Some e
        | None \<Rightarrow> Some e))"

text \<open>
  One dial: \<open>address\<close> is what the name resolved to, \<open>pl\<close> the pipeline at the moment the dialer asks, and
  \<open>connected\<close> whether the connection came about. By then the holder is \<open>h\<close>, which may have been
  reloaded. The result is the address of the connection the holder tracks. A holder without a
  pipeline, which the program never installs, gives no connection.
\<close>

definition dial_private ::
    "guard option \<Rightarrow> srequest \<Rightarrow> string \<Rightarrow> request_scrubs pipeline option \<Rightarrow> bool \<Rightarrow> nat \<Rightarrow>
      request_scrubs pipeline holder \<Rightarrow> request_scrubs pipeline holder \<times> string option" where
  "dial_private g req address pl connected i h =
    (if private_control g req pl address \<noteq> None \<or> \<not> connected then (h, None)
     else
       (let (h, ok) = track_private_connection \<lparr>pc_id = i, pc_allowed = private_allowed g req address\<rparr> h
        in (h, if ok then Some address else None)))"

datatype transport = PlainTransport | PrivateTransport

datatype send_refusal = DestinationRefused | DirectRequired

text \<open>
  \<open>proxied\<close> says whether the transport has an upstream proxy for the request. A request is
  handed to a transport, or refused.
\<close>

definition round_trip ::
    "(resolved_secret \<Rightarrow> int) \<Rightarrow> request_scrubs pipeline \<Rightarrow> (srequest \<Rightarrow> bool) \<Rightarrow> srequest \<Rightarrow> send_refusal + transport" where
  "round_trip now pl proxied req =
    (if \<not> validate_final_destination now req then Inl DestinationRefused
     else if private_ip_permission pl req = None then Inr PlainTransport
     else if proxied req then Inl DirectRequired
     else Inr PrivateTransport)"

end
