(* ===== verification/Go_Json.thy ===== *)
theory Go_Json
  imports Go_Http "HOL-Library.Char_ord" "HOL-Library.List_Lexorder"
begin

text \<open>
  The parts of \<^verbatim>\<open>encoding/json\<close> the program uses: the grammar of a text with the raw bytes of
  every value, the decoded strings, the decoding into \<^verbatim>\<open>any\<close>, the matching of struct fields,
  and the encoding of values. Floating point numbers are a type parameter: parsing a literal,
  printing, the conversion of an integer and the equality of two numbers are given by an
  environment.
\<close>

section \<open>Scanning\<close>

definition json_ws :: "char \<Rightarrow> bool" where
  "json_ws c \<longleftrightarrow> byte c \<in> {32, 9, 10, 13}"

definition skip_ws :: "string \<Rightarrow> string" where
  "skip_ws s = dropWhile json_ws s"

text \<open>The body of a string literal and the text behind its closing quote.\<close>

fun scan_string :: "string \<Rightarrow> (string \<times> string) option" where
  "scan_string [] = None"
| "scan_string (c # cs) =
    (if c = CHR 0x22 then Some ([], cs)
     else if c = CHR 0x5C then
       (case cs of
          [] \<Rightarrow> None
        | e # es \<Rightarrow>
            if e \<in> set ''bfnrt/'' \<or> e = CHR 0x5C \<or> e = CHR 0x22
            then map_option (\<lambda>(b, r). (c # e # b, r)) (scan_string es)
            else if e = CHR ''u'' \<and> 4 \<le> length es \<and> list_all (\<lambda>d. hex_digit d \<noteq> None) (take 4 es)
            then map_option (\<lambda>(b, r). (c # e # take 4 es @ b, r)) (scan_string (drop 4 es))
            else None)
     else if byte c < 32 then None
     else map_option (\<lambda>(b, r). (c # b, r)) (scan_string cs))"

definition scan_digits :: "string \<Rightarrow> string \<times> string" where
  "scan_digits s = (takeWhile is_digit s, dropWhile is_digit s)"

text \<open>The digits behind a decimal point or an exponent, at least one.\<close>

definition scan_fraction :: "string \<Rightarrow> (string \<times> string) option" where
  "scan_fraction s =
    (case s of
       c # cs \<Rightarrow>
         if c = CHR ''.'' then (let (ds, r) = scan_digits cs in if ds = [] then None else Some (c # ds, r))
         else Some ([], s)
     | [] \<Rightarrow> Some ([], []))"

definition scan_exponent :: "string \<Rightarrow> (string \<times> string) option" where
  "scan_exponent s =
    (case s of
       c # cs \<Rightarrow>
         if c = CHR ''e'' \<or> c = CHR ''E'' then
           (let sign = (case cs of d # _ \<Rightarrow> if d = CHR ''+'' \<or> d = CHR ''-'' then [d] else [] | [] \<Rightarrow> []);
                (ds, r) = scan_digits (drop (length sign) cs)
            in if ds = [] then None else Some (c # sign @ ds, r))
         else Some ([], s)
     | [] \<Rightarrow> Some ([], []))"

definition scan_integer :: "string \<Rightarrow> (string \<times> string) option" where
  "scan_integer s =
    (case s of
       c # cs \<Rightarrow>
         if c = CHR ''0'' then Some ([c], cs)
         else if is_digit c then (let (ds, r) = scan_digits cs in Some (c # ds, r))
         else None
     | [] \<Rightarrow> None)"

definition scan_number :: "string \<Rightarrow> (string \<times> string) option" where
  "scan_number s =
    (let sign = (case s of c # _ \<Rightarrow> if c = CHR ''-'' then [c] else [] | [] \<Rightarrow> []) in
     case scan_integer (drop (length sign) s) of
       None \<Rightarrow> None
     | Some (i, r) \<Rightarrow>
       (case scan_fraction r of
          None \<Rightarrow> None
        | Some (f, r) \<Rightarrow>
          (case scan_exponent r of None \<Rightarrow> None | Some (e, r) \<Rightarrow> Some (sign @ i @ f @ e, r))))"

section \<open>Decoded strings\<close>

definition hex4 :: "string \<Rightarrow> nat" where
  "hex4 ds = foldl (\<lambda>a d. 16 * a + the (hex_digit d)) 0 (take 4 ds)"

text \<open>\<^verbatim>\<open>getu4\<close>: a unit written as an escape at the head of the text.\<close>

definition getu4 :: "string \<Rightarrow> nat option" where
  "getu4 s =
    (if 6 \<le> length s \<and> take 2 s = [CHR 0x5C, CHR ''u''] \<and> list_all (\<lambda>d. hex_digit d \<noteq> None) (take 4 (drop 2 s))
     then Some (hex4 (drop 2 s)) else None)"

definition json_unescape :: "char \<Rightarrow> char" where
  "json_unescape e =
    (if e = CHR ''b'' then CHR 0x08 else if e = CHR ''f'' then CHR 0x0C else if e = CHR ''n'' then CHR 0x0A
     else if e = CHR ''r'' then CHR 0x0D else if e = CHR ''t'' then CHR 0x09 else e)"

text \<open>The rune of a unit: a surrogate needs its partner behind it.\<close>

definition json_unit_rune :: "nat \<Rightarrow> string \<Rightarrow> nat \<times> nat" where
  "json_unit_rune r s =
    (if surrogate r then
       (case getu4 s of
          Some r1 \<Rightarrow>
            if r < 0xDC00 \<and> 0xDC00 \<le> r1 \<and> r1 \<le> 0xDFFF
            then (0x10000 + (r - 0xD800) * 0x400 + (r1 - 0xDC00), 6) else (rune_error, 0)
        | None \<Rightarrow> (rune_error, 0))
     else (r, 0))"

function json_unquote :: "string \<Rightarrow> string" where
  "json_unquote [] = []"
| "json_unquote (c # cs) =
    (if c = CHR 0x5C then
       (case getu4 (c # cs) of
          Some r \<Rightarrow> (let (q, n) = json_unit_rune r (drop 5 cs) in encode_rune q @ json_unquote (drop (5 + n) cs))
        | None \<Rightarrow>
          (case cs of [] \<Rightarrow> [] | e # es \<Rightarrow> json_unescape e # json_unquote es))
     else if byte c < rune_self then c # json_unquote cs
     else
       (let (r, n) = decode_rune (c # cs) in encode_rune r @ json_unquote (drop n (c # cs))))"
  by pat_completeness auto
termination
proof (relation "measure length", goal_cases)
  case (5 c cs p r n)
  then have "n = snd (decode_rune (c # cs))" by (metis snd_conv)
  then show ?case using decode_rune_size_pos [of "c # cs"] by (simp del: decode_rune.simps)
qed auto

section \<open>Texts\<close>

text \<open>A value with its raw bytes; the keys of an object are decoded.\<close>

datatype jtree =
    JLit string
  | JText string string
  | JArray string "jtree list"
  | JObject string "(string \<times> jtree) list"

fun raw_of :: "jtree \<Rightarrow> string" where
  "raw_of (JLit raw) = raw"
| "raw_of (JText raw _) = raw"
| "raw_of (JArray raw _) = raw"
| "raw_of (JObject raw _) = raw"

definition max_nesting :: nat where
  "max_nesting = 10000"

definition json_literal :: "string \<Rightarrow> (jtree \<times> string) option" where
  "json_literal s =
    (if has_prefix s ''null'' then Some (JLit ''null'', drop 4 s)
     else if has_prefix s ''true'' then Some (JLit ''true'', drop 4 s)
     else if has_prefix s ''false'' then Some (JLit ''false'', drop 5 s)
     else map_option (\<lambda>(n, r). (JLit n, r)) (scan_number s))"

definition consumed :: "string \<Rightarrow> string \<Rightarrow> string" where
  "consumed s rest = take (length s - length rest) s"

text \<open>
  A value, the elements of an array behind its bracket, the members of an object behind its
  brace. The first argument bounds the calls, the second is the nesting.
\<close>

fun json_value :: "nat \<Rightarrow> nat \<Rightarrow> string \<Rightarrow> (jtree \<times> string) option"
  and json_elements :: "nat \<Rightarrow> nat \<Rightarrow> bool \<Rightarrow> string \<Rightarrow> (jtree list \<times> string) option"
  and json_members :: "nat \<Rightarrow> nat \<Rightarrow> bool \<Rightarrow> string \<Rightarrow> ((string \<times> jtree) list \<times> string) option" where
  "json_value 0 d s = None"
| "json_value (Suc n) d s =
    (case s of
       [] \<Rightarrow> None
     | c # cs \<Rightarrow>
         if c = CHR 0x22 then map_option (\<lambda>(b, r). (JText (c # b @ [CHR 0x22]) (json_unquote b), r)) (scan_string cs)
         else if c = CHR ''['' then
           (if max_nesting \<le> d then None
            else map_option (\<lambda>(ts, r). (JArray (consumed s r) ts, r)) (json_elements n (Suc d) True (skip_ws cs)))
         else if c = CHR ''{'' then
           (if max_nesting \<le> d then None
            else map_option (\<lambda>(ms, r). (JObject (consumed s r) ms, r)) (json_members n (Suc d) True (skip_ws cs)))
         else json_literal s)"
| "json_elements 0 d first s = None"
| "json_elements (Suc n) d first s =
    (if first \<and> has_prefix s '']'' then Some ([], tl s)
     else
       (case json_value n d s of
          None \<Rightarrow> None
        | Some (t, r) \<Rightarrow>
          (case skip_ws r of
             [] \<Rightarrow> None
           | c # cs \<Rightarrow>
               if c = CHR '']'' then Some ([t], cs)
               else if c = CHR '','' then map_option (\<lambda>(ts, r). (t # ts, r)) (json_elements n d False (skip_ws cs))
               else None)))"
| "json_members 0 d first s = None"
| "json_members (Suc n) d first s =
    (case s of
       [] \<Rightarrow> None
     | q # qs \<Rightarrow>
         if first \<and> q = CHR ''}'' then Some ([], qs)
         else if q \<noteq> CHR 0x22 then None
         else
           (case scan_string qs of
              None \<Rightarrow> None
            | Some (k, r) \<Rightarrow>
              (case skip_ws r of
                 [] \<Rightarrow> None
               | c # cs \<Rightarrow>
                   if c \<noteq> CHR '':'' then None
                   else
                     (case json_value n d (skip_ws cs) of
                        None \<Rightarrow> None
                      | Some (t, r) \<Rightarrow>
                        (case skip_ws r of
                           [] \<Rightarrow> None
                         | c # cs \<Rightarrow>
                             if c = CHR ''}'' then Some ([(json_unquote k, t)], cs)
                             else if c = CHR '','' then
                               map_option (\<lambda>(ms, r). ((json_unquote k, t) # ms, r)) (json_members n d False (skip_ws cs))
                             else None)))))"

text \<open>The whole text: two calls for every byte are enough.\<close>

definition json_parse :: "string \<Rightarrow> jtree option" where
  "json_parse s =
    (case json_value (2 * length s + 2) 0 (skip_ws s) of
       Some (t, r) \<Rightarrow> if skip_ws r = [] then Some t else None
     | None \<Rightarrow> None)"

section \<open>Values\<close>

text \<open>
  What an \<^verbatim>\<open>any\<close> holds: decoded JSON has floating point numbers only, a decoded configuration
  has integers too.
\<close>

datatype 'f gval =
    GNil
  | GBool bool
  | GFloat 'f
  | GInt int
  | GStr string
  | GArr "'f gval list"
  | GMap "(string \<times> 'f gval) list"

record 'f json_env =
  je_float :: "string \<Rightarrow> 'f option"
  je_format :: "'f \<Rightarrow> string"
  je_of_int :: "int \<Rightarrow> 'f"
  je_eq :: "'f \<Rightarrow> 'f \<Rightarrow> bool"

fun all_some :: "'a option list \<Rightarrow> 'a list option" where
  "all_some [] = Some []"
| "all_some (None # _) = None"
| "all_some (Some x # xs) = map_option ((#) x) (all_some xs)"

text \<open>\<^verbatim>\<open>json.Unmarshal\<close> into an \<^verbatim>\<open>any\<close>; \<^const>\<open>None\<close> when a number does not fit.\<close>

fun decode_any :: "'f json_env \<Rightarrow> jtree \<Rightarrow> 'f gval option" where
  "decode_any env (JLit raw) =
    (if raw = ''null'' then Some GNil
     else if raw = ''true'' then Some (GBool True)
     else if raw = ''false'' then Some (GBool False)
     else map_option GFloat (je_float env raw))"
| "decode_any env (JText _ s) = Some (GStr s)"
| "decode_any env (JArray _ ts) = map_option GArr (all_some (map (decode_any env) ts))"
| "decode_any env (JObject _ ms) =
    map_option (\<lambda>vs. GMap (foldl (\<lambda>m (k, v). map_set m k v) [] (zip (map fst ms) vs)))
      (all_some (map (\<lambda>(k, t). decode_any env t) ms))"

definition unmarshal_any :: "'f json_env \<Rightarrow> string \<Rightarrow> 'f gval option" where
  "unmarshal_any env s = Option.bind (json_parse s) (decode_any env)"

text \<open>\<^verbatim>\<open>json.Marshal\<close> of an \<^verbatim>\<open>any\<close>: the keys of a map are sorted.\<close>

fun marshal_any :: "'f json_env \<Rightarrow> 'f gval \<Rightarrow> string" where
  "marshal_any env GNil = ''null''"
| "marshal_any env (GBool b) = (if b then ''true'' else ''false'')"
| "marshal_any env (GFloat x) = je_format env x"
| "marshal_any env (GInt i) = itoa i"
| "marshal_any env (GStr s) = json_quote s"
| "marshal_any env (GArr vs) = ''['' @ str_join (map (marshal_any env) vs) '','' @ '']''"
| "marshal_any env (GMap m) =
    ''{'' @ str_join (map (\<lambda>(k, v). json_quote k @ '':'' @ v)
      (sort_key fst (map (\<lambda>(k, v). (k, marshal_any env v)) m))) '','' @ ''}''"

section \<open>Struct fields and raw messages\<close>

text \<open>
  \<^verbatim>\<open>foldName\<close>: the letters of both cases, the long s and the Kelvin sign fold together; no
  other rune folds to an ASCII one.
\<close>

definition fold_rune :: "nat \<Rightarrow> nat" where
  "fold_rune r = (if 97 \<le> r \<and> r \<le> 122 then r - 32 else if r = 0x17F then 83 else if r = 0x212A then 75 else r)"

definition field_match :: "string \<Rightarrow> string \<Rightarrow> bool" where
  "field_match field key \<longleftrightarrow> map fold_rune (runes_of key) = map fold_rune (runes_of field)"

text \<open>\<^verbatim>\<open>compact\<close> with the HTML characters escaped: blanks go, inside a string they stay.\<close>

fun json_compact :: "bool \<Rightarrow> string \<Rightarrow> string" where
  "json_compact inside [] = []"
| "json_compact inside (c # cs) =
    (if \<not> inside then
       (if json_ws c then json_compact False cs else c # json_compact (c = CHR 0x22) cs)
     else if c = CHR 0x5C then
       (case cs of [] \<Rightarrow> [c] | e # es \<Rightarrow> c # e # json_compact True es)
     else if c = CHR ''<'' \<or> c = CHR ''>'' \<or> c = CHR ''&''
       then CHR 0x5C # ''u00'' @ [lower_hex (byte c div 16), lower_hex (byte c mod 16)] @ json_compact True cs
     else if byte c = 0xE2 \<and> has_prefix cs [char_of (0x80 :: nat), char_of (0xA8 :: nat)]
       then CHR 0x5C # ''u2028'' @ json_compact True (drop 2 cs)
     else if byte c = 0xE2 \<and> has_prefix cs [char_of (0x80 :: nat), char_of (0xA9 :: nat)]
       then CHR 0x5C # ''u2029'' @ json_compact True (drop 2 cs)
     else c # json_compact (c \<noteq> CHR 0x22) cs)"

text \<open>A map of raw messages; an entry of an absent value is written as null.\<close>

definition marshal_raw :: "string \<Rightarrow> string" where
  "marshal_raw raw = (if raw = [] then ''null'' else json_compact False raw)"

definition marshal_raw_map :: "(string, string) gomap \<Rightarrow> string" where
  "marshal_raw_map m =
    ''{'' @ str_join (map (\<lambda>(k, raw). json_quote k @ '':'' @ marshal_raw raw) (sort_key fst m)) '','' @ ''}''"

text \<open>
  \<^verbatim>\<open>json.Unmarshal\<close> into a map of raw messages: the outer \<^const>\<open>None\<close> is the error, the inner
  one the nil map that null leaves.
\<close>

definition raw_map :: "jtree \<Rightarrow> (string, string) gomap option option" where
  "raw_map t =
    (case t of
       JObject _ ms \<Rightarrow> Some (Some (foldl (\<lambda>m (k, v). map_set m k (raw_of v)) [] ms))
     | JLit raw \<Rightarrow> if raw = ''null'' then Some None else None
     | _ \<Rightarrow> None)"

text \<open>\<^verbatim>\<open>json.Unmarshal\<close> into a string that holds nothing yet.\<close>

definition unmarshal_string :: "jtree \<Rightarrow> string option" where
  "unmarshal_string t =
    (case t of JText _ s \<Rightarrow> Some s | JLit raw \<Rightarrow> if raw = ''null'' then Some [] else None | _ \<Rightarrow> None)"

text \<open>A struct as its fields in order, a list of encoded values.\<close>

definition marshal_fields :: "(string \<times> string) list \<Rightarrow> string" where
  "marshal_fields fs = ''{'' @ str_join (map (\<lambda>(k, v). json_quote k @ '':'' @ v) fs) '','' @ ''}''"

definition marshal_list :: "string list \<Rightarrow> string" where
  "marshal_list xs = ''['' @ str_join xs '','' @ '']''"

definition marshal_bool :: "bool \<Rightarrow> string" where
  "marshal_bool b = (if b then ''true'' else ''false'')"

text \<open>The map of a header, its keys sorted.\<close>

definition marshal_header :: "header \<Rightarrow> string" where
  "marshal_header h = marshal_fields (map (\<lambda>(k, vs). (k, marshal_list (map json_quote vs))) (sort_key fst h))"

text \<open>\<^verbatim>\<open>Decoder.Decode\<close>: the first value of a stream, whatever follows it.\<close>

definition json_first :: "string \<Rightarrow> jtree option" where
  "json_first s = map_option fst (json_value (2 * length s + 2) 0 (skip_ws s))"

section \<open>Evaluation\<close>

text \<open>
  The same functions with every choice made by a pattern of its own, so that a rewriter that
  works from the inside out does not unfold the recursion under a binder.
\<close>

fun with_rest :: "('a \<Rightarrow> 'b) \<Rightarrow> ('a \<times> string) option \<Rightarrow> ('b \<times> string) option" where
  "with_rest f None = None"
| "with_rest f (Some (x, r)) = Some (f x, r)"

fun with_raw :: "(string \<Rightarrow> 'a \<Rightarrow> jtree) \<Rightarrow> string \<Rightarrow> ('a \<times> string) option \<Rightarrow> (jtree \<times> string) option" where
  "with_raw f s None = None"
| "with_raw f s (Some (x, r)) = Some (f (consumed s r) x, r)"

fun scan_escape :: "string \<Rightarrow> (string \<times> string) option" where
  "scan_escape [] = None"
| "scan_escape (e # es) =
    (if e \<in> set ''bfnrt/'' \<or> e = CHR 0x5C \<or> e = CHR 0x22
     then with_rest (\<lambda>b. CHR 0x5C # e # b) (scan_string es)
     else if e = CHR ''u'' \<and> 4 \<le> length es \<and> list_all (\<lambda>d. hex_digit d \<noteq> None) (take 4 es)
     then with_rest (\<lambda>b. CHR 0x5C # e # take 4 es @ b) (scan_string (drop 4 es))
     else None)"

lemma map_option_rest: "map_option (\<lambda>(b, r). (f b, r)) x = with_rest f x"
  by (cases x) auto

lemma map_option_raw: "map_option (\<lambda>(b, r). (f (consumed s r) b, r)) x = with_raw f s x"
  by (cases x) auto

lemma scan_string_code [code]:
  "scan_string [] = None"
  "scan_string (c # cs) =
    (if c = CHR 0x22 then Some ([], cs)
     else if c = CHR 0x5C then scan_escape cs
     else if byte c < 32 then None
     else with_rest ((#) c) (scan_string cs))"
  by (simp_all add: map_option_rest split: list.splits)

fun elements_next :: "nat \<Rightarrow> nat \<Rightarrow> jtree \<Rightarrow> string \<Rightarrow> (jtree list \<times> string) option" where
  "elements_next n d t [] = None"
| "elements_next n d t (c # cs) =
    (if c = CHR '']'' then Some ([t], cs)
     else if c = CHR '','' then with_rest ((#) t) (json_elements n d False (skip_ws cs))
     else None)"

fun elements_after :: "nat \<Rightarrow> nat \<Rightarrow> (jtree \<times> string) option \<Rightarrow> (jtree list \<times> string) option" where
  "elements_after n d None = None"
| "elements_after n d (Some (t, r)) = elements_next n d t (skip_ws r)"

fun members_next :: "nat \<Rightarrow> nat \<Rightarrow> string \<times> jtree \<Rightarrow> string \<Rightarrow> ((string \<times> jtree) list \<times> string) option" where
  "members_next n d m [] = None"
| "members_next n d m (c # cs) =
    (if c = CHR ''}'' then Some ([m], cs)
     else if c = CHR '','' then with_rest ((#) m) (json_members n d False (skip_ws cs))
     else None)"

fun members_after :: "nat \<Rightarrow> nat \<Rightarrow> string \<Rightarrow> (jtree \<times> string) option \<Rightarrow> ((string \<times> jtree) list \<times> string) option" where
  "members_after n d k None = None"
| "members_after n d k (Some (t, r)) = members_next n d (k, t) (skip_ws r)"

fun members_colon :: "nat \<Rightarrow> nat \<Rightarrow> string \<Rightarrow> string \<Rightarrow> ((string \<times> jtree) list \<times> string) option" where
  "members_colon n d k [] = None"
| "members_colon n d k (c # cs) =
    (if c \<noteq> CHR '':'' then None else members_after n d k (json_value n d (skip_ws cs)))"

fun members_key :: "nat \<Rightarrow> nat \<Rightarrow> (string \<times> string) option \<Rightarrow> ((string \<times> jtree) list \<times> string) option" where
  "members_key n d None = None"
| "members_key n d (Some (k, r)) = members_colon n d (json_unquote k) (skip_ws r)"

lemma json_value_code [code]:
  "json_value n d [] = None"
  "json_value n d (c # cs) =
    (if n = 0 then None
     else if c = CHR 0x22 then with_rest (\<lambda>b. JText (c # b @ [CHR 0x22]) (json_unquote b)) (scan_string cs)
     else if c = CHR ''['' then
       (if max_nesting \<le> d then None
        else with_raw JArray (c # cs) (json_elements (n - 1) (Suc d) True (skip_ws cs)))
     else if c = CHR ''{'' then
       (if max_nesting \<le> d then None
        else with_raw JObject (c # cs) (json_members (n - 1) (Suc d) True (skip_ws cs)))
     else json_literal (c # cs))"
  by (cases n; simp add: map_option_rest map_option_raw)+

lemma json_elements_code [code]:
  "json_elements n d first s =
    (if n = 0 then None
     else if first \<and> has_prefix s '']'' then Some ([], tl s)
     else elements_after (n - 1) d (json_value (n - 1) d s))"
  by (cases n) (auto simp: map_option_rest split: option.splits list.splits)

lemma json_members_code [code]:
  "json_members n d first [] = None"
  "json_members n d first (q # qs) =
    (if n = 0 then None
     else if first \<and> q = CHR ''}'' then Some ([], qs)
     else if q \<noteq> CHR 0x22 then None
     else members_key (n - 1) d (scan_string qs))"
  by (cases n; auto simp: map_option_rest split: option.splits list.splits)+

section \<open>Enough calls\<close>

lemma skip_ws_length: "length (skip_ws s) \<le> length s"
  by (simp add: skip_ws_def length_dropWhile_le)

lemma with_rest_Some [simp]: "with_rest f x = Some (y, r) \<longleftrightarrow> (\<exists>z. x = Some (z, r) \<and> y = f z)"
  by (cases x) auto

lemma with_raw_Some [simp]: "with_raw f s x = Some (y, r) \<longleftrightarrow> (\<exists>z. x = Some (z, r) \<and> y = f (consumed s r) z)"
  by (cases x) auto

lemma scan_string_shorter: "scan_string s = Some (b, r) \<Longrightarrow> length r < length s"
proof (induction "length s" arbitrary: s b r rule: less_induct)
  case less
  show ?case
  proof (cases s)
    case (Cons c cs)
    have esc: "length r < length cs" if "scan_escape cs = Some (b', r)" for b'
    proof (cases cs)
      case (Cons e es)
      have *: "length r < length (drop k es)" if "scan_string (drop k es) = Some (z, r)" for k z
        using less.hyps [OF _ that] \<open>s = c # cs\<close> Cons by simp
      from \<open>scan_escape cs = Some (b', r)\<close> Cons show ?thesis
        using * [of 0] * [of 4] by (auto split: if_splits)
    qed (use that in simp)
    from less.prems Cons esc less.hyps [of cs] show ?thesis
      by (fastforce simp: scan_string_code simp del: scan_string.simps split: if_splits)
  qed (use less in simp)
qed

lemma scan_digits_le: "scan_digits s = (d, r) \<Longrightarrow> length r \<le> length s"
  by (auto simp: scan_digits_def length_dropWhile_le)

lemma scan_integer_shorter: "scan_integer s = Some (i, r) \<Longrightarrow> length r < length s"
  by (auto simp: scan_integer_def dest: scan_digits_le split: list.splits if_splits prod.splits)

lemma scan_fraction_le: "scan_fraction s = Some (i, r) \<Longrightarrow> length r \<le> length s"
  by (auto simp: scan_fraction_def dest: scan_digits_le split: list.splits if_splits prod.splits)

lemma scan_exponent_le: "scan_exponent s = Some (i, r) \<Longrightarrow> length r \<le> length s"
  by (auto simp: scan_exponent_def Let_def dest!: scan_digits_le split: list.splits if_splits prod.splits)

lemma scan_number_shorter: "scan_number s = Some (i, r) \<Longrightarrow> length r < length s"
  by (auto simp: scan_number_def Let_def dest!: scan_integer_shorter scan_fraction_le scan_exponent_le
      split: list.splits if_splits option.splits)

lemma json_literal_shorter: "json_literal s = Some (t, r) \<Longrightarrow> length r < length s"
  by (auto simp: json_literal_def has_prefix_def prefix_def dest!: scan_number_shorter split: if_splits)

lemma elements_after_Some:
  "elements_after n d x = Some (ts, r) \<Longrightarrow> \<exists>t r0 c cs. x = Some (t, r0) \<and> skip_ws r0 = c # cs \<and>
    (r = cs \<or> (\<exists>ts'. json_elements n d False (skip_ws cs) = Some (ts', r)))"
  by (cases x; cases "skip_ws (snd (the x))") (auto split: if_splits)

lemma members_after_Some:
  "members_after n d k x = Some (ts, r) \<Longrightarrow> \<exists>t r0 c cs. x = Some (t, r0) \<and> skip_ws r0 = c # cs \<and>
    (r = cs \<or> (\<exists>ts'. json_members n d False (skip_ws cs) = Some (ts', r)))"
  by (cases x; cases "skip_ws (snd (the x))") (auto split: if_splits)

lemma members_key_Some:
  "members_key n d x = Some (ts, r) \<Longrightarrow> \<exists>k r0 c cs. x = Some (k, r0) \<and> skip_ws r0 = c # cs \<and>
    members_after n d (json_unquote k) (json_value n d (skip_ws cs)) = Some (ts, r)"
  by (cases x; cases "skip_ws (snd (the x))") (auto split: if_splits)

lemma skip_ws_Cons: "skip_ws a = c # cs \<Longrightarrow> length (skip_ws cs) < length a \<and> length cs < length a"
  using skip_ws_length [of a] skip_ws_length [of cs] by simp

lemma elements_after_shorter:
  assumes "\<And>f s ts r. json_elements n d f s = Some (ts, r) \<Longrightarrow> length r < length s"
    and "elements_after n d x = Some (ts, r)" "\<And>t r0. x = Some (t, r0) \<Longrightarrow> length r0 < k"
  shows "length r < k"
proof -
  from elements_after_Some [OF assms(2)] obtain t r0 c cs where x: "x = Some (t, r0)" "skip_ws r0 = c # cs"
    "r = cs \<or> (\<exists>ts'. json_elements n d False (skip_ws cs) = Some (ts', r))" by blast
  with assms(1) [of False "skip_ws cs"] assms(3) [OF x(1)] skip_ws_Cons [OF x(2)] show ?thesis by force
qed

lemma members_after_shorter:
  assumes "\<And>f s ts r. json_members n d f s = Some (ts, r) \<Longrightarrow> length r < length s"
    and "members_after n d q x = Some (ts, r)" "\<And>t r0. x = Some (t, r0) \<Longrightarrow> length r0 < k"
  shows "length r < k"
proof -
  from members_after_Some [OF assms(2)] obtain t r0 c cs where x: "x = Some (t, r0)" "skip_ws r0 = c # cs"
    "r = cs \<or> (\<exists>ts'. json_members n d False (skip_ws cs) = Some (ts', r))" by blast
  with assms(1) [of False "skip_ws cs"] assms(3) [OF x(1)] skip_ws_Cons [OF x(2)] show ?thesis by force
qed

lemma members_key_shorter:
  assumes m: "\<And>f s ts r. json_members n d f s = Some (ts, r) \<Longrightarrow> length r < length s"
    and v: "\<And>s t r. json_value n d s = Some (t, r) \<Longrightarrow> length r < length s"
    and "members_key n d (scan_string qs) = Some (ms, r)"
  shows "length r < length qs"
proof -
  from members_key_Some [OF assms(3)] obtain k r0 c cs where k: "scan_string qs = Some (k, r0)" "skip_ws r0 = c # cs"
    "members_after n d (json_unquote k) (json_value n d (skip_ws cs)) = Some (ms, r)" by blast
  show ?thesis
  proof (rule members_after_shorter [OF m k(3)])
    fix t r1
    assume "json_value n d (skip_ws cs) = Some (t, r1)"
    from v [OF this] skip_ws_Cons [OF k(2)] scan_string_shorter [OF k(1)] show "length r1 < length qs" by simp
  qed
qed

lemma json_shorter:
  "(\<forall>d s t r. json_value n d s = Some (t, r) \<longrightarrow> length r < length s)
   \<and> (\<forall>d f s ts r. json_elements n d f s = Some (ts, r) \<longrightarrow> length r < length s)
   \<and> (\<forall>d f s ms r. json_members n d f s = Some (ms, r) \<longrightarrow> length r < length s)"
proof (induction n)
  case (Suc n)
  from Suc have v: "\<And>d s t r. json_value n d s = Some (t, r) \<Longrightarrow> length r < length s"
    and e: "\<And>d f s ts r. json_elements n d f s = Some (ts, r) \<Longrightarrow> length r < length s"
    and m: "\<And>d f s ms r. json_members n d f s = Some (ms, r) \<Longrightarrow> length r < length s" by blast+
  have "length r < length s" if "json_value (Suc n) d s = Some (t, r)" for d s t r
  proof (cases s)
    case (Cons c cs)
    with that show ?thesis
      using e [of "Suc d" True "skip_ws cs"] m [of "Suc d" True "skip_ws cs"] skip_ws_length [of cs]
      by (fastforce simp: json_value_code simp del: json_value.simps
          dest: scan_string_shorter json_literal_shorter split: if_splits)
  qed (use that in simp)
  moreover have "length r < length s" if "json_elements (Suc n) d f s = Some (ts, r)" for d f s ts r
  proof -
    have "elements_after n d (json_value n d s) = Some (ts, r) \<Longrightarrow> length r < length s"
      by (rule elements_after_shorter) (use e v in blast)+
    with that show ?thesis
      by (auto simp: json_elements_code has_prefix_def prefix_def simp del: json_elements.simps split: if_splits)
  qed
  moreover have "length r < length s" if "json_members (Suc n) d f s = Some (ms, r)" for d f s ms r
  proof (cases s)
    case (Cons q qs)
    have "members_key n d (scan_string qs) = Some (ms, r) \<Longrightarrow> length r < length qs"
      by (rule members_key_shorter) (use m v in blast)+
    with that Cons show ?thesis
      by (auto simp: json_members_code simp del: json_members.simps split: if_splits)
  qed (use that in simp)
  ultimately show ?case by blast
qed simp

lemma elements_after_enough:
  assumes "\<And>f s. 2 * length s + 2 \<le> n \<Longrightarrow> json_elements (Suc n) d f s = json_elements n d f s"
    and "\<And>t r. x = Some (t, r) \<Longrightarrow> 2 * length r \<le> n"
  shows "elements_after (Suc n) d x = elements_after n d x"
proof (cases x)
  case (Some p)
  then obtain t r where x: "x = Some (t, r)" by (cases p) auto
  with assms(2) skip_ws_Cons [of r] assms(1) show ?thesis
    by (cases "skip_ws r") (force simp del: json_elements.simps)+
qed simp

lemma members_after_enough:
  assumes "\<And>f s. 2 * length s + 2 \<le> n \<Longrightarrow> json_members (Suc n) d f s = json_members n d f s"
    and "\<And>t r. x = Some (t, r) \<Longrightarrow> 2 * length r \<le> n"
  shows "members_after (Suc n) d k x = members_after n d k x"
proof (cases x)
  case (Some p)
  then obtain t r where x: "x = Some (t, r)" by (cases p) auto
  with assms(2) skip_ws_Cons [of r] assms(1) show ?thesis
    by (cases "skip_ws r") (force simp del: json_members.simps)+
qed simp

lemma members_key_enough:
  assumes m: "\<And>f s. 2 * length s + 2 \<le> n \<Longrightarrow> json_members (Suc n) d f s = json_members n d f s"
    and v: "\<And>s. 2 * length s + 1 \<le> n \<Longrightarrow> json_value (Suc n) d s = json_value n d s"
    and "\<And>k r. x = Some (k, r) \<Longrightarrow> 2 * length r \<le> n"
  shows "members_key (Suc n) d x = members_key n d x"
proof (cases x)
  case (Some p)
  then obtain k r where x: "x = Some (k, r)" by (cases p) auto
  show ?thesis
  proof (cases "skip_ws r")
    case (Cons c cs)
    have l: "2 * length (skip_ws cs) + 1 \<le> n" using skip_ws_Cons [OF Cons] assms(3) [OF x] by simp
    have "members_after (Suc n) d (json_unquote k) (json_value n d (skip_ws cs))
        = members_after n d (json_unquote k) (json_value n d (skip_ws cs))"
      by (rule members_after_enough [OF m]) (use json_shorter [of n] l in fastforce)+
    with v [OF l] show ?thesis by (simp add: x Cons del: json_value.simps)
  qed (simp add: x)
qed simp

text \<open>With two calls for every byte, and more, the result is always the same.\<close>

lemma json_enough:
  "(\<forall>d s. 2 * length s + 1 \<le> n \<longrightarrow> json_value (Suc n) d s = json_value n d s)
   \<and> (\<forall>d f s. 2 * length s + 2 \<le> n \<longrightarrow> json_elements (Suc n) d f s = json_elements n d f s)
   \<and> (\<forall>d f s. 2 * length s + 2 \<le> n \<longrightarrow> json_members (Suc n) d f s = json_members n d f s)"
proof (induction n)
  case (Suc n)
  from Suc have v: "\<And>d s. 2 * length s + 1 \<le> n \<Longrightarrow> json_value (Suc n) d s = json_value n d s"
    and e: "\<And>d f s. 2 * length s + 2 \<le> n \<Longrightarrow> json_elements (Suc n) d f s = json_elements n d f s"
    and m: "\<And>d f s. 2 * length s + 2 \<le> n \<Longrightarrow> json_members (Suc n) d f s = json_members n d f s" by blast+
  have "json_value (Suc (Suc n)) d s = json_value (Suc n) d s" if "2 * length s + 1 \<le> Suc n" for d s
  proof (cases s)
    case (Cons c cs)
    have "2 * length (skip_ws cs) + 2 \<le> n" using that Cons skip_ws_length [of cs] by simp
    from e [OF this] m [OF this] show ?thesis
      by (simp add: Cons json_value_code del: json_value.simps json_elements.simps json_members.simps)
  qed simp
  moreover have "json_elements (Suc (Suc n)) d f s = json_elements (Suc n) d f s" if "2 * length s + 2 \<le> Suc n" for d f s
  proof -
    have "elements_after (Suc n) d (json_value n d s) = elements_after n d (json_value n d s)"
      by (rule elements_after_enough [OF e]) (use json_shorter [of n] that in fastforce)+
    with v [of s d] that show ?thesis
      by (simp add: json_elements_code [of "Suc _"] del: json_elements.simps)
  qed
  moreover have "json_members (Suc (Suc n)) d f s = json_members (Suc n) d f s" if "2 * length s + 2 \<le> Suc n" for d f s
  proof (cases s)
    case (Cons q qs)
    have "members_key (Suc n) d (scan_string qs) = members_key n d (scan_string qs)"
      by (rule members_key_enough [OF m v]) (use that Cons in \<open>auto dest: scan_string_shorter\<close>)
    with Cons show ?thesis
      by (simp add: json_members_code del: json_members.simps)
  qed simp
  ultimately show ?case by blast
qed simp

lemma json_value_enough: "2 * length s + 1 \<le> n \<Longrightarrow> json_value n d s = json_value (2 * length s + 1) d s"
proof (induction n)
  case (Suc n)
  then show ?case using json_enough [of n] by (cases "2 * length s + 1 = Suc n") (auto simp del: json_value.simps)
qed simp

text \<open>A larger bound on the calls does not change what a text parses to.\<close>

lemma json_parse_enough:
  "2 * length s + 2 \<le> n \<Longrightarrow> json_parse s =
    (case json_value n 0 (skip_ws s) of Some (t, r) \<Rightarrow> if skip_ws r = [] then Some t else None | None \<Rightarrow> None)"
  using json_value_enough [of "skip_ws s" n 0] json_value_enough [of "skip_ws s" "2 * length s + 2" 0] skip_ws_length [of s]
  by (simp add: json_parse_def del: json_value.simps)

end
