(* ===== verification/Mcp_Policy.thy ===== *)
theory Mcp_Policy
  imports Go_Json Go_Mime Host_Match Header_Transforms
begin

text \<open>
  \<^verbatim>\<open>internal/mcp\<close>, the policy: its compilation (\<^verbatim>\<open>policy.go\<close>, \<^verbatim>\<open>argmatch.go\<close>), the JSON-RPC
  messages (\<^verbatim>\<open>jsonrpc.go\<close>) and the audit record (\<^verbatim>\<open>audit.go\<close>).
\<close>

section \<open>Argument constraints (argmatch.go)\<close>

record 'f clause_config =
  cc_path :: string
  cc_equals :: "'f gval"
  cc_in :: "'f gval list option"
  cc_matches :: string

datatype 'f clause_test = TestEquals "'f gval" | TestIn "'f gval list" | TestMatches "string \<Rightarrow> bool"

record 'f clause =
  cl_path :: "string list"
  cl_test :: "'f clause_test"

datatype mcp_error =
    ServerNoName nat | DuplicateServer nat string | ServerNoRules string | ServerRules string rule_error
  | ToolNoName string nat | DuplicateTool string string
  | ClauseNoPath string string nat | ClauseNotOne string string nat | ClauseBadRegex string string nat

definition normalize_json_scalar :: "'f json_env \<Rightarrow> 'f gval \<Rightarrow> 'f gval" where
  "normalize_json_scalar env v = (case v of GInt i \<Rightarrow> GFloat (je_of_int env i) | _ \<Rightarrow> v)"

text \<open>The comparison of two interfaces panics on two maps and on two slices.\<close>

definition json_scalar_equals :: "'f json_env \<Rightarrow> 'f gval \<Rightarrow> 'f gval \<Rightarrow> bool option" where
  "json_scalar_equals env a b =
    (case (normalize_json_scalar env a, normalize_json_scalar env b) of
       (GNil, GNil) \<Rightarrow> Some True
     | (GBool x, GBool y) \<Rightarrow> Some (x = y)
     | (GFloat x, GFloat y) \<Rightarrow> Some (je_eq env x y)
     | (GStr x, GStr y) \<Rightarrow> Some (x = y)
     | (GArr _, GArr _) \<Rightarrow> None
     | (GMap _, GMap _) \<Rightarrow> None
     | _ \<Rightarrow> Some False)"

definition split_path :: "string \<Rightarrow> string list" where
  "split_path p = (if p = [] then [] else split_char CHR ''.'' p)"

definition compile_clause ::
    "'f json_env \<Rightarrow> regexp_compile \<Rightarrow> string \<Rightarrow> string \<Rightarrow> nat \<Rightarrow> 'f clause_config \<Rightarrow> mcp_error + 'f clause" where
  "compile_clause env compile server tool i cc =
    (let path = split_path (cc_path cc);
         set_count = (if cc_equals cc \<noteq> GNil then 1 else 0) + (if cc_in cc \<noteq> None then 1 else 0)
           + (if cc_matches cc \<noteq> [] then 1 else (0 :: nat))
     in if cc_path cc = [] then Inl (ClauseNoPath server tool i)
        else if set_count \<noteq> 1 then Inl (ClauseNotOne server tool i)
        else if cc_equals cc \<noteq> GNil
          then Inr \<lparr>cl_path = path, cl_test = TestEquals (normalize_json_scalar env (cc_equals cc))\<rparr>
        else
          (case cc_in cc of
             Some vs \<Rightarrow> Inr \<lparr>cl_path = path, cl_test = TestIn (map (normalize_json_scalar env) vs)\<rparr>
           | None \<Rightarrow>
             (case compile (cc_matches cc) of
                None \<Rightarrow> Inl (ClauseBadRegex server tool i)
              | Some re \<Rightarrow> Inr \<lparr>cl_path = path, cl_test = TestMatches re\<rparr>)))"

fun compile_clauses ::
    "'f json_env \<Rightarrow> regexp_compile \<Rightarrow> string \<Rightarrow> string \<Rightarrow> nat \<Rightarrow> 'f clause_config list \<Rightarrow> mcp_error + 'f clause list" where
  "compile_clauses env compile server tool i [] = Inr []"
| "compile_clauses env compile server tool i (cc # ccs) =
    (case compile_clause env compile server tool i cc of
       Inl e \<Rightarrow> Inl e
     | Inr c \<Rightarrow>
       (case compile_clauses env compile server tool (Suc i) ccs of Inl e \<Rightarrow> Inl e | Inr cs \<Rightarrow> Inr (c # cs)))"

fun resolve_path :: "'f gval \<Rightarrow> string list \<Rightarrow> 'f gval option" where
  "resolve_path cur [] = Some cur"
| "resolve_path cur (seg # segs) =
    (case cur of
       GMap m \<Rightarrow> (case map_get m seg of Some v \<Rightarrow> resolve_path v segs | None \<Rightarrow> None)
     | GArr vs \<Rightarrow>
       (case atoi seg of
          Some idx \<Rightarrow> if idx < 0 \<or> int (length vs) \<le> idx then None else resolve_path (vs ! nat idx) segs
        | None \<Rightarrow> None)
     | _ \<Rightarrow> None)"

fun any_equals :: "'f json_env \<Rightarrow> 'f gval \<Rightarrow> 'f gval list \<Rightarrow> bool option" where
  "any_equals env v [] = Some False"
| "any_equals env v (w # ws) =
    (case json_scalar_equals env v w of
       None \<Rightarrow> None
     | Some True \<Rightarrow> Some True
     | Some False \<Rightarrow> any_equals env v ws)"

text \<open>\<^const>\<open>None\<close> is the panic of a comparison.\<close>

definition clause_evaluate :: "'f json_env \<Rightarrow> 'f clause \<Rightarrow> 'f gval \<Rightarrow> bool option" where
  "clause_evaluate env c params =
    (case resolve_path params (cl_path c) of
       None \<Rightarrow> Some False
     | Some v \<Rightarrow>
       (case cl_test c of
          TestEquals w \<Rightarrow> json_scalar_equals env v w
        | TestIn ws \<Rightarrow> any_equals env v ws
        | TestMatches re \<Rightarrow> Some (case v of GStr s \<Rightarrow> re s | _ \<Rightarrow> False)))"

section \<open>The policy (policy.go)\<close>

record 'f tool_config =
  tlc_name :: string
  tlc_when :: "'f clause_config list"

record 'f server_config =
  svc_name :: string
  svc_rules :: "rule_config list"
  svc_tools :: "'f tool_config list"

record 'f mcp_config =
  mc_code :: "int option"
  mc_message :: "string option"
  mc_servers :: "'f server_config list"

record 'f server =
  sv_name :: string
  sv_rules :: "rule list"
  sv_tools :: "(string, 'f clause list) gomap"
  sv_allowed :: "string list"

record 'f mcp_policy =
  po_code :: int
  po_message :: string
  po_servers :: "'f server list"

definition default_error_code :: int where
  "default_error_code = -32001"

definition default_error_message :: string where
  "default_error_message = ''blocked by iron-proxy policy''"

text \<open>The tools of a server and the set of their names, filled side by side.\<close>

fun compile_tools ::
    "'f json_env \<Rightarrow> regexp_compile \<Rightarrow> string \<Rightarrow> nat \<Rightarrow> 'f tool_config list \<Rightarrow>
      (string, 'f clause list) gomap \<Rightarrow> string list \<Rightarrow> mcp_error + (string, 'f clause list) gomap \<times> string list" where
  "compile_tools env compile server j [] m names = Inr (m, names)"
| "compile_tools env compile server j (tc # tcs) m names =
    (if tlc_name tc = [] then Inl (ToolNoName server j)
     else if map_get m (tlc_name tc) \<noteq> None then Inl (DuplicateTool server (tlc_name tc))
     else
       (case compile_clauses env compile server (tlc_name tc) 0 (tlc_when tc) of
          Inl e \<Rightarrow> Inl e
        | Inr cs \<Rightarrow>
          compile_tools env compile server (Suc j) tcs (map_set m (tlc_name tc) cs)
            (if tlc_name tc \<in> set names then names else names @ [tlc_name tc])))"

fun compile_servers ::
    "'f json_env \<Rightarrow> regexp_compile \<Rightarrow> nat \<Rightarrow> string list \<Rightarrow> 'f server_config list \<Rightarrow> mcp_error + 'f server list" where
  "compile_servers env compile i seen [] = Inr []"
| "compile_servers env compile i seen (sc # scs) =
    (if svc_name sc = [] then Inl (ServerNoName i)
     else if svc_name sc \<in> set seen then Inl (DuplicateServer i (svc_name sc))
     else if svc_rules sc = [] then Inl (ServerNoRules (svc_name sc))
     else
       (case compile_rules (svc_rules sc) of
          Inl e \<Rightarrow> Inl (ServerRules (svc_name sc) e)
        | Inr rules \<Rightarrow>
          (case compile_tools env compile (svc_name sc) 0 (svc_tools sc) [] [] of
             Inl e \<Rightarrow> Inl e
           | Inr (tools, names) \<Rightarrow>
             (case compile_servers env compile (Suc i) (svc_name sc # seen) scs of
                Inl e \<Rightarrow> Inl e
              | Inr svs \<Rightarrow>
                Inr (\<lparr>sv_name = svc_name sc, sv_rules = rules, sv_tools = tools, sv_allowed = names\<rparr> # svs)))))"

text \<open>No servers, no policy.\<close>

definition mcp_compile :: "'f json_env \<Rightarrow> regexp_compile \<Rightarrow> 'f mcp_config \<Rightarrow> mcp_error + 'f mcp_policy option" where
  "mcp_compile env compile c =
    (if mc_servers c = [] then Inr None
     else
       (case compile_servers env compile 0 [] (mc_servers c) of
          Inl e \<Rightarrow> Inl e
        | Inr svs \<Rightarrow>
          Inr (Some \<lparr>po_code = (case mc_code c of Some n \<Rightarrow> n | None \<Rightarrow> default_error_code),
            po_message = (case mc_message c of Some m \<Rightarrow> m | None \<Rightarrow> default_error_message),
            po_servers = svs\<rparr>)))"

definition match_server :: "'f mcp_policy option \<Rightarrow> 'x request \<Rightarrow> 'f server option" where
  "match_server p req =
    (case p of
       None \<Rightarrow> None
     | Some po \<Rightarrow>
       (let host = strip_port (r_host req) in
        find (\<lambda>s. list_ex (\<lambda>r. rule_matches r host (r_method req) (u_path (r_url req))) (sv_rules s)) (po_servers po)))"

datatype reason = NoReason | ToolNotAllowed | ArgumentConstraint | OversizeBody | MalformedJSONRPC

fun clauses_hold :: "'f json_env \<Rightarrow> 'f clause list \<Rightarrow> 'f gval \<Rightarrow> bool option" where
  "clauses_hold env [] args = Some True"
| "clauses_hold env (c # cs) args =
    (case clause_evaluate env c args of
       None \<Rightarrow> None
     | Some b \<Rightarrow> if b then clauses_hold env cs args else Some False)"

definition evaluate_tool :: "'f json_env \<Rightarrow> 'f server \<Rightarrow> string \<Rightarrow> 'f gval \<Rightarrow> (bool \<times> reason) option" where
  "evaluate_tool env s name args =
    (case map_get (sv_tools s) name of
       None \<Rightarrow> Some (False, ToolNotAllowed)
     | Some clauses \<Rightarrow>
       map_option (\<lambda>b. if b then (True, NoReason) else (False, ArgumentConstraint)) (clauses_hold env clauses args))"

section \<open>Messages (jsonrpc.go)\<close>

record rpc_error =
  rpe_code :: int
  rpe_message :: string
  rpe_data :: string

text \<open>A raw message without bytes is absent.\<close>

record rpc_message =
  rm_jsonrpc :: string
  rm_id :: string
  rm_method :: string
  rm_params :: string
  rm_result :: string
  rm_error :: "rpc_error option"

definition empty_message :: rpc_message where
  "empty_message = \<lparr>rm_jsonrpc = [], rm_id = [], rm_method = [], rm_params = [], rm_result = [], rm_error = None\<rparr>"

text \<open>
  The decoding into a field: a value of another type is an error that does not stop the
  decoding, null leaves a string or a number alone.
\<close>

definition into_string :: "jtree \<Rightarrow> string \<Rightarrow> string \<times> bool" where
  "into_string t old =
    (case t of JText _ s \<Rightarrow> (s, True) | JLit raw \<Rightarrow> (old, raw = ''null'') | _ \<Rightarrow> (old, False))"

definition into_int :: "jtree \<Rightarrow> int \<Rightarrow> int \<times> bool" where
  "into_int t old =
    (case t of
       JLit raw \<Rightarrow>
         if raw = ''null'' then (old, True) else (case atoi raw of Some i \<Rightarrow> (i, True) | None \<Rightarrow> (old, False))
     | _ \<Rightarrow> (old, False))"

definition error_field :: "rpc_error \<times> bool \<Rightarrow> string \<times> jtree \<Rightarrow> rpc_error \<times> bool" where
  "error_field st member =
    (let (e, ok) = st; (key, t) = member in
     if field_match ''code'' key then (let (v, b) = into_int t (rpe_code e) in (e\<lparr>rpe_code := v\<rparr>, ok \<and> b))
     else if field_match ''message'' key then (let (v, b) = into_string t (rpe_message e) in (e\<lparr>rpe_message := v\<rparr>, ok \<and> b))
     else if field_match ''data'' key then (e\<lparr>rpe_data := raw_of t\<rparr>, ok)
     else (e, ok))"

definition into_error :: "jtree \<Rightarrow> rpc_error option \<Rightarrow> rpc_error option \<times> bool" where
  "into_error t old =
    (case t of
       JObject _ ms \<Rightarrow>
         (let (e, ok) = foldl error_field (case old of Some e \<Rightarrow> e | None \<Rightarrow> \<lparr>rpe_code = 0, rpe_message = [], rpe_data = []\<rparr>, True) ms
          in (Some e, ok))
     | JLit raw \<Rightarrow> if raw = ''null'' then (None, True) else (old, False)
     | _ \<Rightarrow> (old, False))"

definition message_field :: "rpc_message \<times> bool \<Rightarrow> string \<times> jtree \<Rightarrow> rpc_message \<times> bool" where
  "message_field st member =
    (let (m, ok) = st; (key, t) = member in
     if field_match ''jsonrpc'' key then (let (v, b) = into_string t (rm_jsonrpc m) in (m\<lparr>rm_jsonrpc := v\<rparr>, ok \<and> b))
     else if field_match ''id'' key then (m\<lparr>rm_id := raw_of t\<rparr>, ok)
     else if field_match ''method'' key then (let (v, b) = into_string t (rm_method m) in (m\<lparr>rm_method := v\<rparr>, ok \<and> b))
     else if field_match ''params'' key then (m\<lparr>rm_params := raw_of t\<rparr>, ok)
     else if field_match ''result'' key then (m\<lparr>rm_result := raw_of t\<rparr>, ok)
     else if field_match ''error'' key then (let (v, b) = into_error t (rm_error m) in (m\<lparr>rm_error := v\<rparr>, ok \<and> b))
     else (m, ok))"

definition decode_message :: "jtree \<Rightarrow> rpc_message option" where
  "decode_message t =
    (case t of
       JObject _ ms \<Rightarrow> (let (m, ok) = foldl message_field (empty_message, True) ms in if ok then Some m else None)
     | JLit raw \<Rightarrow> if raw = ''null'' then Some empty_message else None
     | _ \<Rightarrow> None)"

definition decode_batch :: "jtree \<Rightarrow> rpc_message list option" where
  "decode_batch t = (case t of JArray _ ts \<Rightarrow> all_some (map decode_message ts) | _ \<Rightarrow> None)"

text \<open>The messages and whether the text is a batch; \<^const>\<open>None\<close> is the error.\<close>

definition decode_jsonrpc :: "bytes \<Rightarrow> rpc_message list option \<times> bool" where
  "decode_jsonrpc body =
    (let trimmed = bytes_trim_space body in
     if trimmed = [] then (None, False)
     else if hd trimmed = CHR ''['' then
       (case Option.bind (json_parse trimmed) decode_batch of
          None \<Rightarrow> (None, True)
        | Some batch \<Rightarrow> (if batch = [] then None else Some batch, True))
     else (map_option (\<lambda>m. [m]) (Option.bind (json_parse trimmed) decode_message), False))"

definition marshal_error :: "rpc_error \<Rightarrow> string" where
  "marshal_error e =
    marshal_fields ([(''code'', itoa (rpe_code e)), (''message'', json_quote (rpe_message e))]
      @ (if rpe_data e = [] then [] else [(''data'', marshal_raw (rpe_data e))]))"

definition marshal_message :: "rpc_message \<Rightarrow> string" where
  "marshal_message m =
    marshal_fields
      ((if rm_jsonrpc m = [] then [] else [(''jsonrpc'', json_quote (rm_jsonrpc m))])
       @ (if rm_id m = [] then [] else [(''id'', marshal_raw (rm_id m))])
       @ (if rm_method m = [] then [] else [(''method'', json_quote (rm_method m))])
       @ (if rm_params m = [] then [] else [(''params'', marshal_raw (rm_params m))])
       @ (if rm_result m = [] then [] else [(''result'', marshal_raw (rm_result m))])
       @ (case rm_error m of None \<Rightarrow> [] | Some e \<Rightarrow> [(''error'', marshal_error e)]))"

definition error_message :: "string \<Rightarrow> int \<Rightarrow> string \<Rightarrow> rpc_message" where
  "error_message i code message =
    empty_message\<lparr>rm_jsonrpc := ''2.0'', rm_id := (if i = [] then ''null'' else i),
      rm_error := Some \<lparr>rpe_code = code, rpe_message = message, rpe_data = []\<rparr>\<rparr>"

definition error_response_body :: "string \<Rightarrow> int \<Rightarrow> string \<Rightarrow> bytes" where
  "error_response_body i code message = marshal_message (error_message i code message)"

definition batch_error_response_body :: "string list \<Rightarrow> int \<Rightarrow> string \<Rightarrow> bytes" where
  "batch_error_response_body ids code message =
    marshal_list (map (\<lambda>i. marshal_message (error_message i code message)) ids)"

text \<open>The name and the raw arguments of a call.\<close>

definition call_field :: "(string \<times> string) \<times> bool \<Rightarrow> string \<times> jtree \<Rightarrow> (string \<times> string) \<times> bool" where
  "call_field st member =
    (let ((name, raw), ok) = st; (key, t) = member in
     if field_match ''name'' key then (let (v, b) = into_string t name in ((v, raw), ok \<and> b))
     else if field_match ''arguments'' key then ((name, raw_of t), ok)
     else st)"

definition decode_call :: "jtree \<Rightarrow> (string \<times> string) option" where
  "decode_call t =
    (case t of
       JObject _ ms \<Rightarrow> (let (p, ok) = foldl call_field (([], []), True) ms in if ok then Some p else None)
     | JLit raw \<Rightarrow> if raw = ''null'' then Some ([], []) else None
     | _ \<Rightarrow> None)"

definition extract_tool_call_name :: "'f json_env \<Rightarrow> string \<Rightarrow> (string \<times> 'f gval \<times> string) option" where
  "extract_tool_call_name env params =
    (if params = [] then None
     else
       (case Option.bind (json_parse params) decode_call of
          None \<Rightarrow> None
        | Some (name, raw) \<Rightarrow>
          if name = [] then None
          else if raw = [] then Some (name, GNil, [])
          else Some (name, case unmarshal_any env raw of Some args \<Rightarrow> args | None \<Rightarrow> GNil, raw)))"

text \<open>Whether an entry of a tools list stays: one without a readable name does.\<close>

definition tool_kept :: "string list \<Rightarrow> (string, string) gomap option \<Rightarrow> bool" where
  "tool_kept allowed t =
    (case t of
       None \<Rightarrow> True
     | Some m \<Rightarrow>
       (case map_get m ''name'' of
          None \<Rightarrow> True
        | Some raw \<Rightarrow>
          (case Option.bind (json_parse raw) unmarshal_string of None \<Rightarrow> True | Some name \<Rightarrow> name \<in> set allowed)))"

definition decode_tools :: "jtree \<Rightarrow> (string, string) gomap option list option" where
  "decode_tools t =
    (case t of
       JArray _ ts \<Rightarrow> all_some (map raw_map ts)
     | JLit raw \<Rightarrow> if raw = ''null'' then Some [] else None
     | _ \<Rightarrow> None)"

definition marshal_tool :: "(string, string) gomap option \<Rightarrow> string" where
  "marshal_tool t = (case t of None \<Rightarrow> ''null'' | Some m \<Rightarrow> marshal_raw_map m)"

definition filter_tools_list_result :: "string \<Rightarrow> string list \<Rightarrow> string \<times> nat" where
  "filter_tools_list_result result allowed =
    (if result = [] then (result, 0)
     else
       (case Option.bind (json_parse result) raw_map of
          Some (Some decoded) \<Rightarrow>
            (case map_get decoded ''tools'' of
               None \<Rightarrow> (result, 0)
             | Some rawTools \<Rightarrow>
               (case Option.bind (json_parse rawTools) decode_tools of
                  None \<Rightarrow> (result, 0)
                | Some tools \<Rightarrow>
                  (let kept = filter (tool_kept allowed) tools; removed = length tools - length kept in
                   if removed = 0 then (result, 0)
                   else (marshal_raw_map (map_set decoded ''tools'' (marshal_list (map marshal_tool kept))), removed))))
        | _ \<Rightarrow> (result, 0)))"

section \<open>The audit record (audit.go)\<close>

datatype direction = DirectionRequest | DirectionResponse
datatype decision = DecisionAllow | DecisionDeny | DecisionFiltered

record 'f mcp_message =
  ms_direction :: direction
  ms_method :: string
  ms_tool :: string
  ms_decision :: decision
  ms_reason :: reason
  ms_arguments :: "'f gval"
  ms_raw_arguments :: string
  ms_filtered :: nat

record 'f mcp_trace =
  mt_server :: string
  mt_messages :: "'f mcp_message list"
  mt_gateway :: "(string, 'f gval) gomap"
  mt_list_ids :: "string list"

definition audit_arguments_max_len :: nat where
  "audit_arguments_max_len = 64"

text \<open>The position a cut moves back to, off the middle of a character.\<close>

fun cut_back :: "bytes \<Rightarrow> nat \<Rightarrow> nat" where
  "cut_back raw 0 = 0"
| "cut_back raw (Suc n) = (if is_cont (raw ! Suc n) then cut_back raw n else Suc n)"

lemma cut_back_code [code]:
  "cut_back raw n = (if n = 0 then 0 else if is_cont (raw ! n) then cut_back raw (n - 1) else n)"
  by (cases n) auto

definition encode_arguments :: "'f json_env \<Rightarrow> string \<Rightarrow> 'f gval \<times> string" where
  "encode_arguments env raw =
    (if raw = [] then (GNil, [])
     else if length raw \<le> audit_arguments_max_len
     then (case unmarshal_any env raw of Some v \<Rightarrow> (v, []) | None \<Rightarrow> (GNil, raw))
     else (GNil, take (cut_back raw (audit_arguments_max_len - 3)) raw @ ''...''))"

text \<open>The methods of a nil trace do nothing.\<close>

definition trace_append :: "'f mcp_trace option \<Rightarrow> 'f mcp_message \<Rightarrow> 'f mcp_trace option" where
  "trace_append t m = map_option (\<lambda>t. t\<lparr>mt_messages := mt_messages t @ [m]\<rparr>) t"

definition trace_set_gateway :: "'f mcp_trace option \<Rightarrow> (string, 'f gval) gomap \<Rightarrow> 'f mcp_trace option" where
  "trace_set_gateway t g = map_option (\<lambda>t. t\<lparr>mt_gateway := g\<rparr>) t"

definition canonical_id_key :: "'f json_env \<Rightarrow> string \<Rightarrow> string option" where
  "canonical_id_key env raw =
    (if raw = [] then None
     else
       (case unmarshal_any env raw of
          None \<Rightarrow> Some raw
        | Some v \<Rightarrow> if v = GNil then None else Some (marshal_any env v)))"

definition record_tools_list_id :: "'f json_env \<Rightarrow> 'f mcp_trace option \<Rightarrow> string \<Rightarrow> 'f mcp_trace option" where
  "record_tools_list_id env t i =
    (case (t, canonical_id_key env i) of
       (Some tr, Some key) \<Rightarrow> Some (tr\<lparr>mt_list_ids := key # mt_list_ids tr\<rparr>)
     | _ \<Rightarrow> t)"

definition is_tools_list_response :: "'f json_env \<Rightarrow> 'f mcp_trace option \<Rightarrow> string \<Rightarrow> bool" where
  "is_tools_list_response env t i =
    (case (t, canonical_id_key env i) of
       (Some tr, Some key) \<Rightarrow> key \<in> set (mt_list_ids tr)
     | _ \<Rightarrow> False)"

definition direction_string :: "direction \<Rightarrow> string" where
  "direction_string d = (case d of DirectionRequest \<Rightarrow> ''request'' | DirectionResponse \<Rightarrow> ''response'')"

definition decision_string :: "decision \<Rightarrow> string" where
  "decision_string d =
    (case d of DecisionAllow \<Rightarrow> ''allow'' | DecisionDeny \<Rightarrow> ''deny'' | DecisionFiltered \<Rightarrow> ''filtered'')"

definition reason_string :: "reason \<Rightarrow> string" where
  "reason_string r =
    (case r of NoReason \<Rightarrow> [] | ToolNotAllowed \<Rightarrow> ''tool_not_allowed'' | ArgumentConstraint \<Rightarrow> ''argument_constraint''
     | OversizeBody \<Rightarrow> ''oversize_body'' | MalformedJSONRPC \<Rightarrow> ''malformed_jsonrpc'')"

definition flatten_message :: "'f mcp_message \<Rightarrow> (string, 'f gval) gomap" where
  "flatten_message m =
    [(''direction'', GStr (direction_string (ms_direction m))), (''decision'', GStr (decision_string (ms_decision m)))]
    @ (if ms_method m = [] then [] else [(''method'', GStr (ms_method m))])
    @ (if ms_tool m = [] then [] else [(''tool'', GStr (ms_tool m))])
    @ (if ms_reason m = NoReason then [] else [(''reason'', GStr (reason_string (ms_reason m)))])
    @ (case ms_arguments m of GNil \<Rightarrow> [] | v \<Rightarrow> [(''arguments'', v)])
    @ (if ms_raw_arguments m = [] then [] else [(''raw_arguments'', GStr (ms_raw_arguments m))])
    @ (if ms_filtered m = 0 then [] else [(''filtered'', GInt (int (ms_filtered m)))])"

definition mcp_messages :: "'f mcp_trace option \<Rightarrow> (string, 'f gval) gomap list" where
  "mcp_messages t = (case t of None \<Rightarrow> [] | Some tr \<Rightarrow> map flatten_message (mt_messages tr))"

end
