(* ===== verification/Mcp_Filter.thy ===== *)
theory Mcp_Filter
  imports Mcp_Policy Buffered_Body
begin

text \<open>
  \<^verbatim>\<open>internal/mcp\<close>, the interceptor: the decision about a request and the filter of a response
  (\<^verbatim>\<open>intercept.go\<close>), and the server-sent events it filters (\<^verbatim>\<open>sse.go\<close>).
\<close>

section \<open>Requests (intercept.go)\<close>

definition media_type_is :: "string \<Rightarrow> string \<Rightarrow> bool" where
  "media_type_is ct want = (if ct = [] then False else parse_media_type ct = Some want)"

definition media_type_json :: string where
  "media_type_json = ''application/json''"

definition media_type_sse :: string where
  "media_type_sse = ''text/event-stream''"

definition json_rpc_response :: "bytes \<Rightarrow> response" where
  "json_rpc_response body =
    \<lparr>p_status = 200,
     p_header = [(''Content-Type'', [media_type_json]), (''Content-Length'', [itoa (int (length body))])],
     p_body = PlainBody body, p_content_length = int (length body), p_trailer = []\<rparr>"

definition policy_error_response :: "'f mcp_policy \<Rightarrow> string list \<Rightarrow> bool \<Rightarrow> response" where
  "policy_error_response p ids isBatch =
    json_rpc_response
      (if isBatch then batch_error_response_body (if ids = [] then [[]] else ids) (po_code p) (po_message p)
       else error_response_body (case ids of [] \<Rightarrow> [] | i # _ \<Rightarrow> i) (po_code p) (po_message p))"

datatype mcp_outcome = McpPass | McpReject response | McpError | McpPanic

definition request_entry :: "string \<Rightarrow> 'f mcp_message" where
  "request_entry meth =
    \<lparr>ms_direction = DirectionRequest, ms_method = meth, ms_tool = [], ms_decision = DecisionAllow,
     ms_reason = NoReason, ms_arguments = GNil, ms_raw_arguments = [], ms_filtered = 0\<rparr>"

definition denied_entry :: "reason \<Rightarrow> 'f mcp_message" where
  "denied_entry r = (request_entry [])\<lparr>ms_decision := DecisionDeny, ms_reason := r\<rparr>"

definition method_tools_call :: string where
  "method_tools_call = ''tools/call''"

definition method_tools_list :: string where
  "method_tools_list = ''tools/list''"

text \<open>The entry of a call and whether it is denied; \<^const>\<open>None\<close> is a panic.\<close>

definition call_entry :: "'f json_env \<Rightarrow> 'f server \<Rightarrow> rpc_message \<Rightarrow> ('f mcp_message \<times> bool) option" where
  "call_entry env server m =
    (case extract_tool_call_name env (rm_params m) of
       None \<Rightarrow> Some ((request_entry (rm_method m))\<lparr>ms_decision := DecisionDeny, ms_reason := MalformedJSONRPC\<rparr>, True)
     | Some (name, args, raw) \<Rightarrow>
       (let (decoded, rawStr) = encode_arguments env raw;
            entry = (request_entry (rm_method m))\<lparr>ms_tool := name, ms_arguments := decoded, ms_raw_arguments := rawStr\<rparr>
        in case evaluate_tool env server name args of
             None \<Rightarrow> None
           | Some (True, _) \<Rightarrow> Some (entry, False)
           | Some (False, why) \<Rightarrow> Some (entry\<lparr>ms_decision := DecisionDeny, ms_reason := why\<rparr>, True)))"

text \<open>The loop over the messages: the trace, and whether one was denied, \<^const>\<open>None\<close> after a panic.\<close>

fun evaluate_messages ::
    "'f json_env \<Rightarrow> 'f server \<Rightarrow> rpc_message list \<Rightarrow> 'f mcp_trace option \<Rightarrow> bool \<Rightarrow> 'f mcp_trace option \<times> bool option" where
  "evaluate_messages env server [] tr deny = (tr, Some deny)"
| "evaluate_messages env server (m # ms) tr deny =
    (if rm_method m = method_tools_call then
       (case call_entry env server m of
          None \<Rightarrow> (tr, None)
        | Some (entry, denied) \<Rightarrow> evaluate_messages env server ms (trace_append tr entry) (deny \<or> denied))
     else
       evaluate_messages env server ms
         (trace_append (if rm_method m = method_tools_list then record_tools_list_id env tr (rm_id m) else tr)
           (request_entry (rm_method m))) deny)"

definition evaluate_body ::
    "'f json_env \<Rightarrow> 'f mcp_policy \<Rightarrow> 'f server \<Rightarrow> int \<Rightarrow> bytes \<Rightarrow> 'f mcp_trace option \<Rightarrow> 'f mcp_trace option \<times> mcp_outcome" where
  "evaluate_body env p server contentLength body tr =
    (if 0 < contentLength \<and> int (length body) < contentLength
     then (trace_append tr (denied_entry OversizeBody), McpReject (policy_error_response p [] False))
     else
       (case decode_jsonrpc body of
          (None, isBatch) \<Rightarrow>
            (trace_append tr (denied_entry MalformedJSONRPC), McpReject (policy_error_response p [] isBatch))
        | (Some msgs, isBatch) \<Rightarrow>
            (case evaluate_messages env server msgs tr False of
               (tr, None) \<Rightarrow> (tr, McpPanic)
             | (tr, Some deny) \<Rightarrow>
               (tr, if deny then McpReject (policy_error_response p (map rm_id msgs) isBatch) else McpPass))))"

definition evaluate_request ::
    "'f json_env \<Rightarrow> 'f mcp_policy option \<Rightarrow> 'f server option \<Rightarrow> 'x request \<Rightarrow> 'f mcp_trace option \<Rightarrow>
      'x request \<times> 'f mcp_trace option \<times> mcp_outcome" where
  "evaluate_request env p server req tr =
    (case (p, server) of
       (Some p, Some server) \<Rightarrow>
         (if r_method req \<noteq> ''POST'' then (req, tr, McpPass)
          else
            (case r_body req of
               PlainBody _ \<Rightarrow> (req, tr, McpError)
             | Buffered bb \<Rightarrow>
               (case bb_read_all bb of
                  (bb, ReadData body) \<Rightarrow>
                    (let (tr, out) = evaluate_body env p server (r_content_length req) body tr in
                     (req\<lparr>r_body := Buffered (bb_reset bb)\<rparr>, tr, out))
                | (bb, ReadPanic) \<Rightarrow> (req\<lparr>r_body := Buffered bb\<rparr>, tr, McpPanic)
                | (bb, _) \<Rightarrow> (req\<lparr>r_body := Buffered bb\<rparr>, tr, McpError))))
     | _ \<Rightarrow> (req, tr, McpPass))"

section \<open>Responses (intercept.go)\<close>

definition filter_message_in_place :: "rpc_message \<Rightarrow> string list \<Rightarrow> rpc_message \<times> nat" where
  "filter_message_in_place msg allowed =
    (if rm_result msg = [] then (msg, 0)
     else
       (let (res, removed) = filter_tools_list_result (rm_result msg) allowed in
        if removed = 0 then (msg, 0) else (msg\<lparr>rm_result := res\<rparr>, removed)))"

definition append_response_audit :: "'f mcp_trace option \<Rightarrow> rpc_message \<Rightarrow> nat \<Rightarrow> 'f mcp_trace option" where
  "append_response_audit tr msg filtered =
    trace_append tr
      (let entry = (request_entry (rm_method msg))\<lparr>ms_direction := DirectionResponse\<rparr> in
       if 0 < filtered
       then entry\<lparr>ms_method := method_tools_list, ms_decision := DecisionFiltered, ms_filtered := filtered\<rparr>
       else entry)"

text \<open>One message of a response: the message as it leaves, what was removed, the trace.\<close>

definition filter_message ::
    "'f json_env \<Rightarrow> string list \<Rightarrow> rpc_message \<Rightarrow> 'f mcp_trace option \<Rightarrow> rpc_message \<times> nat \<times> 'f mcp_trace option" where
  "filter_message env allowed msg tr =
    (let (msg, removed) = (if is_tools_list_response env tr (rm_id msg) then filter_message_in_place msg allowed else (msg, 0))
     in (msg, removed, append_response_audit tr msg removed))"

fun filter_batch ::
    "'f json_env \<Rightarrow> string list \<Rightarrow> rpc_message list \<Rightarrow> 'f mcp_trace option \<Rightarrow> rpc_message list \<times> nat \<times> 'f mcp_trace option" where
  "filter_batch env allowed [] tr = ([], 0, tr)"
| "filter_batch env allowed (m # ms) tr =
    (let (m, n, tr) = filter_message env allowed m tr; (ms, k, tr) = filter_batch env allowed ms tr
     in (m # ms, n + k, tr))"

text \<open>\<^const>\<open>None\<close> is the error of a body that does not decode.\<close>

definition filter_json_response_body ::
    "'f json_env \<Rightarrow> bytes \<Rightarrow> string list \<Rightarrow> 'f mcp_trace option \<Rightarrow> bytes option \<times> 'f mcp_trace option" where
  "filter_json_response_body env raw allowed tr =
    (let trimmed = bytes_trim_space raw in
     if trimmed = [] then (Some raw, tr)
     else if hd trimmed = CHR ''['' then
       (case Option.bind (json_parse trimmed) decode_batch of
          None \<Rightarrow> (None, tr)
        | Some batch \<Rightarrow>
          (let (batch, removed, tr) = filter_batch env allowed batch tr in
           (Some (if removed = 0 then raw else marshal_list (map marshal_message batch)), tr)))
     else
       (case Option.bind (json_parse trimmed) decode_message of
          None \<Rightarrow> (None, tr)
        | Some single \<Rightarrow>
          (let (single, removed, tr) = filter_message env allowed single tr in
           (Some (if removed = 0 then raw else marshal_message single), tr))))"

section \<open>Server-sent events (sse.go)\<close>

record sse_event =
  ev_raw :: bytes
  ev_data :: "bytes list"
  ev_other :: "bytes list"

definition empty_event :: sse_event where
  "empty_event = \<lparr>ev_raw = [], ev_data = [], ev_other = []\<rparr>"

definition split_field :: "bytes \<Rightarrow> string \<times> bytes" where
  "split_field line =
    (case index_byte line CHR '':'' of
       None \<Rightarrow> (line, [])
     | Some idx \<Rightarrow>
       (let v = drop (Suc idx) line in
        (take idx line, case v of c # cs \<Rightarrow> if c = CHR '' '' then cs else v | [] \<Rightarrow> [])))"

definition strip_crlf :: "bytes \<Rightarrow> bytes" where
  "strip_crlf line = rev (dropWhile (\<lambda>c. c = CHR 0x0A \<or> c = CHR 0x0D) (rev line))"

text \<open>\<^verbatim>\<open>ReadBytes\<close>: the line with its newline, when there is one.\<close>

definition read_line :: "bytes \<Rightarrow> (bytes \<times> bytes) option" where
  "read_line s =
    (case index_byte s CHR 0x0A of None \<Rightarrow> None | Some i \<Rightarrow> Some (take (Suc i) s, drop (Suc i) s))"

lemma read_lineD: "read_line s = Some (line, rest) \<Longrightarrow> s = line @ rest \<and> line \<noteq> []"
  by (auto simp: read_line_def split: option.splits)

definition add_line :: "bytes \<Rightarrow> bytes \<Rightarrow> sse_event \<Rightarrow> sse_event" where
  "add_line line trimmed ev =
    (if hd trimmed = CHR '':'' then ev\<lparr>ev_other := ev_other ev @ [line]\<rparr>
     else
       (let (key, v) = split_field trimmed in
        if key = ''data'' then ev\<lparr>ev_data := ev_data ev @ [v]\<rparr> else ev\<lparr>ev_other := ev_other ev @ [line]\<rparr>))"

datatype sse_result = SseEvent sse_event bytes | SseEOF | SseErr

text \<open>
  \<^verbatim>\<open>readSSEEvent\<close> on the bytes the reader still has; \<open>fails\<close> tells whether the reader ends
  with an error.
\<close>

function read_sse_event :: "bool \<Rightarrow> bytes \<Rightarrow> sse_event \<Rightarrow> sse_result" where
  "read_sse_event fails s ev =
    (case read_line s of
       None \<Rightarrow>
         (let raw = ev_raw ev @ s in
          if fails then SseErr else if raw = [] then SseEOF else SseEvent (ev\<lparr>ev_raw := raw\<rparr>) [])
     | Some (line, rest) \<Rightarrow>
         (let ev = ev\<lparr>ev_raw := ev_raw ev @ line\<rparr>; trimmed = strip_crlf line in
          if trimmed = [] then SseEvent ev rest else read_sse_event fails rest (add_line line trimmed ev)))"
  by pat_completeness auto
termination
  by (relation "measure (\<lambda>(_, s, _). length s)") (auto dest!: read_lineD)

declare read_sse_event.simps [simp del]

definition data_payload :: "sse_event \<Rightarrow> bytes" where
  "data_payload e = str_join (ev_data e) [CHR 0x0A]"

definition rewrite_data :: "sse_event \<Rightarrow> bytes \<Rightarrow> bytes" where
  "rewrite_data e payload =
    concat (map (\<lambda>ln. if has_suffix ln [CHR 0x0A] then ln else ln @ [CHR 0x0A]) (ev_other e))
    @ (if payload = [] then []
       else concat (map (\<lambda>ln. ''data: '' @ ln @ [CHR 0x0A]) (split_char CHR 0x0A payload)))
    @ [CHR 0x0A]"

section \<open>The event filter (intercept.go)\<close>

definition rewrite_event ::
    "'f json_env \<Rightarrow> string list \<Rightarrow> sse_event \<Rightarrow> 'f mcp_trace option \<Rightarrow> bytes \<times> 'f mcp_trace option" where
  "rewrite_event env allowed ev tr =
    (let payload = data_payload ev; trimmed = bytes_trim_space payload in
     if payload = [] \<or> trimmed = [] \<or> hd trimmed \<noteq> CHR ''{'' \<and> hd trimmed \<noteq> CHR ''['' then (ev_raw ev, tr)
     else
       (case Option.bind (json_parse trimmed) decode_message of
          None \<Rightarrow> (ev_raw ev, tr)
        | Some msg \<Rightarrow>
          (let (msg, removed, tr) = filter_message env allowed msg tr in
           (if removed = 0 then ev_raw ev else rewrite_data ev (marshal_message msg), tr))))"

record 'f sse_filter =
  sf_rest :: bytes
  sf_fails :: bool
  sf_allowed :: "string list"
  sf_trace :: "'f mcp_trace option"
  sf_pending :: bytes
  sf_done :: bool

definition new_sse_filter :: "reader \<Rightarrow> string list \<Rightarrow> 'f mcp_trace option \<Rightarrow> 'f sse_filter" where
  "new_sse_filter upstream allowed tr =
    \<lparr>sf_rest = rd_content upstream, sf_fails = rd_fails upstream, sf_allowed = allowed, sf_trace = tr,
     sf_pending = [], sf_done = False\<rparr>"

lemma add_line_raw [simp]: "ev_raw (add_line line trimmed ev) = ev_raw ev"
  by (simp add: add_line_def split: prod.splits)

text \<open>No byte of the stream is lost between the events.\<close>

lemma read_sse_event_split:
  "read_sse_event fails s ev = SseEvent ev' rest \<Longrightarrow>
    ev_raw ev' @ rest = ev_raw ev @ s \<and> (rest = [] \<or> length rest < length s)"
proof (induction fails s ev rule: read_sse_event.induct)
  case (1 fails s ev)
  show ?case
  proof (cases "read_line s")
    case None
    with "1.prems" show ?thesis by (subst (asm) read_sse_event.simps) (auto simp: Let_def split: if_splits)
  next
    case (Some p)
    then obtain line r where l: "read_line s = Some (line, r)" by (cases p) auto
    let ?ev = "ev\<lparr>ev_raw := ev_raw ev @ line\<rparr>"
    from read_lineD [OF l] have s: "s = line @ r" "line \<noteq> []" by auto
    show ?thesis
    proof (cases "strip_crlf line = []")
      case True
      with "1.prems" l s show ?thesis by (subst (asm) read_sse_event.simps) (auto simp: Let_def)
    next
      case False
      with "1.prems" l have "read_sse_event fails r (add_line line (strip_crlf line) ?ev) = SseEvent ev' rest"
        by (subst (asm) read_sse_event.simps) (simp add: Let_def)
      from "1.IH" [OF l refl refl refl False this] s show ?thesis by auto
    qed
  qed
qed

text \<open>The loop of \<^verbatim>\<open>Read\<close> until there is something to deliver; the flag reports a read error.\<close>

function sse_fill :: "'f json_env \<Rightarrow> 'f sse_filter \<Rightarrow> 'f sse_filter \<times> bool" where
  "sse_fill env f =
    (if sf_pending f \<noteq> [] \<or> sf_done f then (f, False)
     else
       (case read_sse_event (sf_fails f) (sf_rest f) empty_event of
          SseEvent ev rest \<Rightarrow>
            (let (out, tr) = rewrite_event env (sf_allowed f) ev (sf_trace f) in
             sse_fill env (f\<lparr>sf_rest := rest, sf_trace := tr, sf_pending := out\<rparr>))
        | SseEOF \<Rightarrow> (f\<lparr>sf_done := True\<rparr>, False)
        | SseErr \<Rightarrow> (f\<lparr>sf_done := True\<rparr>, True)))"
  by pat_completeness auto
termination
proof (relation "measure (\<lambda>(_, f). length (sf_rest f))", goal_cases)
  case (2 env f ev rest p out tr)
  then show ?case
    using read_sse_event_split [OF "2"(2)]
    by (auto simp: read_sse_event.simps empty_event_def read_line_def split: if_splits)
qed simp

declare sse_fill.simps [simp del]

definition sse_read :: "'f json_env \<Rightarrow> nat \<Rightarrow> 'f sse_filter \<Rightarrow> 'f sse_filter \<times> read_outcome" where
  "sse_read env n f =
    (let (f, failed) = sse_fill env f in
     if sf_pending f = [] then (f, if failed then ReadErr else ReadEOF)
     else (f\<lparr>sf_pending := drop n (sf_pending f)\<rparr>, ReadData (take n (sf_pending f))))"

text \<open>All that the filter makes of the rest of a stream.\<close>

function sse_output :: "'f json_env \<Rightarrow> bool \<Rightarrow> string list \<Rightarrow> bytes \<Rightarrow> 'f mcp_trace option \<Rightarrow> bytes" where
  "sse_output env fails allowed s tr =
    (case read_sse_event fails s empty_event of
       SseEvent ev rest \<Rightarrow>
         (let (out, tr) = rewrite_event env allowed ev tr in out @ sse_output env fails allowed rest tr)
     | _ \<Rightarrow> [])"
  by pat_completeness auto
termination
proof (relation "measure (\<lambda>(_, _, _, s, _). length s)", goal_cases)
  case (2 env fails allowed s tr ev rest p out tr')
  then show ?case
    using read_sse_event_split [OF "2"(1)]
    by (auto simp: read_sse_event.simps empty_event_def read_line_def split: if_splits)
qed simp

declare sse_output.simps [simp del]

text \<open>The audit record when the stream has been read to its end.\<close>

function sse_final_trace ::
    "'f json_env \<Rightarrow> bool \<Rightarrow> string list \<Rightarrow> bytes \<Rightarrow> 'f mcp_trace option \<Rightarrow> 'f mcp_trace option" where
  "sse_final_trace env fails allowed s tr =
    (case read_sse_event fails s empty_event of
       SseEvent ev rest \<Rightarrow> sse_final_trace env fails allowed rest (snd (rewrite_event env allowed ev tr))
     | _ \<Rightarrow> tr)"
  by pat_completeness auto
termination
proof (relation "measure (\<lambda>(_, _, _, s, _). length s)", goal_cases)
  case (2 env fails allowed s tr ev rest)
  then show ?case
    using read_sse_event_split [OF "2"(1)]
    by (auto simp: read_sse_event.simps empty_event_def read_line_def split: if_splits)
qed simp

declare sse_final_trace.simps [simp del]

text \<open>A stream body of the proxy, before and behind the filter.\<close>

definition unwrap_buffered_body :: "body \<Rightarrow> reader" where
  "unwrap_buffered_body b =
    (case b of
       Buffered bb \<Rightarrow> snd (streaming_reader bb)
     | PlainBody data \<Rightarrow> \<lparr>rd_content = data, rd_fails = False\<rparr>)"

definition read_response :: "body \<Rightarrow> read_outcome" where
  "read_response b = (case b of Buffered bb \<Rightarrow> snd (bb_read_all bb) | PlainBody data \<Rightarrow> ReadData data)"

text \<open>The body as the client reads it, with the audit record once it has been read.\<close>

definition wrap_response_body ::
    "'f json_env \<Rightarrow> 'f mcp_policy option \<Rightarrow> 'f server option \<Rightarrow> string \<Rightarrow> body \<Rightarrow> 'f mcp_trace option \<Rightarrow>
      (body \<times> 'f mcp_trace option) option" where
  "wrap_response_body env p server contentType body tr =
    (case (p, server) of
       (Some _, Some s) \<Rightarrow>
         (if media_type_is contentType media_type_sse then
            (let r = unwrap_buffered_body body in
             Some (Buffered (new_buffered_body
               (Some \<lparr>rd_content = sse_output env (rd_fails r) (sv_allowed s) (rd_content r) tr, rd_fails = rd_fails r\<rparr>) 0),
               sse_final_trace env (rd_fails r) (sv_allowed s) (rd_content r) tr))
          else if \<not> media_type_is contentType media_type_json then Some (body, tr)
          else
            (case read_response body of
               ReadData raw \<Rightarrow>
                 (case filter_json_response_body env raw (sv_allowed s) tr of
                    (None, tr) \<Rightarrow> Some (Buffered (new_buffered_body_from_bytes raw), tr)
                  | (Some filtered, tr) \<Rightarrow> Some (Buffered (new_buffered_body_from_bytes filtered), tr))
             | _ \<Rightarrow> None))
     | _ \<Rightarrow> Some (body, tr))"

section \<open>What the event filter delivers\<close>

text \<open>Everything the filter still has to deliver.\<close>

definition sse_remaining :: "'f json_env \<Rightarrow> 'f sse_filter \<Rightarrow> bytes" where
  "sse_remaining env f =
    sf_pending f @ (if sf_done f then [] else sse_output env (sf_fails f) (sf_allowed f) (sf_rest f) (sf_trace f))"

lemma read_sse_event_raw: "read_sse_event fails s empty_event = SseEvent ev rest \<Longrightarrow> s \<noteq> [] \<and> ev_raw ev @ rest = s"
  using read_sse_event_split [of fails s empty_event ev rest]
  by (auto simp: read_sse_event.simps empty_event_def read_line_def split: if_splits)

lemma sse_fill_remaining: "sse_remaining env (fst (sse_fill env f)) = sse_remaining env f"
proof (induction env f rule: sse_fill.induct)
  case (1 env f)
  show ?case
  proof (cases "sf_pending f \<noteq> [] \<or> sf_done f")
    case False
    then show ?thesis
    proof (cases "read_sse_event (sf_fails f) (sf_rest f) empty_event")
      case (SseEvent ev rest)
      obtain out tr where r: "rewrite_event env (sf_allowed f) ev (sf_trace f) = (out, tr)" by fastforce
      let ?f = "f\<lparr>sf_rest := rest, sf_trace := tr, sf_pending := out\<rparr>"
      from "1.IH" [OF False SseEvent r [symmetric] refl] have "sse_remaining env (fst (sse_fill env ?f)) = sse_remaining env ?f" .
      with False SseEvent r show ?thesis
        by (subst sse_fill.simps) (simp add: sse_remaining_def sse_output.simps [of _ _ _ "sf_rest f"])
    qed (subst sse_fill.simps, simp add: sse_remaining_def sse_output.simps [of _ _ _ "sf_rest f"])+
  qed (subst sse_fill.simps, auto)
qed

lemma sse_fill_stops:
  "sf_pending (fst (sse_fill env f)) = [] \<Longrightarrow> sf_done (fst (sse_fill env f))"
proof (induction env f rule: sse_fill.induct)
  case (1 env f)
  then show ?case
    by (subst (asm) (2) sse_fill.simps, subst sse_fill.simps)
      (auto split: sse_result.splits prod.splits if_splits)
qed

text \<open>A sequence of reads of the given sizes and the bytes they delivered.\<close>

fun sse_reads :: "'f json_env \<Rightarrow> nat list \<Rightarrow> 'f sse_filter \<Rightarrow> 'f sse_filter \<times> bytes" where
  "sse_reads env [] f = (f, [])"
| "sse_reads env (n # ns) f =
    (case sse_read env n f of
       (f, ReadData d) \<Rightarrow> (let (f, ds) = sse_reads env ns f in (f, d @ ds))
     | (f, _) \<Rightarrow> (f, []))"

lemma sse_read_cases:
  "(\<exists>d f'. sse_read env n f = (f', ReadData d) \<and> d @ sse_remaining env f' = sse_remaining env f
      \<and> (0 < n \<longrightarrow> d \<noteq> []))
   \<or> (\<exists>f' e. sse_read env n f = (f', e) \<and> e \<in> {ReadErr, ReadEOF} \<and> sse_remaining env f = []
      \<and> sse_remaining env f' = [])"
proof -
  obtain g failed where g: "sse_fill env f = (g, failed)" by fastforce
  with sse_fill_remaining [of env f] have rem: "sse_remaining env g = sse_remaining env f" by simp
  show ?thesis
  proof (cases "sf_pending g = []")
    case True
    with sse_fill_stops [of env f] g have "sf_done g" by simp
    with True rem g show ?thesis by (auto simp: sse_read_def sse_remaining_def)
  next
    case False
    let ?g = "g\<lparr>sf_pending := drop n (sf_pending g)\<rparr>"
    from False g have "sse_read env n f = (?g, ReadData (take n (sf_pending g)))" by (simp add: sse_read_def)
    moreover have "take n (sf_pending g) @ sse_remaining env ?g = sse_remaining env g"
      unfolding sse_remaining_def by (simp flip: append_assoc)
    ultimately show ?thesis using False rem by auto
  qed
qed

lemma sse_reads_split:
  "sse_reads env ns f = (f', d) \<Longrightarrow> d @ sse_remaining env f' = sse_remaining env f"
proof (induction ns arbitrary: f d)
  case (Cons n ns)
  from sse_read_cases [of env n f] Cons show ?case
    by (fastforce split: prod.splits)
qed simp

lemma sse_reads_all:
  "\<lbrakk>sse_reads env ns f = (f', d); list_all ((<) 0) ns; length (sse_remaining env f) \<le> length ns\<rbrakk> \<Longrightarrow>
    d = sse_remaining env f"
proof (induction ns arbitrary: f f' d)
  case (Cons n ns)
  from sse_read_cases [of env n f] consider
      (data) d0 g where "sse_read env n f = (g, ReadData d0)" "d0 @ sse_remaining env g = sse_remaining env f" "d0 \<noteq> []"
    | (stop) g e where "sse_read env n f = (g, e)" "e \<in> {ReadErr, ReadEOF}" "sse_remaining env f = []"
    using Cons.prems(2) by auto
  then show ?case
  proof cases
    case data
    obtain h ds where r: "sse_reads env ns g = (h, ds)" by fastforce
    have "length (sse_remaining env g) \<le> length ns"
      using arg_cong [OF data(2), of length] data(3) Cons.prems(3) by (cases d0) auto
    from Cons.IH [OF r _ this] Cons.prems r data show ?thesis by simp
  next
    case stop
    with Cons.prems show ?thesis by auto
  qed
qed simp

text \<open>Without a recorded id nothing is rewritten.\<close>

definition no_list_ids :: "'f mcp_trace option \<Rightarrow> bool" where
  "no_list_ids tr \<longleftrightarrow> (case tr of None \<Rightarrow> True | Some t \<Rightarrow> mt_list_ids t = [])"

lemma no_list_ids_append [simp]: "no_list_ids (trace_append tr m) = no_list_ids tr"
  by (simp add: no_list_ids_def trace_append_def split: option.splits)

lemma filter_message_no_ids:
  "no_list_ids tr \<Longrightarrow> filter_message env allowed msg tr = (msg, 0, append_response_audit tr msg 0)"
  by (simp add: filter_message_def is_tools_list_response_def no_list_ids_def split: option.splits)

lemma rewrite_event_no_ids:
  "no_list_ids tr \<Longrightarrow> fst (rewrite_event env allowed ev tr) = ev_raw ev \<and> no_list_ids (snd (rewrite_event env allowed ev tr))"
  by (simp add: rewrite_event_def filter_message_no_ids append_response_audit_def Let_def split: option.splits)

lemma read_sse_event_clean:
  "read_sse_event False s ev \<noteq> SseErr \<and> (read_sse_event False s ev = SseEOF \<longrightarrow> ev_raw ev @ s = [])"
proof (induction "length s" arbitrary: s ev rule: less_induct)
  case less
  show ?case
  proof (cases "read_line s")
    case None
    then show ?thesis by (simp add: read_sse_event.simps Let_def)
  next
    case (Some p)
    then obtain line rest where l: "read_line s = Some (line, rest)" by (cases p) auto
    from read_lineD [OF l] have s: "s = line @ rest" "line \<noteq> []" by auto
    then have "length rest < length s" by simp
    from less [OF this, of "add_line line (strip_crlf line) (ev\<lparr>ev_raw := ev_raw ev @ line\<rparr>)"] l s(2) show ?thesis
      by (simp add: read_sse_event.simps [of _ s] Let_def)
  qed
qed

lemma sse_output_no_ids: "no_list_ids tr \<Longrightarrow> sse_output env False allowed s tr = s"
proof (induction "length s" arbitrary: s tr rule: less_induct)
  case less
  show ?case
  proof (cases "read_sse_event False s empty_event")
    case (SseEvent ev rest)
    obtain out tr' where r: "rewrite_event env allowed ev tr = (out, tr')" by fastforce
    with rewrite_event_no_ids [OF less.prems, of env allowed ev] have o: "out = ev_raw ev" "no_list_ids tr'" by auto
    from read_sse_event_raw [OF SseEvent] have s: "s \<noteq> []" "ev_raw ev @ rest = s" by auto
    moreover from read_sse_event_split [OF SseEvent] s(1) have "length rest < length s" by auto
    with less.hyps o have "sse_output env False allowed rest tr' = rest" by simp
    ultimately show ?thesis using SseEvent r o by (subst sse_output.simps) simp
  next
    case SseEOF
    with read_sse_event_clean [of s empty_event] show ?thesis by (subst sse_output.simps) auto
  next
    case SseErr
    then show ?thesis using read_sse_event_clean by blast
  qed
qed

text \<open>
  C32: The event filter delivers, for reads of any positive sizes, a prefix of one output that
  depends on the stream alone, and all of it after as many reads as it has bytes. Until a
  tools/list request has been recorded the output of a stream that ends cleanly is the stream,
  byte for byte.
\<close>

theorem sse_filter_stream:
  assumes "list_all ((<) 0) ns" "length (sse_output env (rd_fails r) allowed (rd_content r) tr) \<le> length ns"
  shows "snd (sse_reads env ns (new_sse_filter r allowed tr)) = sse_output env (rd_fails r) allowed (rd_content r) tr
    \<and> (no_list_ids tr \<and> \<not> rd_fails r \<longrightarrow> snd (sse_reads env ns (new_sse_filter r allowed tr)) = rd_content r)"
proof -
  let ?f = "new_sse_filter r allowed tr"
  have rem: "sse_remaining env ?f = sse_output env (rd_fails r) allowed (rd_content r) tr"
    by (simp add: sse_remaining_def new_sse_filter_def)
  obtain f' d where "sse_reads env ns ?f = (f', d)" by fastforce
  with sse_reads_all [OF this assms(1)] assms(2) rem sse_output_no_ids [of tr env allowed "rd_content r"]
  show ?thesis by auto
qed

theorem sse_filter_stream_witness:
  "snd (sse_reads \<lparr>je_float = atoi, je_format = itoa, je_of_int = (\<lambda>i. i), je_eq = (=)\<rparr> (replicate 8 3)
      (new_sse_filter \<lparr>rd_content = ''data: 1'', rd_fails = False\<rparr> [] None)) = ''data: 1''"
  using sse_filter_stream [of "replicate 8 3" "\<lparr>je_float = atoi, je_format = itoa, je_of_int = (\<lambda>i. i), je_eq = (=)\<rparr>"
      "\<lparr>rd_content = ''data: 1'', rd_fails = False\<rparr>" "[]" None]
  by (simp add: sse_output_no_ids no_list_ids_def list_all_iff)

end
