(* ===== verification/Mcp_Gateway.thy ===== *)
theory Mcp_Gateway
  imports Go_Url Secrets
begin

text \<open>
  \<^verbatim>\<open>internal/mcpgateway/gateway.go\<close>: routes that send a request of a matched MCP server to a
  fixed upstream and add credentials to it. The YAML document is a decoded configuration;
  sources and templates are those of the environment of the secrets.
\<close>

section \<open>Configuration\<close>

record gateway_inject =
  gi_header :: string
  gi_query :: string
  gi_formatter :: string

record 'n credential_config =
  cc_source :: 'n
  cc_inject :: gateway_inject
  cc_require :: "bool option"

record 'n route_config =
  rt_name :: string
  rt_rules :: "rule_config list"
  rt_upstream :: string
  rt_credentials :: "'n credential_config list"

record credential =
  cd_source :: source
  cd_inject :: gateway_inject
  cd_require :: bool
  cd_formatter :: "(string \<Rightarrow> string option) option"
  cd_source_name :: string

record route =
  gr_name :: string
  gr_rules :: "rule list"
  gr_upstream :: parsed_url
  gr_credentials :: "credential list"

datatype gateway_error =
    NoRouteName nat | DuplicateRoute nat string | NoRouteRules string | BadRouteRules string rule_error
  | NoUpstream string | BadUpstream string | UpstreamScheme string | UpstreamHost string | UpstreamFragment string
  | BadSource string nat secrets_error | NoInject string nat | BothInjects string nat | BadInjectFormatter string nat
  | CredentialUnavailable string | CredentialFormat string

definition normalize_upstream :: "string \<Rightarrow> string \<Rightarrow> gateway_error + parsed_url" where
  "normalize_upstream routeName raw =
    (if raw = [] then Inl (NoUpstream routeName)
     else
       (case url_parse raw of
          None \<Rightarrow> Inl (BadUpstream routeName)
        | Some u \<Rightarrow>
          (if u_scheme u \<noteq> ''http'' \<and> u_scheme u \<noteq> ''https'' then Inl (UpstreamScheme routeName)
           else if u_host u = [] then Inl (UpstreamHost routeName)
           else if pu_fragment u \<noteq> [] then Inl (UpstreamFragment routeName)
           else Inr u)))"

definition validate_gateway_inject :: "string \<Rightarrow> nat \<Rightarrow> gateway_inject \<Rightarrow> gateway_error option" where
  "validate_gateway_inject routeName i cfg =
    (if gi_header cfg = [] \<and> gi_query cfg = [] then Some (NoInject routeName i)
     else if gi_header cfg \<noteq> [] \<and> gi_query cfg \<noteq> [] then Some (BothInjects routeName i)
     else None)"

definition compile_credential ::
    "'n secrets_env \<Rightarrow> string \<Rightarrow> nat \<Rightarrow> 'n credential_config \<Rightarrow> gateway_error + credential" where
  "compile_credential env routeName i cc =
    (case resolve_source env (cc_source cc) of
       Inl e \<Rightarrow> Inl (BadSource routeName i e)
     | Inr src \<Rightarrow>
       (case validate_gateway_inject routeName i (cc_inject cc) of
          Some e \<Rightarrow> Inl e
        | None \<Rightarrow>
          (let cred = (\<lambda>fm. \<lparr>cd_source = src, cd_inject = cc_inject cc,
                 cd_require = (case cc_require cc of Some b \<Rightarrow> b | None \<Rightarrow> True),
                 cd_formatter = fm, cd_source_name = src_name src\<rparr>)
           in if gi_formatter (cc_inject cc) = [] then Inr (cred None)
              else
                (case ev_template env (gi_formatter (cc_inject cc)) of
                   None \<Rightarrow> Inl (BadInjectFormatter routeName i)
                 | Some tmpl \<Rightarrow> Inr (cred (Some tmpl))))))"

fun compile_credentials ::
    "'n secrets_env \<Rightarrow> string \<Rightarrow> nat \<Rightarrow> 'n credential_config list \<Rightarrow> gateway_error + credential list" where
  "compile_credentials env routeName i [] = Inr []"
| "compile_credentials env routeName i (cc # ccs) =
    (case compile_credential env routeName i cc of
       Inl e \<Rightarrow> Inl e
     | Inr c \<Rightarrow>
       (case compile_credentials env routeName (Suc i) ccs of Inl e \<Rightarrow> Inl e | Inr cs \<Rightarrow> Inr (c # cs)))"

fun compile_routes ::
    "'n secrets_env \<Rightarrow> nat \<Rightarrow> string list \<Rightarrow> 'n route_config list \<Rightarrow> gateway_error + route list" where
  "compile_routes env i seen [] = Inr []"
| "compile_routes env i seen (rc # rcs) =
    (if rt_name rc = [] then Inl (NoRouteName i)
     else if rt_name rc \<in> set seen then Inl (DuplicateRoute i (rt_name rc))
     else if rt_rules rc = [] then Inl (NoRouteRules (rt_name rc))
     else
       (case compile_rules (rt_rules rc) of
          Inl e \<Rightarrow> Inl (BadRouteRules (rt_name rc) e)
        | Inr rules \<Rightarrow>
          (case normalize_upstream (rt_name rc) (rt_upstream rc) of
             Inl e \<Rightarrow> Inl e
           | Inr upstream \<Rightarrow>
             (case compile_credentials env (rt_name rc) 0 (rt_credentials rc) of
                Inl e \<Rightarrow> Inl e
              | Inr creds \<Rightarrow>
                (case compile_routes env (Suc i) (rt_name rc # seen) rcs of
                   Inl e \<Rightarrow> Inl e
                 | Inr routes \<Rightarrow>
                   Inr (\<lparr>gr_name = rt_name rc, gr_rules = rules, gr_upstream = upstream,
                         gr_credentials = creds\<rparr> # routes))))))"

text \<open>\<^const>\<open>None\<close> when no routes are configured.\<close>

definition gateway_compile :: "'n secrets_env \<Rightarrow> 'n route_config list \<Rightarrow> gateway_error + route list option" where
  "gateway_compile env rcs =
    (if rcs = [] then Inr None
     else (case compile_routes env 0 [] rcs of Inl e \<Rightarrow> Inl e | Inr rs \<Rightarrow> Inr (Some rs)))"

section \<open>Routing a request\<close>

definition match_route :: "route list option \<Rightarrow> 'x request \<Rightarrow> route option" where
  "match_route g req =
    (case g of
       None \<Rightarrow> None
     | Some routes \<Rightarrow>
       (let host = strip_port (r_host req) in
        find (\<lambda>r. list_ex (\<lambda>rule. rule_matches rule host (r_method req) (u_path (r_url req))) (gr_rules r)) routes))"

definition format_credential :: "(string \<Rightarrow> string option) option \<Rightarrow> string \<Rightarrow> string option" where
  "format_credential tmpl value = (case tmpl of None \<Rightarrow> Some value | Some f \<Rightarrow> f value)"

definition merge_raw_query :: "string \<Rightarrow> string \<Rightarrow> string" where
  "merge_raw_query base request =
    (if base = [] then request else if request = [] then base else base @ ''&'' @ request)"

record applied_route =
  ap_name :: string
  ap_upstream :: string
  ap_request_url :: string
  ap_injected :: "string list"

text \<open>The credentials in order: the request with them and the list of what was injected.\<close>

fun apply_credentials ::
    "credential list \<Rightarrow> srequest \<Rightarrow> string list \<Rightarrow> gateway_error + srequest \<times> string list" where
  "apply_credentials [] req ids = Inr (req, ids)"
| "apply_credentials (c # cs) req ids =
    (case src_get (cd_source c) of
       None \<Rightarrow>
         (if cd_require c then Inl (CredentialUnavailable (cd_source_name c)) else apply_credentials cs req ids)
     | Some value \<Rightarrow>
       (case format_credential (cd_formatter c) value of
          None \<Rightarrow> Inl (CredentialFormat (cd_source_name c))
        | Some value \<Rightarrow>
          (if gi_header (cd_inject c) \<noteq> [] then
             apply_credentials cs (req\<lparr>r_header := h_set (r_header req) (gi_header (cd_inject c)) value\<rparr>)
               (ids @ [cd_source_name c @ '':header:'' @ canonical_key (gi_header (cd_inject c))])
           else
             apply_credentials cs
               (set_rawquery (encode_query (map_set (fst (parse_query (u_rawquery (r_url req))))
                  (gi_query (cd_inject c)) [value])) req)
               (ids @ [cd_source_name c @ '':query:'' @ gi_query (cd_inject c)]))))"

definition route_apply :: "route \<Rightarrow> srequest \<Rightarrow> gateway_error + srequest \<times> applied_route" where
  "route_apply r req =
    (case apply_credentials (gr_credentials r) req [] of
       Inl e \<Rightarrow> Inl e
     | Inr (req, ids) \<Rightarrow>
       (let upstream = gr_upstream r in
        Inr (req, \<lparr>ap_name = gr_name r, ap_upstream = url_string upstream,
          ap_request_url = url_string (upstream\<lparr>u_rawquery := merge_raw_query (u_rawquery upstream) (u_rawquery (r_url req))\<rparr>),
          ap_injected = ids\<rparr>)))"

section \<open>What a compiled gateway guarantees\<close>

definition single_inject :: "credential \<Rightarrow> bool" where
  "single_inject c \<longleftrightarrow> (gi_header (cd_inject c) = []) \<noteq> (gi_query (cd_inject c) = [])"

definition route_ok :: "route \<Rightarrow> bool" where
  "route_ok r \<longleftrightarrow> gr_name r \<noteq> [] \<and> gr_rules r \<noteq> []
    \<and> (u_scheme (gr_upstream r) = ''http'' \<or> u_scheme (gr_upstream r) = ''https'')
    \<and> u_host (gr_upstream r) \<noteq> [] \<and> pu_fragment (gr_upstream r) = []
    \<and> list_all single_inject (gr_credentials r)"

lemma compile_credentials_ok:
  "compile_credentials env n i ccs = Inr cs \<Longrightarrow> list_all single_inject cs"
  by (induction ccs arbitrary: i cs)
     (auto simp: single_inject_def compile_credential_def validate_gateway_inject_def Let_def split: sum.splits option.splits if_splits)

lemma compile_rules_nonempty: "compile_rules rcs = Inr rs \<Longrightarrow> rcs \<noteq> [] \<Longrightarrow> rs \<noteq> []"
  by (cases rcs) (auto simp: compile_rules_def split: sum.splits)

lemma compile_routes_ok:
  "compile_routes env i seen rcs = Inr rs \<Longrightarrow>
    list_all route_ok rs \<and> distinct (map gr_name rs) \<and> set (map gr_name rs) \<inter> set seen = {}"
proof (induction rcs arbitrary: i seen rs)
  case (Cons rc rcs)
  from Cons.prems obtain rules u creds rs' where c: "rt_name rc \<noteq> []" "rt_name rc \<notin> set seen" "rt_rules rc \<noteq> []"
    "compile_rules (rt_rules rc) = Inr rules" "normalize_upstream (rt_name rc) (rt_upstream rc) = Inr u"
    "compile_credentials env (rt_name rc) 0 (rt_credentials rc) = Inr creds"
    "compile_routes env (Suc i) (rt_name rc # seen) rcs = Inr rs'"
    "rs = \<lparr>gr_name = rt_name rc, gr_rules = rules, gr_upstream = u, gr_credentials = creds\<rparr> # rs'"
    by (auto split: sum.splits if_splits)
  from Cons.IH [OF c(7)] c compile_credentials_ok [OF c(6)] compile_rules_nonempty [OF c(4,3)]
  show ?case by (auto simp: route_ok_def normalize_upstream_def split: option.splits if_splits)
qed simp

text \<open>Credentials change headers and the query of a request only.\<close>

lemma apply_credentials_keeps:
  "apply_credentials cs req ids = Inr (req', ids') \<Longrightarrow>
    r_host req' = r_host req \<and> r_method req' = r_method req \<and> r_body req' = r_body req \<and> r_ctx req' = r_ctx req
    \<and> r_content_length req' = r_content_length req"
  by (induction cs req ids rule: apply_credentials.induct)
     (auto simp: set_rawquery_def split: option.splits if_splits)

end
