(* ===== verification/Response_Retry.thy ===== *)
theory Response_Retry
  imports Go_Json Go_Mime Go_Url Dns_Guard
begin

text \<open>
  \<^verbatim>\<open>internal/responseretry/handler.go\<close>: the service that decides about the replay of a
  request, with its endpoints, the addresses its client may dial, the decision and the report.
  The field checks of \<^verbatim>\<open>httpguts\<close> are given by an environment, the answers of the service by
  an argument.
\<close>

section \<open>Options and endpoints\<close>

record retry_env =
  rv_valid_name :: "string \<Rightarrow> bool"
  rv_valid_value :: "string \<Rightarrow> bool"

record retry_options =
  ro_authorize :: string
  ro_complete :: string
  ro_token :: string
  ro_sandbox :: string
  ro_statuses :: "int list"
  ro_allow_http :: bool
  ro_completion :: "string list"
  ro_allow_cidrs :: "string list"
  ro_guard :: "guard option"
  ro_timeout :: int

datatype retry_error =
    NotAbsolute | HasFragment | NotHttps | AuthorizeEndpoint retry_error | CompleteEndpoint retry_error
  | TokenRequired | SandboxRequired | BadStatus int | NoStatus
  | BadCidrNotation string | BadCidr string | NotPrivateCidr string | MetadataCidr string
  | BadCompletionHeader string
  | DecisionTransport | DecisionStatus int | DecisionDecode | NotReplayable | NoAttemptId | BadTraceparent
  | BadHeaderName | BadHeaderValue string | ForbiddenHeader string | DuplicateHeader string
  | CompletionTransport | CompletionRead | CompletionStatus int

text \<open>\<^verbatim>\<open>URL.Hostname\<close> and \<^verbatim>\<open>URL.Port\<close>: the port is what follows the last colon, when it has digits only.\<close>

definition url_split :: "string \<Rightarrow> string \<times> string" where
  "url_split hostport =
    (let (host, port) =
       (case last_index_byte hostport CHR '':'' of
          Some i \<Rightarrow> if list_all is_digit (drop (Suc i) hostport) then (take i hostport, drop (Suc i) hostport) else (hostport, [])
        | None \<Rightarrow> (hostport, []))
     in (if has_prefix host ''['' \<and> has_suffix host '']'' then butlast (tl host) else host, port))"

definition url_hostname :: "url \<Rightarrow> string" where
  "url_hostname u = fst (url_split (u_host u))"

definition url_port :: "url \<Rightarrow> string" where
  "url_port u = snd (url_split (u_host u))"

definition retry_is_loopback :: "string \<Rightarrow> bool" where
  "retry_is_loopback host =
    (equal_fold host ''localhost''
     \<or> (case parse_addr host of Some a \<Rightarrow> is_loopback (unmap a) | None \<Rightarrow> False))"

definition parse_endpoint :: "string \<Rightarrow> bool \<Rightarrow> retry_error + url" where
  "parse_endpoint endpoint allowHTTP =
    (case map_option (\<lambda>p. (url.truncate p, pu_fragment p)) (url_parse endpoint) of
       None \<Rightarrow> Inl NotAbsolute
     | Some (u, fragment) \<Rightarrow>
       (if u_scheme u = [] \<or> u_host u = [] \<or> u_user u then Inl NotAbsolute
        else if fragment \<noteq> [] then Inl HasFragment
        else
          (let httpAllowed = u_scheme u = ''http'' \<and> (allowHTTP \<or> retry_is_loopback (url_hostname u)) in
           if u_scheme u \<noteq> ''https'' \<and> \<not> httpAllowed then Inl NotHttps else Inr u)))"

section \<open>Addresses the client may dial\<close>

definition private_networks :: "cidr list" where
  "private_networks =
    [Cidr (V4 0x0A000000) 8, Cidr (V4 0xAC100000) 12, Cidr (V4 0xC0A80000) 16,
     Cidr (V6 0xFC000000000000000000000000000000 []) 7]"

definition prefix_within :: "cidr \<Rightarrow> cidr list \<Rightarrow> bool" where
  "prefix_within p networks =
    list_ex (\<lambda>n. cidr_bits n \<le> cidr_bits p \<and> cidr_contains n (cidr_addr p)) networks"

definition prefix_contains :: "cidr list \<Rightarrow> addr \<Rightarrow> bool" where
  "prefix_contains allow a = list_ex (\<lambda>p. cidr_contains p a) allow"

definition parse_private_cidr :: "string \<Rightarrow> retry_error + cidr" where
  "parse_private_cidr raw =
    (let v = bytes_trim_space raw in
     if v = [] \<or> \<not> str_contains v ''/'' then Inl (BadCidrNotation raw)
     else
       (case parse_prefix v of
          None \<Rightarrow> Inl (BadCidr raw)
        | Some p \<Rightarrow>
          (let p = cidr_masked p in
           if \<not> prefix_within p private_networks then Inl (NotPrivateCidr raw)
           else if contains_metadata_address p then Inl (MetadataCidr raw)
           else Inr p)))"

fun parse_private_cidrs :: "string list \<Rightarrow> retry_error + cidr list" where
  "parse_private_cidrs [] = Inr []"
| "parse_private_cidrs (raw # raws) =
    (case parse_private_cidr raw of
       Inl e \<Rightarrow> Inl e
     | Inr p \<Rightarrow> (case parse_private_cidrs raws of Inl e \<Rightarrow> Inl e | Inr ps \<Rightarrow> Inr (p # ps)))"

definition dialed_host :: "string \<Rightarrow> string" where
  "dialed_host address = (case split_host_port address of Some (h, _) \<Rightarrow> h | None \<Rightarrow> address)"

text \<open>\<^const>\<open>None\<close> lets the connection go ahead.\<close>

definition handler_dial_control :: "guard option \<Rightarrow> cidr list \<Rightarrow> string \<Rightarrow> deny_error option" where
  "handler_dial_control g allow address =
    (case parse_addr (dialed_host address) of
       Some a \<Rightarrow>
         (if is_denied g (unmap a) \<and> prefix_contains allow (unmap a) then None else dial_control g address)
     | None \<Rightarrow> dial_control g address)"

text \<open>Whether the loopback dialer accepts an address.\<close>

definition loopback_only_dial_control :: "string \<Rightarrow> bool" where
  "loopback_only_dial_control address =
    (case parse_addr (dialed_host address) of Some a \<Rightarrow> is_loopback (unmap a) | None \<Rightarrow> False)"

definition handler_endpoint_key :: "url \<Rightarrow> string \<times> string \<times> string \<times> string" where
  "handler_endpoint_key u =
    (let port = (if url_port u \<noteq> [] then url_port u else if equal_fold (u_scheme u) ''https'' then ''443'' else ''80'');
         path = (if url_escaped_path u = [] then ''/'' else url_escaped_path u)
     in (to_lower (u_scheme u), join_host_port (to_lower (url_hostname u)) port, path, u_rawquery u))"

datatype handler_route = RouteRefused | RouteLoopback | RouteGuarded

definition handler_round_trip :: "url list \<Rightarrow> string \<Rightarrow> url \<Rightarrow> handler_route" where
  "handler_round_trip endpoints meth u =
    (if handler_endpoint_key u \<notin> handler_endpoint_key ` set endpoints \<or> meth \<noteq> ''POST'' then RouteRefused
     else if retry_is_loopback (url_hostname u) then RouteLoopback
     else RouteGuarded)"

definition client_timeout :: "int \<Rightarrow> int" where
  "client_timeout timeout = (if timeout \<le> 0 then 10000000000 else timeout)"

section \<open>The handler\<close>

record handler =
  hd_authorize :: url
  hd_complete :: url
  hd_token :: string
  hd_sandbox :: string
  hd_statuses :: "int list"
  hd_completion :: "string list"
  hd_guard :: "guard option"
  hd_allow :: "cidr list"
  hd_timeout :: int

definition new_handler :: "retry_env \<Rightarrow> retry_options \<Rightarrow> retry_error + handler" where
  "new_handler env opts =
    (case parse_endpoint (ro_authorize opts) (ro_allow_http opts) of
       Inl e \<Rightarrow> Inl (AuthorizeEndpoint e)
     | Inr authorizeURL \<Rightarrow>
       (case parse_endpoint (ro_complete opts) (ro_allow_http opts) of
          Inl e \<Rightarrow> Inl (CompleteEndpoint e)
        | Inr completeURL \<Rightarrow>
          (if ro_token opts = [] then Inl TokenRequired
           else if ro_sandbox opts = [] then Inl SandboxRequired
           else
             (case find (\<lambda>s. s < 100 \<or> 599 < s) (ro_statuses opts) of
                Some s \<Rightarrow> Inl (BadStatus s)
              | None \<Rightarrow>
                (if ro_statuses opts = [] then Inl NoStatus
                 else
                   (case parse_private_cidrs (ro_allow_cidrs opts) of
                      Inl e \<Rightarrow> Inl e
                    | Inr allow \<Rightarrow>
                      (case find (\<lambda>n. \<not> rv_valid_name env n) (ro_completion opts) of
                         Some n \<Rightarrow> Inl (BadCompletionHeader n)
                       | None \<Rightarrow>
                         Inr \<lparr>hd_authorize = authorizeURL, hd_complete = completeURL, hd_token = ro_token opts,
                           hd_sandbox = ro_sandbox opts, hd_statuses = ro_statuses opts,
                           hd_completion = remdups (map canonical_key (ro_completion opts)),
                           hd_guard = ro_guard opts, hd_allow = allow,
                           hd_timeout = client_timeout (ro_timeout opts)\<rparr>)))))))"

text \<open>
  The client of a handler, unless the options bring one of their own: whether a request with the
  method \<open>meth\<close> to the URL \<open>u\<close> may open a connection to an address its name resolved to. Redirects
  are not followed.
\<close>

definition client_connects :: "handler \<Rightarrow> string \<Rightarrow> url \<Rightarrow> string \<Rightarrow> bool" where
  "client_connects h meth u address =
    (case handler_round_trip [hd_authorize h, hd_complete h] meth u of
       RouteRefused \<Rightarrow> False
     | RouteLoopback \<Rightarrow> loopback_only_dial_control address
     | RouteGuarded \<Rightarrow> handler_dial_control (hd_guard h) (hd_allow h) address = None)"

definition forbidden_retry_headers :: "string list" where
  "forbidden_retry_headers =
    [''Connection'', ''Content-Length'', ''Host'', ''Keep-Alive'', ''Proxy-Authorization'', ''Proxy-Authenticate'',
     ''Proxy-Connection'', ''Te'', ''Trailer'', ''Transfer-Encoding'', ''Upgrade'']"

definition valid_traceparent :: "string \<Rightarrow> bool" where
  "valid_traceparent v =
    (let hex = list_all (\<lambda>c. hex_digit c \<noteq> None); zero = list_all (\<lambda>c. hex_digit c = Some 0) in
     case split_char CHR ''-'' v of
       [a, b, c, d] \<Rightarrow>
         a = ''00'' \<and> length b = 32 \<and> length c = 16 \<and> length d = 2
         \<and> hex b \<and> hex c \<and> hex d \<and> \<not> zero b \<and> \<not> zero c
     | _ \<Rightarrow> False)"

section \<open>The decision\<close>

record decision_response =
  dr_retry :: bool
  dr_headers :: "(string, string) gomap"
  dr_attempt :: string
  dr_traceparent :: string

definition decision_text :: "jtree \<Rightarrow> string \<Rightarrow> string \<times> bool" where
  "decision_text t old =
    (case t of JText _ s \<Rightarrow> (s, True) | JLit raw \<Rightarrow> (old, raw = ''null'') | _ \<Rightarrow> (old, False))"

definition decision_bool :: "jtree \<Rightarrow> bool \<Rightarrow> bool \<times> bool" where
  "decision_bool t old =
    (case t of
       JLit raw \<Rightarrow>
         if raw = ''true'' then (True, True) else if raw = ''false'' then (False, True) else (old, raw = ''null'')
     | _ \<Rightarrow> (old, False))"

definition decision_map :: "jtree \<Rightarrow> (string, string) gomap \<Rightarrow> (string, string) gomap \<times> bool" where
  "decision_map t old =
    (case t of
       JObject _ ms \<Rightarrow>
         foldl (\<lambda>(m, ok) (k, v). let (s, b) = decision_text v [] in (map_set m k s, ok \<and> b)) (old, True) ms
     | JLit raw \<Rightarrow> if raw = ''null'' then ([], True) else (old, False)
     | _ \<Rightarrow> (old, False))"

definition decision_field :: "decision_response \<times> bool \<Rightarrow> string \<times> jtree \<Rightarrow> decision_response \<times> bool" where
  "decision_field st member =
    (let (d, ok) = st; (key, t) = member in
     if field_match ''retry'' key then (let (v, b) = decision_bool t (dr_retry d) in (d\<lparr>dr_retry := v\<rparr>, ok \<and> b))
     else if field_match ''headers'' key then (let (v, b) = decision_map t (dr_headers d) in (d\<lparr>dr_headers := v\<rparr>, ok \<and> b))
     else if field_match ''attempt_id'' key then (let (v, b) = decision_text t (dr_attempt d) in (d\<lparr>dr_attempt := v\<rparr>, ok \<and> b))
     else if field_match ''traceparent'' key then (let (v, b) = decision_text t (dr_traceparent d) in (d\<lparr>dr_traceparent := v\<rparr>, ok \<and> b))
     else (d, ok))"

definition decode_decision :: "bytes \<Rightarrow> decision_response option" where
  "decode_decision body =
    (let zero = \<lparr>dr_retry = False, dr_headers = [], dr_attempt = [], dr_traceparent = []\<rparr> in
     case json_first (take 65536 body) of
       None \<Rightarrow> None
     | Some (JObject _ ms) \<Rightarrow> (let (d, ok) = foldl decision_field (zero, True) ms in if ok then Some d else None)
     | Some (JLit raw) \<Rightarrow> if raw = ''null'' then Some zero else None
     | Some _ \<Rightarrow> None)"

text \<open>What the service answers: a transport error, or a status and a body that may break off.\<close>

datatype reply = NoReply | Reply int reader

record service_call =
  sc_url :: url
  sc_header :: header
  sc_payload :: bytes

definition handler_request :: "handler \<Rightarrow> url \<Rightarrow> bytes \<Rightarrow> service_call" where
  "handler_request h endpoint payload =
    \<lparr>sc_url = endpoint,
     sc_header = [(''Authorization'', [''Bearer '' @ hd_token h]), (''Content-Type'', [''application/json''])],
     sc_payload = payload\<rparr>"

record retry_decision =
  dn_headers :: header
  dn_attempt :: string
  dn_traceparent :: string

fun decision_headers :: "retry_env \<Rightarrow> (string \<times> string) list \<Rightarrow> header \<Rightarrow> retry_error + header" where
  "decision_headers env [] h = Inr h"
| "decision_headers env ((name, v) # rest) h =
    (let canonical = canonical_key name in
     if \<not> rv_valid_name env name then Inl BadHeaderName
     else if \<not> rv_valid_value env v then Inl (BadHeaderValue name)
     else if canonical \<in> set forbidden_retry_headers then Inl (ForbiddenHeader canonical)
     else if map_get h canonical \<noteq> None then Inl (DuplicateHeader canonical)
     else decision_headers env rest (h_set h canonical v))"

definition decision_payload :: "handler \<Rightarrow> 'x request \<Rightarrow> response \<Rightarrow> bool \<Rightarrow> bytes" where
  "decision_payload h req resp replayable =
    (let u = r_url req; path = url_escaped_path u @ (if u_rawquery u \<noteq> [] then ''?'' @ u_rawquery u else []);
         traceparent = h_get (r_header req) ''Traceparent''
     in marshal_fields
       ([(''scheme'', json_quote (u_scheme u)), (''host'', json_quote (u_host u)), (''method'', json_quote (r_method req)),
         (''path'', json_quote path), (''replayable'', marshal_bool replayable), (''status'', itoa (int (p_status resp))),
         (''response_headers'', marshal_header (p_header resp)), (''sandbox_id'', json_quote (hd_sandbox h))]
        @ (if traceparent = [] then [] else [(''traceparent'', json_quote traceparent)])))"

datatype retry_outcome = NoRetry | RetryFailed retry_error | Retry retry_decision

definition accept_decision :: "retry_env \<Rightarrow> bool \<Rightarrow> decision_response \<Rightarrow> retry_outcome" where
  "accept_decision env replayable d =
    (if \<not> dr_retry d then NoRetry
     else if \<not> replayable then RetryFailed NotReplayable
     else if dr_attempt d = [] then RetryFailed NoAttemptId
     else if dr_traceparent d \<noteq> [] \<and> \<not> valid_traceparent (dr_traceparent d) then RetryFailed BadTraceparent
     else
       (case decision_headers env (dr_headers d) [] of
          Inl e \<Rightarrow> RetryFailed e
        | Inr hs \<Rightarrow> Retry \<lparr>dn_headers = hs, dn_attempt = dr_attempt d, dn_traceparent = dr_traceparent d\<rparr>))"

definition decide ::
    "retry_env \<Rightarrow> (service_call \<Rightarrow> reply) \<Rightarrow> handler \<Rightarrow> 'x request \<Rightarrow> response \<Rightarrow> bool \<Rightarrow> retry_outcome" where
  "decide env service h req resp replayable =
    (if int (p_status resp) \<notin> set (hd_statuses h) then NoRetry
     else
       (case service (handler_request h (hd_authorize h) (decision_payload h req resp replayable)) of
          NoReply \<Rightarrow> RetryFailed DecisionTransport
        | Reply status body \<Rightarrow>
          (if status \<noteq> 200 then RetryFailed (DecisionStatus status)
           else
             (case decode_decision (rd_content body) of
                None \<Rightarrow> RetryFailed DecisionDecode
              | Some d \<Rightarrow> accept_decision env replayable d))))"

section \<open>The report\<close>

definition selected_headers :: "header \<Rightarrow> string list \<Rightarrow> header" where
  "selected_headers h allowed =
    map (\<lambda>name. (name, h_values h name)) (filter (\<lambda>name. h_values h name \<noteq> []) allowed)"

definition completion_payload :: "handler \<Rightarrow> string \<Rightarrow> response option \<Rightarrow> string \<Rightarrow> string \<Rightarrow> int \<Rightarrow> int \<Rightarrow> bytes" where
  "completion_payload h attempt resp transportError traceparent replayMS chargeMS =
    marshal_fields
      ([(''attempt_id'', json_quote attempt),
        (''replay_status'', case resp of Some r \<Rightarrow> itoa (int (p_status r)) | None \<Rightarrow> ''null''),
        (''response_headers'', marshal_header (case resp of Some r \<Rightarrow> selected_headers (p_header r) (hd_completion h) | None \<Rightarrow> []))]
       @ (if transportError = [] then [] else [(''transport_error'', json_quote transportError)])
       @ (if traceparent = [] then [] else [(''traceparent'', json_quote traceparent)])
       @ (if replayMS = 0 then [] else [(''replay_duration_ms'', itoa replayMS)])
       @ (if chargeMS = 0 then [] else [(''charge_duration_ms'', itoa chargeMS)]))"

text \<open>
  The calls of the report, the answer to each by its number: how many there were and the error
  that remains.
\<close>

fun complete_loop :: "nat \<Rightarrow> (nat \<Rightarrow> reply) \<Rightarrow> nat \<Rightarrow> retry_error option \<Rightarrow> nat \<times> retry_error option" where
  "complete_loop 0 service attempt lastErr = (attempt, lastErr)"
| "complete_loop (Suc n) service attempt lastErr =
    (case service attempt of
       NoReply \<Rightarrow> complete_loop n service (Suc attempt) (Some CompletionTransport)
     | Reply status body \<Rightarrow>
       (if rd_fails body \<and> length (rd_content body) < 65536 then (Suc attempt, Some CompletionRead)
        else if 200 \<le> status \<and> status < 300 then (Suc attempt, None)
        else if status < 500 then (Suc attempt, Some (CompletionStatus status))
        else complete_loop n service (Suc attempt) (Some (CompletionStatus status))))"

definition complete_retry ::
    "(nat \<Rightarrow> service_call \<Rightarrow> reply) \<Rightarrow> handler \<Rightarrow> string \<Rightarrow> response option \<Rightarrow> string \<Rightarrow> string \<Rightarrow> int \<Rightarrow> int \<Rightarrow>
      nat \<times> retry_error option" where
  "complete_retry service h attempt resp transportError traceparent replayMS chargeMS =
    complete_loop 2 (\<lambda>i. service i (handler_request h (hd_complete h)
      (completion_payload h attempt resp transportError traceparent replayMS chargeMS))) 0 None"

section \<open>What the client may reach\<close>

lemma drop_bit_mono:
  assumes "drop_bit m x = drop_bit m (y :: 'a::len word)" "m \<le> n"
  shows "drop_bit n x = drop_bit n y"
proof -
  have "drop_bit (n - m) (drop_bit m x) = drop_bit (n - m) (drop_bit m y)" using assms(1) by simp
  then show ?thesis using assms(2) by (simp add: drop_bit_drop_bit)
qed

lemma cidr_contains_within:
  assumes "cidr_contains n (cidr_addr p)" "cidr_bits n \<le> cidr_bits p" "cidr_contains p a"
  shows "cidr_contains n a"
proof (cases n; cases p; cases "cidr_addr n"; cases "cidr_addr p"; cases a)
  fix na nb pa pb x y z
  assume "n = Cidr na nb" "p = Cidr pa pb" "cidr_addr n = V4 x" "cidr_addr p = V4 y" "a = V4 z"
  with assms show ?thesis by (auto simp: cidr_contains_V4 dest: drop_bit_mono [of "32 - pb" y z "32 - nb"])
next
  fix na nb pa pb x xz y yz z zz
  assume "n = Cidr na nb" "p = Cidr pa pb" "cidr_addr n = V6 x xz" "cidr_addr p = V6 y yz" "a = V6 z zz"
  with assms show ?thesis by (auto simp: cidr_contains_V6 dest: drop_bit_mono [of "128 - pb" y z "128 - nb"])
qed (use assms in \<open>auto simp: cidr_contains_def\<close>)

lemma parse_private_cidrs_within:
  "\<lbrakk>parse_private_cidrs raws = Inr ps; p \<in> set ps\<rbrakk> \<Longrightarrow>
    prefix_within p private_networks \<and> \<not> contains_metadata_address p"
  by (induction raws arbitrary: ps)
    (auto simp: parse_private_cidr_def Let_def split: if_splits option.splits sum.splits)

declare is_denied_unmap [simp]

lemma dial_control_denied:
  assumes "parse_addr (dialed_host address) = Some a" "is_denied g a"
  shows "dial_control g address \<noteq> None"
  using assms
  by (auto simp: dial_control_def is_denied_def dialed_host_def Let_def list_ex_iff find_None_iff
      split: option.splits if_splits)

lemma guarded_dial_safe:
  assumes "new_handler env opts = Inr h" "handler_dial_control (hd_guard h) (hd_allow h) address = None"
    and "parse_addr (dialed_host address) = Some a" "is_denied (hd_guard h) a"
  shows "list_ex (\<lambda>n. cidr_contains n (unmap a)) private_networks \<and> unmap a \<notin> set metadata_addresses"
proof -
  from assms(1) have p: "parse_private_cidrs (ro_allow_cidrs opts) = Inr (hd_allow h)"
    by (auto simp: new_handler_def split: sum.splits if_splits option.splits)
  have "prefix_contains (hd_allow h) (unmap a)"
    using assms(2-4) dial_control_denied [OF assms(3,4)]
    by (auto simp: handler_dial_control_def split: if_splits)
  then obtain q where q: "q \<in> set (hd_allow h)" "cidr_contains q (unmap a)"
    by (auto simp: prefix_contains_def list_ex_iff)
  from parse_private_cidrs_within [OF p q(1)] q(2) cidr_contains_within
  show ?thesis by (auto simp: prefix_within_def contains_metadata_address_def list_ex_iff)
qed

text \<open>
  C37: The client that a handler builds for itself opens connections only for a POST to one of the
  two configured endpoints. When the host of the endpoint is a loopback name or address, the guard
  is not asked and the connection goes to a loopback address only. Otherwise the address is one
  that the guard does not deny, or it lies in a private network and is no metadata address.
\<close>

theorem retry_dial_safe:
  assumes "new_handler env opts = Inr h" "client_connects h meth u address"
    and "parse_addr (dialed_host address) = Some a"
  shows "meth = ''POST'' \<and> handler_endpoint_key u \<in> {handler_endpoint_key (hd_authorize h), handler_endpoint_key (hd_complete h)}
    \<and> (if retry_is_loopback (url_hostname u) then is_loopback (unmap a)
       else \<not> is_denied (hd_guard h) a
         \<or> list_ex (\<lambda>n. cidr_contains n (unmap a)) private_networks \<and> unmap a \<notin> set metadata_addresses)"
  using assms guarded_dial_safe [OF assms(1) _ assms(3)]
  by (auto simp: client_connects_def handler_round_trip_def loopback_only_dial_control_def split: if_splits)

definition plain_env :: retry_env where
  "plain_env =
    \<lparr>rv_valid_name = (\<lambda>_. True), rv_valid_value = (\<lambda>_. True)\<rparr>"

definition plain_options :: retry_options where
  "plain_options =
    \<lparr>ro_authorize = ''https://retry.internal/decide'', ro_complete = ''https://retry.internal/decide'', ro_token = ''t'',
     ro_sandbox = ''box'', ro_statuses = [402], ro_allow_http = False, ro_completion = [],
     ro_allow_cidrs = [''10.1.0.0/16''], ro_guard = Some \<lparr>g_prefixes = [Cidr (V4 0x0A000000) 8]\<rparr>, ro_timeout = 0\<rparr>"

theorem retry_dial_safe_witness:
  "\<exists>h. new_handler plain_env plain_options = Inr h
    \<and> client_connects h ''POST'' (hd_authorize h) ''10.1.2.3:443''
    \<and> list_ex (\<lambda>n. cidr_contains n (V4 0x0A010203)) private_networks"
proof -
  have "case new_handler plain_env plain_options of Inl _ \<Rightarrow> False | Inr h \<Rightarrow>
      client_connects h ''POST'' (hd_authorize h) ''10.1.2.3:443'' \<and> is_denied (hd_guard h) (V4 0x0A010203)
      \<and> \<not> retry_is_loopback (url_hostname (hd_authorize h))"
    by code_simp
  then obtain h where h: "new_handler plain_env plain_options = Inr h"
    "client_connects h ''POST'' (hd_authorize h) ''10.1.2.3:443''" "is_denied (hd_guard h) (V4 0x0A010203)"
    "\<not> retry_is_loopback (url_hostname (hd_authorize h))"
    by (auto split: sum.splits)
  have "parse_addr (dialed_host ''10.1.2.3:443'') = Some (V4 0x0A010203)" by code_simp
  from retry_dial_safe [OF h(1,2) this] h show ?thesis by (auto simp: unmap_def)
qed

text \<open>The headers of a decision are the ones the service sent, in canonical form.\<close>

definition decision_header_ok :: "retry_env \<Rightarrow> string \<times> string \<Rightarrow> bool" where
  "decision_header_ok env = (\<lambda>(name, v). rv_valid_name env name \<and> rv_valid_value env v
    \<and> canonical_key name \<notin> set forbidden_retry_headers)"

lemma h_set_fresh: "map_get h (canonical_key k) = None \<Longrightarrow> h_set h k v = h @ [(canonical_key k, [v])]"
  by (simp add: h_set_def map_set_fresh)

lemma decision_headers_exact:
  "decision_headers env kvs h = Inr h' \<Longrightarrow>
    h' = h @ map (\<lambda>(name, v). (canonical_key name, [v])) kvs
    \<and> distinct (map (canonical_key \<circ> fst) kvs)
    \<and> list_all (\<lambda>(name, v). map_get h (canonical_key name) = None) kvs
    \<and> list_all (decision_header_ok env) kvs"
proof (induction kvs arbitrary: h)
  case (Cons kv kvs)
  obtain name v where kv: "kv = (name, v)" by (cases kv)
  let ?h = "h_set h (canonical_key name) v"
  from Cons.prems kv have c: "decision_headers env kvs ?h = Inr h'" "decision_header_ok env kv"
    and n: "map_get h (canonical_key name) = None"
    by (auto simp: Let_def decision_header_ok_def split: if_splits)
  have g: "map_get ?h k = (if k = canonical_key name then Some [v] else map_get h k)" for k
    by (simp add: h_set_def gm.lookup_insert)
  from Cons.IH [OF c(1)] have i: "h' = ?h @ map (\<lambda>(name, v). (canonical_key name, [v])) kvs"
    "distinct (map (canonical_key \<circ> fst) kvs)" "list_all (decision_header_ok env) kvs"
    and f: "\<And>n v. (n, v) \<in> set kvs \<Longrightarrow> map_get ?h (canonical_key n) = None"
    by (auto simp: list_all_iff o_def)
  from f g have "canonical_key n \<noteq> canonical_key name \<and> map_get h (canonical_key n) = None"
    if "(n, v) \<in> set kvs" for n v
    using that by (metis option.distinct(1))
  with i n c(2) kv h_set_fresh [of h "canonical_key name" v] show ?case
    by (fastforce simp: list_all_iff o_def)
qed simp

lemma decide_Retry:
  assumes "decide env service h req resp replayable = Retry d"
  obtains r body where "int (p_status resp) \<in> set (hd_statuses h)" "replayable"
    "service (handler_request h (hd_authorize h) (decision_payload h req resp replayable)) = Reply 200 body"
    "decode_decision (rd_content body) = Some r" "dr_retry r"
    "dn_attempt d = dr_attempt r" "dn_attempt d \<noteq> []"
    "dn_traceparent d = dr_traceparent r" "dn_traceparent d = [] \<or> valid_traceparent (dn_traceparent d)"
    "dn_headers d = map (\<lambda>(name, v). (canonical_key name, [v])) (dr_headers r)"
    "distinct (map (canonical_key \<circ> fst) (dr_headers r))" "list_all (decision_header_ok env) (dr_headers r)"
proof -
  from assms obtain r body where r: "accept_decision env replayable r = Retry d" "int (p_status resp) \<in> set (hd_statuses h)"
    "service (handler_request h (hd_authorize h) (decision_payload h req resp replayable)) = Reply 200 body"
    "decode_decision (rd_content body) = Some r"
    by (auto simp: decide_def split: if_splits reply.splits option.splits)
  then have a: "dr_retry r" "replayable" "dn_attempt d = dr_attempt r" "dn_attempt d \<noteq> []"
    "dn_traceparent d = dr_traceparent r" "dn_traceparent d = [] \<or> valid_traceparent (dn_traceparent d)"
    "decision_headers env (dr_headers r) [] = Inr (dn_headers d)"
    by (auto simp: accept_decision_def split: if_splits sum.splits)
  from decision_headers_exact [OF a(7)] a(1-6) r(2-4) show thesis by (intro that) auto
qed

lemma decide_headers_wf:
  assumes "decide env service h req resp replayable = Retry d"
  shows "distinct (map fst (dn_headers d))" "list_all (\<lambda>(name, _). canonical_key name = name) (dn_headers d)"
proof -
  obtain r :: decision_response where "dn_headers d = map (\<lambda>(name, v). (canonical_key name, [v])) (dr_headers r)"
    "distinct (map (canonical_key \<circ> fst) (dr_headers r))" by (rule decide_Retry [OF assms])
  then show "distinct (map fst (dn_headers d))" "list_all (\<lambda>(name, _). canonical_key name = name) (dn_headers d)"
    by (simp_all add: o_def case_prod_beta list_all_iff)
qed

text \<open>
  C38: A replay is authorised only for a selected status and a replayable request, when the
  service answers the request about it with status 200 and a decision to retry that has an attempt
  id and no malformed trace context. The headers of the replay are exactly the ones the service
  sent, each under its canonical name with its one value; they are valid, no two of them share a
  canonical name, and none is a routing or framing header.
\<close>

theorem retry_decision_valid:
  assumes "decide env service h req resp replayable = Retry d"
  shows "int (p_status resp) \<in> set (hd_statuses h) \<and> replayable
    \<and> (\<exists>body r. service (handler_request h (hd_authorize h) (decision_payload h req resp replayable)) = Reply 200 body
        \<and> decode_decision (rd_content body) = Some r \<and> dr_retry r
        \<and> dn_attempt d = dr_attempt r \<and> dn_attempt d \<noteq> []
        \<and> dn_traceparent d = dr_traceparent r \<and> (dn_traceparent d = [] \<or> valid_traceparent (dn_traceparent d))
        \<and> dn_headers d = map (\<lambda>(name, v). (canonical_key name, [v])) (dr_headers r)
        \<and> distinct (map (canonical_key \<circ> fst) (dr_headers r))
        \<and> list_all (decision_header_ok env) (dr_headers r))"
  by (rule decide_Retry [OF assms]) blast

definition pay_reply :: bytes where
  "pay_reply = map (\<lambda>c. if c = CHR 0x60 then CHR 0x22 else c)
    ''{`retry`:true,`headers`:{`x-payment`:`ok`},`attempt_id`:`a1`}''"

definition paid_response :: response where
  "paid_response = \<lparr>p_status = 402, p_header = [], p_body = PlainBody [], p_content_length = 0, p_trailer = []\<rparr>"

definition plain_handler :: handler where
  "plain_handler =
    (let u = \<lparr>u_scheme = ''https'', u_host = ''retry.internal'', u_path = ''/decide'', u_rawpath = [], u_rawquery = [], u_user = False\<rparr>
     in \<lparr>hd_authorize = u, hd_complete = u, hd_token = ''t'', hd_sandbox = ''box'', hd_statuses = [402], hd_completion = [],
       hd_guard = None, hd_allow = [], hd_timeout = 10000000000\<rparr>)"

theorem retry_decision_valid_witness:
  "\<exists>r. decode_decision pay_reply = Some r \<and> dr_headers r = [(''x-payment'', ''ok'')] \<and> list_all (decision_header_ok plain_env) (dr_headers r)"
proof -
  have d: "decode_decision pay_reply = Some \<lparr>dr_retry = True, dr_headers = [(''x-payment'', ''ok'')], dr_attempt = ''a1'', dr_traceparent = []\<rparr>"
    by code_simp
  have h: "decision_headers plain_env [(''x-payment'', ''ok'')] [] = Inr [(''X-Payment'', [''ok''])]" by code_simp
  have "decide plain_env (\<lambda>_. Reply 200 \<lparr>rd_content = pay_reply, rd_fails = False\<rparr>) plain_handler (req :: unit request) paid_response True
      = Retry \<lparr>dn_headers = [(''X-Payment'', [''ok''])], dn_attempt = ''a1'', dn_traceparent = []\<rparr>" for req
    using d h by (simp add: decide_def accept_decision_def plain_handler_def paid_response_def Let_def)
  from retry_decision_valid [OF this] d show ?thesis by auto
qed

text \<open>A report is sent at most twice, and again only after no answer or a server error.\<close>

lemma complete_loop_calls:
  "complete_loop n service i e = (k, err) \<Longrightarrow> k \<le> i + n
    \<and> (\<forall>j. i \<le> j \<and> Suc j < k \<longrightarrow> (case service j of NoReply \<Rightarrow> True | Reply s _ \<Rightarrow> 500 \<le> s))"
proof (induction n arbitrary: i e)
  case (Suc n)
  have go: ?case if l: "complete_loop n service (Suc i) e' = (k, err)"
    and s: "case service i of NoReply \<Rightarrow> True | Reply s _ \<Rightarrow> 500 \<le> s" for e'
  proof -
    have "case service j of NoReply \<Rightarrow> True | Reply s _ \<Rightarrow> 500 \<le> s" if "i \<le> j" "Suc j < k" for j
      using Suc.IH [OF l] s that by (cases "j = i") auto
    with Suc.IH [OF l] show ?thesis by auto
  qed
  show ?case
  proof (cases "service i")
    case NoReply
    with Suc.prems go show ?thesis by auto
  next
    case (Reply s b)
    show ?thesis
    proof (cases "k = Suc i")
      case False
      with Reply Suc.prems have "500 \<le> s" "complete_loop n service (Suc i) (Some (CompletionStatus s)) = (k, err)"
        by (auto split: if_splits)
      with Reply go show ?thesis by auto
    qed auto
  qed
qed auto

end
