(* ===== verification/Proxy_Handler.thy ===== *)
theory Proxy_Handler
  imports Proxy_Wire Mcp_Filter Mcp_Gateway Response_Retry
begin

text \<open>
  The request handler of \<^verbatim>\<open>internal/proxy/proxy.go\<close> from the first check to the response, with
  the relay of \<^verbatim>\<open>websocket.go\<close>. The network, the clock, the retry service and the WebSocket
  library are parameters; the result of a run is what the client receives, what was sent
  upstream in which order, and the audit record.
\<close>

section \<open>State of a request\<close>

datatype proxy_error =
    TransformError string | McpFailure | GatewayFailure gateway_error | BadUpstreamRequest | ReplayBodyFailure
  | Refusal send_refusal | SendFailure | NoSni

record 'f pipeline_result =
  pr_host :: string
  pr_method :: string
  pr_path :: string
  pr_remote :: string
  pr_sni :: string
  pr_mode :: mode
  pr_tunnel :: "tunnel_info option"
  pr_action :: action
  pr_status :: nat
  pr_err :: "proxy_error option"
  pr_requests :: "trace list"
  pr_responses :: "trace list"
  pr_canceled :: bool
  pr_mcp :: "'f mcp_trace option"
  pr_capture :: "body_capture option"

text \<open>The points where an error may be the cancellation of the client.\<close>

datatype stage = StageRequest | StageMcp | StageGateway | StageSend | StageReplay | StageResponse

record ws_call =
  wc_url :: url
  wc_header :: header
  wc_host :: string
  wc_protocols :: "string list"

text \<open>
  How the dial of the WebSocket library ends: without a response, with a response and an error,
  or open with the protocol the server selected.
\<close>

datatype ws_reply = WsNone | WsFailed response reader | WsOpen response string

text \<open>
  What the client sees: a response, a connection that ends without one, a handler that
  panicked, or a relay with its response headers and protocols.
\<close>

datatype client_out = Answer client_response | Gone | Crash | Relay header "string list"

text \<open>
  What a request meets: the policies at the moment they are loaded, and the answers of the
  outside. Sends and their pipelines and clock readings are numbered in the order of the run.
  When the WebSocket library does not accept an upgrade, \<open>pv_accept\<close> is what it wrote to the client.
\<close>

record 'f proxy_env =
  pv_ready :: bool
  pv_pipeline :: "nat \<Rightarrow> request_scrubs pipeline"
  pv_now :: "nat \<Rightarrow> resolved_secret \<Rightarrow> int"
  pv_json :: "'f json_env"
  pv_mcp :: "'f mcp_policy option"
  pv_gateway :: "route list option"
  pv_retry :: "handler option"
  pv_retry_env :: retry_env
  pv_decide :: "service_call \<Rightarrow> reply"
  pv_report :: "nat \<Rightarrow> service_call \<Rightarrow> reply"
  pv_durations :: "int \<times> int"
  pv_proxied :: "srequest \<Rightarrow> bool"
  pv_send :: "nat \<Rightarrow> transport \<Rightarrow> outbound \<Rightarrow> (response \<times> reader) option"
  pv_websocket :: "ws_call \<Rightarrow> ws_reply"
  pv_accept :: "client_out option"
  pv_canceled :: "stage \<Rightarrow> bool"

record 'f handled =
  hn_client :: client_out
  hn_sends :: "(transport \<times> outbound) list"
  hn_dials :: "ws_call list"
  hn_report :: "(nat \<times> retry_error option) option"
  hn_result :: "'f pipeline_result option"

definition answer :: "client_out \<Rightarrow> 'f pipeline_result option \<Rightarrow> 'f handled" where
  "answer out result = \<lparr>hn_client = out, hn_sends = [], hn_dials = [], hn_report = None, hn_result = result\<rparr>"

definition mark_not_ready :: "'f pipeline_result \<Rightarrow> 'f pipeline_result" where
  "mark_not_ready result =
    result\<lparr>pr_action := ActionReject, pr_status := 503,
      pr_requests := pr_requests result @ [\<lparr>tr_name = ''ready'', tr_action = ActionReject, tr_err = None,
        tr_annotations = [(''reason'', AStr ''awaiting_control_plane_config'')]\<rparr>]\<rparr>"

definition not_ready_message :: string where
  "not_ready_message = ''proxy is not ready: awaiting control-plane config''"

text \<open>The error branches: nothing is written when the client has gone.\<close>

definition failed ::
    "'f proxy_env \<Rightarrow> stage \<Rightarrow> proxy_error \<Rightarrow> 'f pipeline_result \<Rightarrow> client_out \<times> 'f pipeline_result" where
  "failed env stage e result =
    (if pv_canceled env stage
     then (Gone, result\<lparr>pr_action := ActionContinue, pr_status := 200, pr_canceled := True\<rparr>)
     else (Answer (http_error ''bad gateway'' 502),
           result\<lparr>pr_action := ActionContinue, pr_status := 502, pr_err := Some e\<rparr>))"

text \<open>An error that is not taken for a cancellation.\<close>

definition bad_gateway :: "proxy_error \<Rightarrow> 'f pipeline_result \<Rightarrow> client_out \<times> 'f pipeline_result" where
  "bad_gateway e result =
    (Answer (http_error ''bad gateway'' 502),
     result\<lparr>pr_action := ActionContinue, pr_status := 502, pr_err := Some e\<rparr>)"

definition refused :: "'f pipeline_result \<Rightarrow> client_out \<times> 'f pipeline_result" where
  "refused result =
    (Answer (http_error ''credential destination refused'' 403), result\<lparr>pr_action := ActionReject, pr_status := 403\<rparr>)"

section \<open>The response path (proxy.go)\<close>

definition deliver :: "srequest option \<Rightarrow> response \<Rightarrow> 'f pipeline_result \<Rightarrow> client_out \<times> 'f pipeline_result" where
  "deliver request final result =
    (if is_sse final
     then (case stream_sse request final of Some c \<Rightarrow> (Answer c, result) | None \<Rightarrow> (Crash, result))
     else (Answer (write_response request final), result))"

text \<open>
  \<open>sent\<close> is the request the response belongs to; a response a transform put in its place belongs
  to none (the one the pipeline builds names a request, but has no trailers to mask).
\<close>

definition respond ::
    "'f proxy_env \<Rightarrow> 'f server option \<Rightarrow> transform_context \<Rightarrow> srequest \<Rightarrow> srequest \<Rightarrow> response \<Rightarrow> reader \<Rightarrow>
      'f pipeline_result \<Rightarrow> client_out \<times> 'f pipeline_result" where
  "respond env server tctx r sent resp body result =
    (let pl = pv_pipeline env 0;
         resp = resp\<lparr>p_body := Buffered (new_buffered_body (Some body) (bl_max_response (pl_body_limits pl)))\<rparr>;
         (tctx, r, traces, run) = process_response (pl_transforms pl) tctx r resp [];
         result = result\<lparr>pr_responses := traces\<rparr>
     in case run of
          RunError e \<Rightarrow> failed env StageResponse (TransformError e) result
        | RunRespond final \<Rightarrow>
          (let result = result\<lparr>pr_action := short_circuit_action traces, pr_status := p_status final\<rparr>;
               request = (if short_circuit_action traces = ActionContinue then Some sent else None);
               (final, result) =
                 (if server = None \<or> pv_mcp env = None then (final, result)
                  else
                    (case wrap_response_body (pv_json env) (pv_mcp env) server (h_get (p_header final) ''Content-Type'')
                            (p_body final) (pr_mcp result) of
                       None \<Rightarrow> (final, result)
                     | Some (b, tr) \<Rightarrow> (final\<lparr>p_body := b\<rparr>, result\<lparr>pr_mcp := tr\<rparr>)))
           in deliver request final result)
        | _ \<Rightarrow> (Crash, result))"

section \<open>Sending and replaying (proxy.go)\<close>

text \<open>
  One pass of the send boundary: what was handed to a transport, and the response or the
  error.
\<close>

definition proxy_send ::
    "'f proxy_env \<Rightarrow> nat \<Rightarrow> outbound \<Rightarrow> (transport \<times> outbound) list \<times> (proxy_error + response \<times> reader)" where
  "proxy_send env i ob =
    (case round_trip (pv_now env i) (pv_pipeline env i) (pv_proxied env) (ob_request ob) of
       Inl e \<Rightarrow> ([], Inl (Refusal e))
     | Inr t \<Rightarrow>
       ([(t, ob)],
        (case pv_send env i t ob of None \<Rightarrow> Inl SendFailure | Some rb \<Rightarrow> Inr rb)))"

definition replay_headers :: "retry_decision \<Rightarrow> header \<Rightarrow> header" where
  "replay_headers d h =
    (let h = fold (\<lambda>(name, vs) h. fold (\<lambda>v h. h_add h name v) vs (h_del h name)) (dn_headers d) h
     in if dn_traceparent d \<noteq> [] then h_set h ''Traceparent'' (dn_traceparent d) else h)"

definition replay_outbound :: "retry_decision \<Rightarrow> bytes \<Rightarrow> outbound \<Rightarrow> outbound" where
  "replay_outbound d replayBody ob =
    \<lparr>ob_request = (ob_request ob)\<lparr>r_header := replay_headers d (r_header (ob_request ob)),
       r_content_length := int (length replayBody)\<rparr>,
     ob_body = \<lparr>rd_content = replayBody, rd_fails = False\<rparr>\<rparr>"

definition with_sends ::
    "(transport \<times> outbound) list \<Rightarrow> (nat \<times> retry_error option) option \<Rightarrow> client_out \<times> 'f pipeline_result \<Rightarrow> 'f handled" where
  "with_sends sends report out =
    \<lparr>hn_client = fst out, hn_sends = sends, hn_dials = [], hn_report = report, hn_result = Some (snd out)\<rparr>"

definition send_replay ::
    "'f proxy_env \<Rightarrow> 'f server option \<Rightarrow> handler \<Rightarrow> retry_decision \<Rightarrow> bytes \<Rightarrow> (transport \<times> outbound) list \<Rightarrow>
      transform_context \<Rightarrow> srequest \<Rightarrow> outbound \<Rightarrow> 'f pipeline_result \<Rightarrow> 'f handled" where
  "send_replay env server h d replayBody sends tctx r ob result =
    (let again = replay_outbound d replayBody ob;
         (more, res) = proxy_send env 2 again;
         traceparent = (if dn_traceparent d \<noteq> [] then dn_traceparent d
           else h_get (r_header (ob_request ob)) ''Traceparent'');
         report = (\<lambda>resp err. complete_retry (pv_report env) h (dn_attempt d) resp err traceparent
           (fst (pv_durations env)) (snd (pv_durations env)))
     in case res of
          Inl e \<Rightarrow>
            with_sends (sends @ more) (Some (report None ''upstream_transport_error'')) (failed env StageReplay e result)
        | Inr (resp, body) \<Rightarrow>
            with_sends (sends @ more) (Some (report (Some resp) []))
              (respond env server tctx r (ob_request again) resp body result))"

definition retry_handler :: "'f proxy_env \<Rightarrow> outbound \<Rightarrow> handler option" where
  "retry_handler env ob = (if response_retry_eligible (ob_request ob) then pv_retry env else None)"

definition send_upstream ::
    "'f proxy_env \<Rightarrow> 'f server option \<Rightarrow> transform_context \<Rightarrow> srequest \<Rightarrow> outbound \<Rightarrow> 'f pipeline_result \<Rightarrow> 'f handled" where
  "send_upstream env server tctx r ob result =
    (let retry = retry_handler env ob;
         prepared = (case retry of
             None \<Rightarrow> Some (ob_body ob, [], False)
           | Some _ \<Rightarrow> prepare_replay_body (ob_body ob) (r_content_length (ob_request ob))
               (bl_max_request (pl_body_limits (pv_pipeline env 0))))
     in case prepared of
          None \<Rightarrow> with_sends [] None (bad_gateway ReplayBodyFailure result)
        | Some (body, replayBody, replayable) \<Rightarrow>
          (let ob = \<lparr>ob_request = (if replayable then (ob_request ob)\<lparr>r_content_length := int (length replayBody)\<rparr>
                 else ob_request ob), ob_body = body\<rparr>;
               (sends, res) = proxy_send env 1 ob
           in case res of
                Inl e \<Rightarrow> with_sends sends None (failed env StageSend e result)
              | Inr (resp, rbody) \<Rightarrow>
                (case (case retry of
                         None \<Rightarrow> NoRetry
                       | Some h \<Rightarrow> decide (pv_retry_env env) (pv_decide env) h (ob_request ob) resp replayable) of
                   Retry d \<Rightarrow> send_replay env server (the retry) d replayBody sends tctx r ob result
                 | _ \<Rightarrow> with_sends sends None (respond env server tctx r (ob_request ob) resp rbody result))))"

section \<open>WebSocket upgrades (websocket.go)\<close>

definition offered_protocols :: "header \<Rightarrow> string list" where
  "offered_protocols h = header_tokens h ''Sec-WebSocket-Protocol''"

fun selected_protocol :: "string \<Rightarrow> string list \<Rightarrow> string list \<Rightarrow> nat \<Rightarrow> string list \<Rightarrow> string list" where
  "selected_protocol chosen protocols original i [] = []"
| "selected_protocol chosen protocols original i (p # ps) =
    (if p \<noteq> chosen then selected_protocol chosen protocols original (Suc i) ps
     else if length original = length protocols then [original ! i]
     else if length original = 1 then original
     else [])"

definition websocket_call :: "string \<Rightarrow> string \<Rightarrow> srequest \<Rightarrow> ws_call" where
  "websocket_call scheme host r =
    (let headers = sanitize_upstream_headers (r_header r) in
     \<lparr>wc_url = (r_url r)\<lparr>u_host := host, u_scheme := if scheme = ''https'' then ''wss'' else ''ws''\<rparr>,
      wc_header = fold (\<lambda>name h. h_del h name)
        [''Sec-WebSocket-Key'', ''Sec-WebSocket-Version'', ''Sec-WebSocket-Protocol'', ''Sec-WebSocket-Extensions''] headers,
      wc_host = host, wc_protocols = offered_protocols headers\<rparr>)"

definition relayed_headers :: "header \<Rightarrow> header" where
  "relayed_headers h =
    fold (\<lambda>(k, vs) out.
       if canonical_key k \<in> {''Connection'', ''Upgrade'', ''Sec-Websocket-Accept'', ''Sec-Websocket-Protocol'',
            ''Sec-Websocket-Extensions''} then out
       else fold (\<lambda>v out. h_add out k v) vs out) h []"

definition handle_websocket ::
    "'f proxy_env \<Rightarrow> header \<Rightarrow> string \<Rightarrow> string \<Rightarrow> transform_context \<Rightarrow> srequest \<Rightarrow> 'f pipeline_result \<Rightarrow> 'f handled" where
  "handle_websocket env clientHeader scheme host tctx r result =
    (let pl = pv_pipeline env 0; call = websocket_call scheme host r;
         outgoing = r\<lparr>r_url := wc_url call, r_host := host, r_method := ''GET''\<rparr>;
         done = (\<lambda>out result. \<lparr>hn_client = out, hn_sends = [], hn_dials = [call], hn_report = None, hn_result = Some result\<rparr>);
         bad = Answer (http_error ''bad gateway'' 502)
     in if \<not> validate_final_destination (pv_now env 0) outgoing
        then (let (out, result) = refused result in answer out (Some result))
        else
          (let reply = pv_websocket env call;
               masked = (\<lambda>resp body result.
                 process_response (pl_transforms pl) tctx r
                   (resp\<lparr>p_body := Buffered (new_buffered_body (Some body) (bl_max_response (pl_body_limits pl)))\<rparr>) []);
               request = (\<lambda>traces. if short_circuit_action traces = ActionContinue then Some outgoing else None)
           in case reply of
                WsNone \<Rightarrow> done bad (result\<lparr>pr_status := 502\<rparr>)
              | WsFailed resp body \<Rightarrow>
                (if p_status resp = 101 then done bad (result\<lparr>pr_status := 502\<rparr>)
                 else
                   (let result = result\<lparr>pr_status := p_status resp\<rparr>;
                        (_, _, traces, run) = masked resp body result; result = result\<lparr>pr_responses := traces\<rparr>
                    in case run of
                         RunRespond final \<Rightarrow> done (Answer (write_response (request traces) final)) result
                       | RunError _ \<Rightarrow> done bad result
                       | _ \<Rightarrow> done Crash result))
              | WsOpen resp chosen \<Rightarrow>
                (let result = result\<lparr>pr_status := p_status resp\<rparr>;
                     (_, _, traces, run) = masked resp empty_reader result; result = result\<lparr>pr_responses := traces\<rparr>
                 in case run of
                      RunRespond final \<Rightarrow>
                        (if p_status final \<noteq> 101 then done (Answer (write_response (request traces) final)) result
                         else
                           (case pv_accept env of
                              Some out \<Rightarrow> done out result
                            | None \<Rightarrow>
                              (let protocols = wc_protocols call in
                               done (Relay (relayed_headers (p_header final))
                                 (selected_protocol chosen protocols (offered_protocols clientHeader) 0 protocols)) result)))
                    | RunError _ \<Rightarrow> done bad result
                    | _ \<Rightarrow> done Crash result)))"

text \<open>The text of a close frame, cut to its limit between characters.\<close>

function close_reason :: "bytes \<Rightarrow> bytes" where
  "close_reason reason =
    (if 123 < length reason then close_reason (take (length reason - snd (decode_last_rune reason)) reason) else reason)"
  by pat_completeness auto
termination
proof (relation "measure length")
  fix reason :: bytes
  assume "123 < length reason"
  moreover from this have "0 < snd (decode_last_rune reason)" by (intro decode_last_rune_size_pos) auto
  ultimately show "(take (length reason - snd (decode_last_rune reason)) reason, reason) \<in> measure length" by simp
qed simp

declare close_reason.simps [simp del]

text \<open>One direction of the relay: the messages and the close text of one side as the other side gets them.\<close>

definition relay :: "bool \<Rightarrow> srequest \<Rightarrow> (nat \<times> reader) list \<Rightarrow> string \<Rightarrow> (nat \<times> reader) list \<times> string" where
  "relay masked r msgs reason =
    (map (\<lambda>(kind, body). (kind, if masked then mask_response_reader r body else body)) msgs,
     close_reason (if masked then mask_response_text (Some r) reason else reason))"

section \<open>The handler (proxy.go)\<close>

text \<open>The request as it leaves the gateway: where it goes, or the error.\<close>

definition gateway_stage ::
    "'f proxy_env \<Rightarrow> 'f server option \<Rightarrow> srequest \<Rightarrow> 'f pipeline_result \<Rightarrow>
      gateway_error + srequest \<times> 'f pipeline_result \<times> string" where
  "gateway_stage env server r result =
    (if server = None then Inr (r, result, [])
     else
       (case match_route (pv_gateway env) r of
          None \<Rightarrow> Inr (r, result, [])
        | Some route \<Rightarrow>
          (case route_apply route r of
             Inl e \<Rightarrow> Inl e
           | Inr (r, applied) \<Rightarrow>
             Inr (r, result\<lparr>pr_mcp := trace_set_gateway (pr_mcp result)
                 [(''route'', GStr (ap_name applied)), (''upstream'', GStr (ap_upstream applied)),
                  (''credentials_injected'', GArr (map GStr (ap_injected applied)))]\<rparr>,
               ap_request_url applied))))"

definition upstream_url :: "string \<Rightarrow> string \<Rightarrow> srequest \<Rightarrow> parsed_url" where
  "upstream_url scheme host r =
    empty_url\<lparr>u_scheme := scheme, u_host := host, u_path := u_path (r_url r), u_rawpath := u_rawpath (r_url r),
      u_rawquery := u_rawquery (r_url r)\<rparr>"

definition upstream_request :: "string \<Rightarrow> url \<Rightarrow> srequest \<Rightarrow> int \<Rightarrow> srequest" where
  "upstream_request meth u r bodyLen =
    \<lparr>r_method = meth, r_host = u_host u, r_url = u,
     r_header = sanitize_upstream_headers (copy_headers [] (r_header r)), r_body = PlainBody [], r_tls = None,
     r_remote = [], r_content_length = (if 0 \<le> bodyLen then bodyLen else r_content_length r), r_ctx = r_ctx r\<rparr>"

definition forward ::
    "'f proxy_env \<Rightarrow> 'f server option \<Rightarrow> string \<Rightarrow> string \<Rightarrow> transform_context \<Rightarrow> srequest \<Rightarrow> 'f pipeline_result \<Rightarrow> 'f handled" where
  "forward env server scheme host tctx r result =
    (case gateway_stage env server r result of
       Inl e \<Rightarrow> with_sends [] None (failed env StageGateway (GatewayFailure e) result)
     | Inr (r, result, target) \<Rightarrow>
       (let raw = (if target = [] then url_string (upstream_url scheme host r) else target) in
        case require_buffered_body (r_body r) of
          None \<Rightarrow> answer Crash (Some result)
        | Some body \<Rightarrow>
          (let (body', reader) = streaming_reader body; r' = r\<lparr>r_body := Buffered body'\<rparr> in
           case new_request_line (r_method r) raw of
             None \<Rightarrow> with_sends [] None (bad_gateway BadUpstreamRequest result)
           | Some (meth, u) \<Rightarrow>
             (let ob = \<lparr>ob_request = upstream_request meth (url.truncate u) r (bb_len body), ob_body = reader\<rparr> in
              if \<not> validate_final_destination (pv_now env 0) (ob_request ob) then with_sends [] None (refused result)
              else send_upstream env server tctx r' ob result))))"

definition mcp_stage ::
    "'f proxy_env \<Rightarrow> srequest \<Rightarrow> 'f pipeline_result \<Rightarrow> 'f server option \<times> srequest \<times> 'f pipeline_result \<times> mcp_outcome" where
  "mcp_stage env r result =
    (case match_server (pv_mcp env) r of
       None \<Rightarrow> (None, r, result, McpPass)
     | Some s \<Rightarrow>
       (let tr = \<lparr>mt_server = sv_name s, mt_messages = [], mt_gateway = [], mt_list_ids = []\<rparr>;
            (r, tr, out) = evaluate_request (pv_json env) (pv_mcp env) (Some s) r (Some tr)
        in (Some s, r, result\<lparr>pr_mcp := tr\<rparr>, out)))"

definition after_transforms ::
    "'f proxy_env \<Rightarrow> header option \<Rightarrow> string \<Rightarrow> string \<Rightarrow> transform_context \<Rightarrow> srequest \<Rightarrow> 'f pipeline_result \<Rightarrow> 'f handled" where
  "after_transforms env clientUpgrade scheme host tctx r result =
    (let (server, r, result, out) = mcp_stage env r result in
     case out of
       McpPanic \<Rightarrow> answer Crash (Some result)
     | McpError \<Rightarrow> with_sends [] None (failed env StageMcp McpFailure result)
     | McpReject resp \<Rightarrow>
         answer (Answer (write_response None resp)) (Some (result\<lparr>pr_action := ActionReject, pr_status := p_status resp\<rparr>))
     | McpPass \<Rightarrow>
         (if is_websocket_upgrade r then
            (case clientUpgrade of
               None \<Rightarrow> answer (Answer (http_error ''invalid WebSocket upgrade'' 400)) (Some result)
             | Some h \<Rightarrow>
               handle_websocket env h scheme host tctx r (result\<lparr>pr_action := ActionContinue, pr_status := 101\<rparr>))
          else forward env server scheme host tctx r result))"

definition sni_matches :: "srequest \<Rightarrow> bool" where
  "sni_matches r =
    (case r_tls r of
       None \<Rightarrow> True
     | Some sni \<Rightarrow> sni = (case split_host_port (r_host r) of Some (h, _) \<Rightarrow> h | None \<Rightarrow> r_host r))"

definition request_context :: "srequest \<Rightarrow> tunnel_info option \<Rightarrow> transform_context" where
  "request_context r tun =
    \<lparr>tc_sni = (case r_tls r of Some sni \<Rightarrow> sni | None \<Rightarrow> []), tc_mode = ModeMITM, tc_tunnel = tun,
     tc_tunnel_admission = False, tc_body_capture = None, tc_annotations = []\<rparr>"

definition initial_result :: "srequest \<Rightarrow> transform_context \<Rightarrow> 'f pipeline_result" where
  "initial_result r tctx =
    \<lparr>pr_host = r_host r, pr_method = r_method r, pr_path = u_path (r_url r), pr_remote = r_remote r,
     pr_sni = tc_sni tctx, pr_mode = tc_mode tctx, pr_tunnel = tc_tunnel tctx, pr_action = ActionContinue,
     pr_status = 0, pr_err = None, pr_requests = [], pr_responses = [], pr_canceled = False, pr_mcp = None,
     pr_capture = None\<rparr>"

definition run_transforms ::
    "'f proxy_env \<Rightarrow> string \<Rightarrow> transform_context \<Rightarrow> srequest \<Rightarrow> 'f pipeline_result \<Rightarrow> 'f handled" where
  "run_transforms env scheme tctx r result =
    (let upgrade = (if is_websocket_upgrade r then Some (r_header r) else None); host = r_host r;
         (tctx, r, traces, run) = process_request (pl_transforms (pv_pipeline env 0)) tctx r [];
         result = result\<lparr>pr_requests := traces, pr_capture := tc_body_capture tctx\<rparr>
     in case run of
          RunPanic \<Rightarrow> answer Crash (Some result)
        | RunError e \<Rightarrow> with_sends [] None (failed env StageRequest (TransformError e) result)
        | RunRespond resp \<Rightarrow>
            answer (Answer (write_response None resp))
              (Some (result\<lparr>pr_action := short_circuit_action traces, pr_status := p_status resp\<rparr>))
        | RunContinue \<Rightarrow> after_transforms env upgrade scheme host tctx r result)"

text \<open>\<open>body\<close> is the body of the client's request; the body field of \<open>r\<close> is not looked at.\<close>

definition handle_http :: "'f proxy_env \<Rightarrow> srequest \<Rightarrow> reader option \<Rightarrow> tunnel_info option \<Rightarrow> 'f handled" where
  "handle_http env r body tun =
    (let scheme = (if r_tls r \<noteq> None then ''https'' else ''http'') in
     if r_host r = [] then answer (Answer (http_error ''missing Host header'' 400)) None
     else if contains_dot_segments (u_path (r_url r))
     then answer (Answer (http_error ''path contains dot segments'' 400)) None
     else if \<not> sni_matches r then answer (Answer (http_error ''SNI and Host header mismatch'' 400)) None
     else
       (let tctx = request_context r tun; result = initial_result r tctx in
        if \<not> pv_ready env
        then answer (Answer (http_error not_ready_message 503)) (Some (mark_not_ready result))
        else
          (let r = r\<lparr>r_body := Buffered (new_buffered_body body (bl_max_request (pl_body_limits (pv_pipeline env 0))))\<rparr> in
           if is_websocket_upgrade r \<and> r_method r \<noteq> ''GET''
           then answer (Answer (http_error ''WebSocket upgrade requires GET'' 400)) (Some result)
           else run_transforms env scheme tctx r result)))"

end
