(* ===== verification/Proxy_Tunnel.thy ===== *)
theory Proxy_Tunnel
  imports Proxy_Handler
begin

text \<open>
  The other entrances of \<^verbatim>\<open>internal/proxy\<close>: the CONNECT and SOCKS5 listener of \<^verbatim>\<open>tunnel.go\<close>, the
  look at the server name of \<^verbatim>\<open>snipeek.go\<close> and the passthrough of \<^verbatim>\<open>sni_passthrough.go\<close>. A
  connection delivers its bytes in chunks; the TLS parser is a parameter.
\<close>

section \<open>Admission of a tunnel (tunnel.go)\<close>

definition not_ready_response :: response where
  "not_ready_response =
    \<lparr>p_status = 503, p_header = [(''Content-Type'', [''text/plain; charset=utf-8''])],
     p_body = PlainBody (not_ready_message @ [CHR 0x0A]), p_content_length = 0, p_trailer = []\<rparr>"

definition connect_request :: "string \<Rightarrow> string \<Rightarrow> header option \<Rightarrow> srequest" where
  "connect_request remoteAddr target connectHeaders =
    \<lparr>r_method = ''CONNECT'', r_host = target,
     r_url = \<lparr>u_scheme = [], u_host = target, u_path = [], u_rawpath = [], u_rawquery = [], u_user = False\<rparr>,
     r_header = (case connectHeaders of Some h \<Rightarrow> h | None \<Rightarrow> []),
     r_body = Buffered (new_buffered_body (Some empty_reader) 0), r_tls = None, r_remote = remoteAddr,
     r_content_length = 0, r_ctx = None\<rparr>"

definition connect_context :: "bool \<Rightarrow> string \<Rightarrow> transform_context" where
  "connect_context sniOnly target =
    \<lparr>tc_sni = (case split_host_port target of Some (h, _) \<Rightarrow> h | None \<Rightarrow> []),
     tc_mode = (if sniOnly then ModeSNIOnly else ModeMITM), tc_tunnel = None, tc_tunnel_admission = \<not> sniOnly,
     tc_body_capture = None, tc_annotations = []\<rparr>"

datatype tunnel_check = TunnelOpen tunnel_info | TunnelRefused "response option" | TunnelCrash

definition tunnel_transform_check ::
    "'f proxy_env \<Rightarrow> bool \<Rightarrow> string \<Rightarrow> string \<Rightarrow> header option \<Rightarrow> tunnel_check \<times> 'f pipeline_result" where
  "tunnel_transform_check env sniOnly remoteAddr target connectHeaders =
    (let req = connect_request remoteAddr target connectHeaders; tctx = connect_context sniOnly target;
         result = initial_result req tctx
     in if \<not> pv_ready env then (TunnelRefused (Some not_ready_response), mark_not_ready result)
        else
          (let (_, _, traces, run) = process_request (pl_transforms (pv_pipeline env 0)) tctx req [];
               result = result\<lparr>pr_requests := traces\<rparr>
           in case run of
                RunPanic \<Rightarrow> (TunnelCrash, result)
              | RunError e \<Rightarrow>
                  (TunnelRefused None,
                   result\<lparr>pr_action := ActionContinue, pr_status := 502, pr_err := Some (TransformError e)\<rparr>)
              | RunRespond resp \<Rightarrow>
                  (TunnelRefused (Some resp),
                   result\<lparr>pr_action := short_circuit_action traces, pr_status := p_status resp\<rparr>)
              | RunContinue \<Rightarrow>
                  (TunnelOpen \<lparr>tun_target = target, tun_transforms = traces\<rparr>,
                   result\<lparr>pr_action := ActionContinue, pr_status := 200\<rparr>)))"

section \<open>CONNECT (tunnel.go)\<close>

definition connect_target :: "string \<Rightarrow> string" where
  "connect_target host = (if split_host_port host = None then join_host_port host ''443'' else host)"

datatype connect_out = ConnectRefused client_response | ConnectOpen string tunnel_info | ConnectCrash

definition handle_tunnel_connect :: "'f proxy_env \<Rightarrow> bool \<Rightarrow> srequest \<Rightarrow> connect_out \<times> 'f pipeline_result" where
  "handle_tunnel_connect env sniOnly req =
    (let host = connect_target (r_host req);
         (check, result) = tunnel_transform_check env sniOnly (r_remote req) host (Some (r_header req));
         closing = (\<lambda>c. c\<lparr>cr_header := map_set (cr_header c) ''Connection'' (''close'' # h_values (cr_header c) ''Connection'')\<rparr>)
     in (case check of
           TunnelOpen info \<Rightarrow> ConnectOpen host info
         | TunnelRefused None \<Rightarrow> ConnectRefused (closing (http_error ''Forbidden'' 403))
         | TunnelRefused (Some resp) \<Rightarrow> ConnectRefused (closing (write_response None resp))
         | TunnelCrash \<Rightarrow> ConnectCrash, result))"

text \<open>What a request on the explicit proxy port does.\<close>

datatype port_action = PortConnect | PortRefused client_response | PortForward

definition serve_tunnel_proxy_http :: "srequest \<Rightarrow> port_action" where
  "serve_tunnel_proxy_http r =
    (if r_method r = ''CONNECT'' then PortConnect
     else if u_scheme (r_url r) \<noteq> ''http'' then PortRefused (http_error ''unsupported proxy request scheme'' 400)
     else PortForward)"

section \<open>Connections\<close>

text \<open>What a buffered reader holds and the chunks the socket still delivers.\<close>

type_synonym conn = "bytes \<times> bytes list"

fun read_full :: "nat \<Rightarrow> bytes \<Rightarrow> bytes list \<Rightarrow> (bytes \<times> conn) option" where
  "read_full n buf [] = (if n \<le> length buf then Some (take n buf, drop n buf, []) else None)"
| "read_full n buf (c # cs) =
    (if n \<le> length buf then Some (take n buf, drop n buf, c # cs) else read_full n (buf @ c) cs)"

definition read_conn :: "nat \<Rightarrow> conn \<Rightarrow> (bytes \<times> conn) option" where
  "read_conn n c = read_full n (fst c) (snd c)"

datatype tunnel_service = ServeTls | ServePassthrough | ServeHttp | ServeUnsupported | ServeNothing

definition is_http_method_byte :: "char \<Rightarrow> bool" where
  "is_http_method_byte b \<longleftrightarrow> 65 \<le> byte b \<and> byte b \<le> 90"

definition serve_tunnel_with_reader :: "bool \<Rightarrow> conn \<Rightarrow> tunnel_service" where
  "serve_tunnel_with_reader sniOnly c =
    (case read_conn 1 c of
       None \<Rightarrow> ServeNothing
     | Some (first, _) \<Rightarrow>
       (if byte (hd first) = 0x16 then (if sniOnly then ServePassthrough else ServeTls)
        else if is_http_method_byte (hd first) then ServeHttp
        else ServeUnsupported))"

text \<open>A fresh reader over the socket.\<close>

definition serve_tunnel :: "bool \<Rightarrow> bytes list \<Rightarrow> tunnel_service" where
  "serve_tunnel sniOnly chunks = serve_tunnel_with_reader sniOnly ([], chunks)"

section \<open>SOCKS5 (tunnel.go)\<close>

definition socks5_reply :: "nat \<Rightarrow> bytes" where
  "socks5_reply status = map char_of [0x05, status, 0x00, 0x01, 0, 0, 0, 0, 0, 0]"

definition ip_string :: "bytes \<Rightarrow> string" where
  "ip_string b =
    (if length b = 4 then ipv4_string (word_of_int (bytes_val (map byte b)))
     else
       (let w = word_of_int (bytes_val (map byte b)) :: 128 word in
        case ip_to4 w of Some v4 \<Rightarrow> ipv4_string v4 | None \<Rightarrow> ipv6_string w))"

text \<open>The target host of the request, for the address types there are.\<close>

datatype socks_host = HostRead string conn | HostUnsupported | HostFailed

definition socks_target_host :: "nat \<Rightarrow> conn \<Rightarrow> socks_host" where
  "socks_target_host atyp c =
    (if atyp = 1 then (case read_conn 4 c of None \<Rightarrow> HostFailed | Some (a, c) \<Rightarrow> HostRead (ip_string a) c)
     else if atyp = 3 then
       (case read_conn 1 c of
          None \<Rightarrow> HostFailed
        | Some (n, c) \<Rightarrow>
          (case read_conn (byte (hd n)) c of None \<Rightarrow> HostFailed | Some (domain, c) \<Rightarrow> HostRead domain c))
     else if atyp = 4 then (case read_conn 16 c of None \<Rightarrow> HostFailed | Some (a, c) \<Rightarrow> HostRead (ip_string a) c)
     else HostUnsupported)"

definition big_endian_uint16 :: "bytes \<Rightarrow> nat" where
  "big_endian_uint16 b = 256 * byte (b ! 0) + byte (b ! 1)"

text \<open>
  How the exchange ends: an error, a refusal that was answered, or a tunnel to a target with
  what its reader has left.
\<close>

datatype socks_out = SocksError | SocksRefused | SocksCrash | SocksTunnel string tunnel_info conn

definition socks_connect ::
    "'f proxy_env \<Rightarrow> bool \<Rightarrow> string \<Rightarrow> conn \<Rightarrow> bytes list \<times> socks_out \<times> 'f pipeline_result option" where
  "socks_connect env sniOnly remoteAddr c =
    (case read_conn 4 c of
       None \<Rightarrow> ([], SocksError, None)
     | Some (header, c) \<Rightarrow>
       (if byte (header ! 0) \<noteq> 5 then ([], SocksError, None)
        else if byte (header ! 1) \<noteq> 1 then ([socks5_reply 0x07], SocksRefused, None)
        else
          (case socks_target_host (byte (header ! 3)) c of
             HostFailed \<Rightarrow> ([], SocksError, None)
           | HostUnsupported \<Rightarrow> ([socks5_reply 0x08], SocksRefused, None)
           | HostRead targetHost c \<Rightarrow>
             (case read_conn 2 c of
                None \<Rightarrow> ([], SocksError, None)
              | Some (portBuf, c) \<Rightarrow>
                (let port = big_endian_uint16 portBuf;
                     target = join_host_port targetHost (itoa (int port));
                     (check, result) = tunnel_transform_check env sniOnly remoteAddr target None
                 in case check of
                      TunnelOpen info \<Rightarrow> ([socks5_reply 0], SocksTunnel target info c, Some result)
                    | TunnelRefused _ \<Rightarrow> ([socks5_reply 0x02], SocksRefused, Some result)
                    | TunnelCrash \<Rightarrow> ([], SocksCrash, Some result))))))"

definition handle_socks5 ::
    "'f proxy_env \<Rightarrow> bool \<Rightarrow> string \<Rightarrow> conn \<Rightarrow> bytes list \<times> socks_out \<times> 'f pipeline_result option" where
  "handle_socks5 env sniOnly remoteAddr c =
    (case read_conn 2 c of
       None \<Rightarrow> ([], SocksError, None)
     | Some (start, c) \<Rightarrow>
       (if byte (start ! 0) \<noteq> 5 then ([], SocksError, None)
        else
          (case read_conn (byte (start ! 1)) c of
             None \<Rightarrow> ([], SocksError, None)
           | Some (methods, c) \<Rightarrow>
             (if \<not> list_ex (\<lambda>m. byte m = 0) methods then ([socks5_reply 0xFF], SocksRefused, None)
              else
                (let (written, rest) = socks_connect env sniOnly remoteAddr c
                 in (map char_of [0x05, 0x00 :: nat] # written, rest))))))"

text \<open>What is served on the tunnel a SOCKS5 client has opened: the reader of the exchange is dropped.\<close>

definition socks_service :: "bool \<Rightarrow> socks_out \<Rightarrow> tunnel_service option" where
  "socks_service sniOnly out =
    (case out of SocksTunnel _ _ c \<Rightarrow> Some (serve_tunnel sniOnly (snd c)) | _ \<Rightarrow> None)"

text \<open>The first byte of a connection selects the protocol.\<close>

datatype tunnel_protocol = ProtoSocks | ProtoHttp | ProtoNone

definition handle_tunnel :: "conn \<Rightarrow> tunnel_protocol" where
  "handle_tunnel c =
    (case read_conn 1 c of
       None \<Rightarrow> ProtoNone
     | Some (first, _) \<Rightarrow> if byte (hd first) = 5 then ProtoSocks else ProtoHttp)"

section \<open>The server name (snipeek.go)\<close>

definition max_client_hello_bytes :: nat where
  "max_client_hello_bytes = 16384"

text \<open>
  One read of the recording connection for at most \<open>k\<close> bytes: the recorded bytes, the chunk
  delivered, and the chunks left. \<^const>\<open>None\<close> is an error.
\<close>

definition recording_read :: "nat \<Rightarrow> bytes \<Rightarrow> bytes list \<Rightarrow> (bytes \<times> bytes \<times> bytes list) option" where
  "recording_read k buf chunks =
    (if max_client_hello_bytes \<le> length buf then None
     else
       (case chunks of
          [] \<Rightarrow> None
        | c # cs \<Rightarrow>
          (let got = take k c; rest = drop k c in Some (buf @ got, got, if rest = [] then cs else rest # cs))))"

text \<open>
  The handshake reads with sizes \<open>ks\<close> until \<open>hello\<close> finds the server name in what was read. The
  result is the name, the bytes to replay and the chunks left.
\<close>

fun peek_sni :: "(bytes \<Rightarrow> string option) \<Rightarrow> nat list \<Rightarrow> bytes \<Rightarrow> bytes list \<Rightarrow> (string \<times> bytes \<times> bytes list) option" where
  "peek_sni hello ks buf chunks =
    (case hello buf of
       Some sni \<Rightarrow> Some (sni, buf, chunks)
     | None \<Rightarrow>
       (case ks of
          [] \<Rightarrow> None
        | k # ks \<Rightarrow>
          (case recording_read k buf chunks of
             None \<Rightarrow> None
           | Some (buf, _, chunks) \<Rightarrow> peek_sni hello ks buf chunks)))"

declare peek_sni.simps [simp del]

section \<open>Passthrough (sni\_passthrough.go)\<close>

definition sni_request :: "string \<Rightarrow> string \<Rightarrow> srequest" where
  "sni_request sni remoteAddr =
    \<lparr>r_method = [], r_host = sni,
     r_url = \<lparr>u_scheme = ''https'', u_host = sni, u_path = [], u_rawpath = [], u_rawquery = [], u_user = False\<rparr>,
     r_header = [], r_body = Buffered (new_buffered_body (Some empty_reader) 0), r_tls = None, r_remote = remoteAddr,
     r_content_length = 0, r_ctx = None\<rparr>"

definition sni_context :: "string \<Rightarrow> transform_context" where
  "sni_context sni =
    \<lparr>tc_sni = sni, tc_mode = ModeSNIOnly, tc_tunnel = None, tc_tunnel_admission = False, tc_body_capture = None,
     tc_annotations = []\<rparr>"

definition default_sni_upstream :: string where
  "default_sni_upstream = ''443''"

text \<open>
  \<open>dial\<close> says whether the connection to a host and port for a request, and the first write to it,
  succeed. The result has the address dialled, and the bytes that went upstream when the relay
  began and ran to the end of the client's stream.
\<close>

record 'f passthrough =
  ps_dialled :: "string option"
  ps_upstream :: "bytes option"
  ps_result :: "'f pipeline_result option"

definition serve_sni_passthrough ::
    "'f proxy_env \<Rightarrow> (string \<Rightarrow> srequest \<Rightarrow> bool) \<Rightarrow> string \<Rightarrow> (string \<times> bytes \<times> bytes list) option \<Rightarrow> 'f passthrough" where
  "serve_sni_passthrough env dial remoteAddr peek =
    (case peek of
       None \<Rightarrow> \<lparr>ps_dialled = None, ps_upstream = None, ps_result = None\<rparr>
     | Some (sni, peeked, chunks) \<Rightarrow>
       (let stop = (\<lambda>result. \<lparr>ps_dialled = None, ps_upstream = None, ps_result = Some result\<rparr>);
            req = sni_request sni remoteAddr; tctx = sni_context sni;
            result = initial_result req tctx
        in if \<not> pv_ready env then stop (mark_not_ready result)
           else if sni = [] then stop (result\<lparr>pr_action := ActionReject, pr_status := 400, pr_err := Some NoSni\<rparr>)
           else
             (let (_, req, traces, run) = process_request (pl_transforms (pv_pipeline env 0)) tctx req [];
                  result = result\<lparr>pr_requests := traces\<rparr>
              in case run of
                   RunError e \<Rightarrow>
                     stop (result\<lparr>pr_action := ActionContinue, pr_status := 502, pr_err := Some (TransformError e)\<rparr>)
                 | RunRespond resp \<Rightarrow>
                     stop (result\<lparr>pr_action := short_circuit_action traces, pr_status := p_status resp\<rparr>)
                 | RunPanic \<Rightarrow> stop result
                 | RunContinue \<Rightarrow>
                   (let address = join_host_port sni default_sni_upstream in
                    if \<not> dial address req
                    then \<lparr>ps_dialled = Some address, ps_upstream = None,
                      ps_result = Some (result\<lparr>pr_action := ActionContinue, pr_status := 502, pr_err := Some SendFailure\<rparr>)\<rparr>
                    else \<lparr>ps_dialled = Some address, ps_upstream = Some (peeked @ concat chunks),
                      ps_result = Some (result\<lparr>pr_action := ActionContinue, pr_status := 200\<rparr>)\<rparr>))))"

end
