(* ===== verification/Request_Path.thy ===== *)
theory Request_Path
  imports Allowlist Header_Transforms
begin

text \<open>
  The transforms modelled so far as links of the pipeline. Each of them leaves the target of
  the request alone and works on a body that can be rewound, so the contract of the pipeline
  holds for any sequence of them.
\<close>

definition policy_transform :: "'x transformer \<Rightarrow> bool" where
  "policy_transform t \<longleftrightarrow>
    (\<exists>a. t = allowlist_transform a) \<or> (\<exists>a. t = header_allowlist_transform a)
    \<or> (\<exists>gs. t = annotate_transform gs) \<or> (\<exists>e b. t = body_capture_transform e b)"

text \<open>The part of a request an allowlist decides on.\<close>

definition same_target ::
    "transform_context \<Rightarrow> 'x request \<Rightarrow> transform_context \<Rightarrow> 'x request \<Rightarrow> bool" where
  "same_target tctx0 req0 tctx req \<longleftrightarrow>
    r_host req = r_host req0 \<and> r_method req = r_method req0 \<and> r_url req = r_url req0
    \<and> r_tls req = r_tls req0 \<and> tc_tunnel tctx = tc_tunnel tctx0
    \<and> tc_tunnel_admission tctx = tc_tunnel_admission tctx0"

definition live_request :: "transform_context \<Rightarrow> 'x request \<Rightarrow> bool" where
  "live_request tctx req \<longleftrightarrow> (\<exists>b. r_body req = Buffered b \<and> bb_wf b \<and> bb_live b)"

lemma annotate_keeps [simp]:
  "tc_tunnel (annotate tctx k v) = tc_tunnel tctx"
  "tc_tunnel_admission (annotate tctx k v) = tc_tunnel_admission tctx"
  by (simp_all add: annotate_def)

lemma annotate_fold_keeps:
  "tc_tunnel (fold (annotate_header hdr) hs tctx) = tc_tunnel tctx
    \<and> tc_tunnel_admission (fold (annotate_header hdr) hs tctx) = tc_tunnel_admission tctx"
  by (induction hs arbitrary: tctx) (auto simp: annotate_header_def Let_def)

lemma annotate_groups_keep:
  "tc_tunnel (fold (\<lambda>g tctx. if P g then fold (annotate_header hdr) (cg_headers g) tctx else tctx) gs tctx)
      = tc_tunnel tctx
    \<and> tc_tunnel_admission (fold (\<lambda>g tctx. if P g then fold (annotate_header hdr) (cg_headers g) tctx else tctx) gs tctx)
      = tc_tunnel_admission tctx"
  by (induction gs arbitrary: tctx) (auto simp: annotate_fold_keeps)

lemma annotate_request_keeps:
  "annotate_request gs tctx req = (tctx', req', res) \<Longrightarrow>
    req' = req \<and> tc_tunnel tctx' = tc_tunnel tctx \<and> tc_tunnel_admission tctx' = tc_tunnel_admission tctx
    \<and> res = Done continue_result"
  using annotate_groups_keep [of "\<lambda>g. match_any_rule (cg_rules g) req" "r_header req" gs tctx]
  by (auto simp: annotate_request_def)

lemmas policy_request_defs = allowlist_transform_def header_allowlist_transform_def annotate_transform_def
  body_capture_transform_def allowlist_request_def header_allowlist_request_def body_capture_request_def

lemma policy_transform_target:
  assumes "policy_transform t" "same_target tctx0 req0 tctx req" "t_request t tctx req = (tctx', req', res)"
  shows "same_target tctx0 req0 tctx' req'"
  using assms(1) unfolding policy_transform_def
proof (elim disjE exE)
  fix gs
  assume "t = annotate_transform gs"
  with assms(2,3) annotate_request_keeps [of gs tctx req] show ?thesis
    by (auto simp: annotate_transform_def same_target_def)
qed (use assms(2,3) in \<open>auto simp: policy_request_defs same_target_def Let_def
      split: if_splits prod.splits option.splits read_outcome.splits\<close>)

lemma bb_read_all_keeps:
  assumes "bb_read_all b = (b', out)" "bb_wf b" "bb_live b"
  shows "bb_wf b' \<and> bb_live b' \<and> out \<noteq> ReadPanic"
  using assms
  by (auto simp: bb_read_all_def bb_buffer_def bb_wf_def bb_live_def
      split: if_splits prod.splits option.splits)

lemma policy_transform_live:
  assumes "policy_transform t" "live_request tctx req" "t_request t tctx req = (tctx', req', res)"
  shows "live_request tctx' req'" and "res \<noteq> Panicked"
proof -
  obtain b where b: "r_body req = Buffered b" "bb_wf b" "bb_live b" using assms(2) by (auto simp: live_request_def)
  obtain b' out where r: "bb_read_all b = (b', out)" by (metis prod.exhaust)
  note keeps = bb_read_all_keeps [OF r b(2,3)]
  from assms(1) have "live_request tctx' req' \<and> res \<noteq> Panicked"
    unfolding policy_transform_def
  proof (elim disjE exE)
    fix gs
    assume "t = annotate_transform gs"
    with assms(2,3) annotate_request_keeps [of gs tctx req] show ?thesis
      by (auto simp: annotate_transform_def live_request_def)
  next
    fix e c
    assume "t = body_capture_transform e c"
    with assms(2,3) keeps b r show ?thesis
      by (auto simp: policy_request_defs live_request_def require_buffered_body_def Let_def
          split: if_splits read_outcome.splits)
  qed (use assms(2,3) b in \<open>auto simp: policy_request_defs live_request_def Let_def
      split: if_splits prod.splits\<close>)
  then show "live_request tctx' req'" and "res \<noteq> Panicked" by auto
qed

interpretation target: request_contract "same_target tctx0 req0" policy_transform for tctx0 req0
proof
  show "same_target tctx0 req0 tctx' req'"
    if "policy_transform t" "same_target tctx0 req0 tctx req" "t_request t tctx req = (tctx', req', res)"
    for t :: "'a transformer" and tctx req tctx' req' res
    using that by (rule policy_transform_target)
qed (auto simp: same_target_def)

interpretation live: request_contract live_request policy_transform
proof
  show "live_request tctx' req'"
    if "policy_transform t" "live_request tctx req" "t_request t tctx req = (tctx', req', res)"
    for t :: "'a transformer" and tctx req tctx' req' res
    using that by (rule policy_transform_live)
qed (auto simp: live_request_def bb_reset_def bb_wf_def bb_live_def)

section \<open>What reaches the upstream\<close>

lemma allowlist_allowed_target:
  "same_target tctx0 req0 tctx req \<Longrightarrow> allowlist_allowed a tctx req = allowlist_allowed a tctx0 req0"
  by (simp add: same_target_def allowlist_allowed_def allowlist_authority_def matches_http_def
      cong: option.case_cong)

lemma allowlist_gate:
  assumes "list_all policy_transform ts" "\<not> al_warn a"
    and "process_request (ts @ allowlist_transform a # us) tctx req traces = (tctx', req', traces', RunContinue)"
  shows "allowlist_allowed a tctx req"
proof -
  obtain tctx1 req1 traces1 r where run: "process_request ts tctx req traces = (tctx1, req1, traces1, RunContinue)"
    and r: "snd (snd (t_request (allowlist_transform a) tctx1 req1)) = Done r" "res_action r = ActionContinue"
    using assms(3) by (rule process_request_continue_each)
  have "same_target tctx req tctx1 req1"
    by (rule target.process_request_keeps [OF assms(1) _ run]) (simp add: same_target_def)
  moreover have "allowlist_allowed a tctx1 req1"
    using r assms(2) by (auto simp: allowlist_transform_def allowlist_request_def reject_result_def split: if_splits)
  ultimately show ?thesis by (simp add: allowlist_allowed_target)
qed

text \<open>
  A request gets past a pipeline that holds an enforcing allowlist only if that allowlist
  admits the request as the client sent it: its own host and method and path, and for a
  request inside a tunnel the tunnel's target as its authority. Transforms placed before
  the allowlist cannot change the decision.
\<close>

theorem allowlist_default_deny:
  assumes "list_all policy_transform ts" "\<not> al_warn a"
    and "process_request (ts @ allowlist_transform a # us) tctx req [] = (tctx', req', traces, RunContinue)"
  shows "allowlist_authority tctx req
    \<and> (\<exists>rule \<in> set (al_rules a).
         if tc_tunnel_admission tctx then rule_matches_host (pr_rule rule) (strip_port (r_host req))
         else matches_http rule req (strip_port (r_host req)))"
  using allowlist_gate [OF assms] by (simp add: allowlist_allowed_iff)

definition sample_request :: "unit request" where
  "sample_request =
    \<lparr>r_method = ''GET'', r_host = ''api.example.com:443'',
     r_url = \<lparr>u_scheme = ''https'', u_host = ''api.example.com'', u_path = ''/v1/items'',
       u_rawpath = [], u_rawquery = [], u_user = False\<rparr>,
     r_header = [(''Accept'', [''text/plain'']), (''X-Debug'', [''1''])],
     r_body = Buffered (new_buffered_body (Some \<lparr>rd_content = ''x'', rd_fails = False\<rparr>) 0),
     r_tls = Some [], r_remote = [], r_content_length = 1, r_ctx = None\<rparr>"

definition sample_context :: transform_context where
  "sample_context =
    \<lparr>tc_sni = [], tc_mode = ModeMITM, tc_tunnel = None, tc_tunnel_admission = False,
     tc_body_capture = None, tc_annotations = []\<rparr>"

definition sample_allowlist :: allowlist where
  "sample_allowlist =
    \<lparr>al_rules = [\<lparr>pr_rule = \<lparr>rl_matcher = \<lparr>m_domains = [''*.example.com''], m_cidrs = []\<rparr>,
        rl_methods = Some [''GET''], rl_paths = Some [''/v1/*'']\<rparr>, pr_private = []\<rparr>], al_warn = False\<rparr>"

lemma sample_run:
  "snd (snd (snd (process_request ([annotate_transform []] @ allowlist_transform sample_allowlist # [])
     sample_context sample_request []))) = RunContinue"
  by code_simp

theorem allowlist_default_deny_witness:
  "\<exists>rule \<in> set (al_rules sample_allowlist). matches_http rule sample_request ''api.example.com''"
proof -
  obtain tctx' req' traces where "process_request ([annotate_transform []] @ allowlist_transform sample_allowlist # [])
      sample_context sample_request [] = (tctx', req', traces, RunContinue)"
    using sample_run by (metis prod.collapse)
  from allowlist_default_deny [OF _ _ this] have "\<exists>rule \<in> set (al_rules sample_allowlist).
      matches_http rule sample_request (strip_port (r_host sample_request))"
    by (auto simp: policy_transform_def sample_allowlist_def sample_context_def)
  moreover have "strip_port (r_host sample_request) = ''api.example.com''" by code_simp
  ultimately show ?thesis by simp
qed

text \<open>
  A pipeline of these transforms never panics on a request whose body is still attached
  or buffered, and hands on a request of that kind, whatever they decide.
\<close>

theorem policy_pipeline_safe:
  assumes "list_all policy_transform ts" "live_request tctx req"
    and "process_request ts tctx req traces = (tctx', req', traces', out)"
  shows "live_request tctx' req' \<and> out \<noteq> RunPanic"
proof
  show "live_request tctx' req'" by (rule live.process_request_keeps [OF assms])
  show "out \<noteq> RunPanic"
  proof (rule live.process_request_no_panic [OF _ _ assms])
    show "snd (snd (t_request t tctx req)) \<noteq> Panicked"
      if "policy_transform t" "live_request tctx req" for t :: "'a transformer" and tctx req
      using policy_transform_live(2) [OF that] by (metis prod.collapse)
  qed (auto simp: live_request_def)
qed

theorem policy_pipeline_safe_witness:
  "snd (snd (snd (process_request [body_capture_transform [] \<lparr>bcap_rules = [], bcap_max = 4\<rparr>,
      allowlist_transform sample_allowlist] sample_context sample_request []))) \<noteq> RunPanic"
proof -
  let ?ts = "[body_capture_transform [] \<lparr>bcap_rules = [], bcap_max = 4\<rparr>, allowlist_transform sample_allowlist]"
  obtain tctx' req' traces out where run:
    "process_request ?ts sample_context sample_request [] = (tctx', req', traces, out)"
    by (metis prod_cases4)
  have ts: "list_all policy_transform ?ts" by (auto simp: policy_transform_def)
  have "live_request sample_context sample_request"
    by (simp add: live_request_def sample_request_def new_buffered_body_def bb_wf_def bb_live_def)
  from policy_pipeline_safe [OF ts this run] show ?thesis by (simp only: run snd_conv simp_thms)
qed

end
