(* ===== verification/Proxy_Safety.thy ===== *)
theory Proxy_Safety
  imports Proxy_Tunnel Request_Path
begin

text \<open>
  What the handler guarantees: nothing reaches an upstream that has not passed every check, what
  is sent is what was decided on, and the audit record says what the client received.
\<close>

section \<open>The way to the upstream\<close>

lemma answer_simps [simp]:
  "hn_sends (answer c x) = []" "hn_dials (answer c x) = []" "hn_result (answer c x) = x" "hn_client (answer c x) = c"
  by (simp_all add: answer_def)

lemma with_sends_simps [simp]:
  "hn_sends (with_sends ss rp o') = ss" "hn_dials (with_sends ss rp o') = []"
  "hn_result (with_sends ss rp o') = Some (snd o')" "hn_client (with_sends ss rp o') = fst o'"
  by (simp_all add: with_sends_def)

text \<open>The request as the transforms get it.\<close>

definition wrapped_request :: "'f proxy_env \<Rightarrow> srequest \<Rightarrow> reader option \<Rightarrow> srequest" where
  "wrapped_request env r body =
    r\<lparr>r_body := Buffered (new_buffered_body body (bl_max_request (pl_body_limits (pv_pipeline env 0))))\<rparr>"

definition request_scheme :: "srequest \<Rightarrow> string" where
  "request_scheme r = (if r_tls r \<noteq> None then ''https'' else ''http'')"

definition entry_ok :: "'f proxy_env \<Rightarrow> srequest \<Rightarrow> bool" where
  "entry_ok env r \<longleftrightarrow>
    r_host r \<noteq> [] \<and> \<not> contains_dot_segments (u_path (r_url r)) \<and> sni_matches r \<and> pv_ready env"

lemma handle_http_contact:
  assumes "hn_sends (handle_http env r body tun) \<noteq> [] \<or> hn_dials (handle_http env r body tun) \<noteq> []"
  obtains tctx r1 traces result1 server r2 result where "entry_ok env r"
    and "process_request (pl_transforms (pv_pipeline env 0)) (request_context r tun) (wrapped_request env r body) []
      = (tctx, r1, traces, RunContinue)"
    and "mcp_stage env r1 result1 = (server, r2, result, McpPass)"
    and "handle_http env r body tun = forward env server (request_scheme r) (r_host r) tctx r2 result
      \<or> is_websocket_upgrade r2 \<and> (\<exists>h. handle_http env r body tun
          = handle_websocket env h (request_scheme r) (r_host r) tctx r2 (result\<lparr>pr_action := ActionContinue, pr_status := 101\<rparr>))"
proof -
  let ?out = "handle_http env r body tun" and ?r = "wrapped_request env r body" and ?c = "request_context r tun"
  from assms have e: "entry_ok env r" and
    run: "?out = run_transforms env (request_scheme r) ?c ?r (initial_result r ?c)"
    by (auto simp: handle_http_def entry_ok_def wrapped_request_def request_scheme_def Let_def split: if_splits)
  obtain tctx r1 traces out where p: "process_request (pl_transforms (pv_pipeline env 0)) ?c ?r [] = (tctx, r1, traces, out)"
    by (metis prod_cases4)
  let ?res = "(initial_result r ?c)\<lparr>pr_requests := traces, pr_capture := tc_body_capture tctx\<rparr>"
  let ?up = "if is_websocket_upgrade ?r then Some (r_header ?r) else None"
  have host: "r_host ?r = r_host r" by (simp add: wrapped_request_def)
  from assms have a: "out = RunContinue" "?out = after_transforms env ?up (request_scheme r) (r_host r) tctx r1 ?res"
    unfolding run by (auto simp: run_transforms_def p Let_def host split: run.splits)
  obtain server r2 result mo where m: "mcp_stage env r1 ?res = (server, r2, result, mo)" by (metis prod_cases4)
  from assms have "mo = McpPass \<and> (?out = forward env server (request_scheme r) (r_host r) tctx r2 result
      \<or> is_websocket_upgrade r2 \<and> (\<exists>h. ?out
          = handle_websocket env h (request_scheme r) (r_host r) tctx r2 (result\<lparr>pr_action := ActionContinue, pr_status := 101\<rparr>)))"
    unfolding a(2) by (auto simp: after_transforms_def m split: mcp_outcome.splits if_splits option.splits)
  with that e p a(1) m show thesis by blast
qed

section \<open>Sends and replays\<close>

lemma proxy_send_cases:
  assumes "proxy_send env i ob = (ss, res)"
  obtains e where "ss = []" "res = Inl (Refusal e)"
  | t where "ss = [(t, ob)]"
    "round_trip (pv_now env i) (pv_pipeline env i) (pv_proxied env) (ob_request ob) = Inr t"
  using assms by (auto simp: proxy_send_def split: sum.splits)

lemma prepare_replay_body_content:
  "prepare_replay_body b n l = Some (b', rb, rp) \<Longrightarrow> rd_content b' = rd_content b \<and> (rp \<longrightarrow> rb = rd_content b)"
  by (auto simp: prepare_replay_body_def read_all_limited_def split: if_splits)

lemma decide_replayable: "decide env service h req resp replayable = Retry d \<Longrightarrow> replayable"
  by (auto simp: decide_def accept_decision_def split: if_splits reply.splits option.splits)

text \<open>What the sends of one request have in common.\<close>

definition same_send :: "outbound \<Rightarrow> outbound \<Rightarrow> bool" where
  "same_send ob ob' \<longleftrightarrow>
    r_method (ob_request ob') = r_method (ob_request ob) \<and> r_url (ob_request ob') = r_url (ob_request ob)
    \<and> r_host (ob_request ob') = r_host (ob_request ob) \<and> r_ctx (ob_request ob') = r_ctx (ob_request ob)
    \<and> rd_content (ob_body ob') = rd_content (ob_body ob)"

text \<open>The two forms the sends of a request take.\<close>

definition sent_once :: "'f proxy_env \<Rightarrow> outbound \<Rightarrow> (transport \<times> outbound) list \<Rightarrow> bool" where
  "sent_once env ob ss \<longleftrightarrow>
    (\<exists>t ob1. ss = [(t, ob1)] \<and> same_send ob ob1
      \<and> round_trip (pv_now env 1) (pv_pipeline env 1) (pv_proxied env) (ob_request ob1) = Inr t)"

definition sent_twice :: "'f proxy_env \<Rightarrow> outbound \<Rightarrow> (transport \<times> outbound) list \<Rightarrow> bool" where
  "sent_twice env ob ss \<longleftrightarrow>
    (\<exists>t ob1 t2 h resp rbody d. ss = [(t, ob1), (t2, replay_outbound d (rd_content (ob_body ob1)) ob1)] \<and> same_send ob ob1
      \<and> round_trip (pv_now env 1) (pv_pipeline env 1) (pv_proxied env) (ob_request ob1) = Inr t
      \<and> round_trip (pv_now env 2) (pv_pipeline env 2) (pv_proxied env)
          (ob_request (replay_outbound d (rd_content (ob_body ob1)) ob1)) = Inr t2
      \<and> pv_retry env = Some h \<and> response_retry_eligible (ob_request ob) \<and> pv_send env 1 t ob1 = Some (resp, rbody)
      \<and> decide (pv_retry_env env) (pv_decide env) h (ob_request ob1) resp True = Retry d)"

lemma send_replay_sends:
  "hn_sends (send_replay env server h d rb ss tctx r ob result) = ss @ fst (proxy_send env 2 (replay_outbound d rb ob))"
  by (simp add: send_replay_def Let_def split: prod.splits sum.splits)

lemma sent_with_replay:
  assumes "round_trip (pv_now env 1) (pv_pipeline env 1) (pv_proxied env) (ob_request ob1) = Inr t" "same_send ob ob1"
    and "pv_retry env = Some h" "response_retry_eligible (ob_request ob)" "rb = rd_content (ob_body ob1)"
    and "decide (pv_retry_env env) (pv_decide env) h (ob_request ob1) resp True = Retry d"
    and "pv_send env 1 t ob1 = Some (resp, rbody)"
  defines "ss \<equiv> (t, ob1) # fst (proxy_send env 2 (replay_outbound d rb ob1))"
  shows "sent_once env ob ss \<or> sent_twice env ob ss"
proof -
  let ?again = "replay_outbound d rb ob1"
  obtain ss2 res2 where "proxy_send env 2 ?again = (ss2, res2)" by (metis prod.exhaust)
  then show ?thesis
  proof (cases rule: proxy_send_cases)
    case (1 e)
    with \<open>proxy_send env 2 ?again = (ss2, res2)\<close> have "ss = [(t, ob1)]" by (simp add: ss_def)
    with assms(1,2) show ?thesis by (auto simp: sent_once_def)
  next
    case (2 t2)
    with \<open>proxy_send env 2 ?again = (ss2, res2)\<close> have "ss = [(t, ob1), (t2, ?again)]" by (simp add: ss_def)
    with 2(2) assms(1-7) have "sent_twice env ob ss" unfolding sent_twice_def by blast
    then show ?thesis ..
  qed
qed

text \<open>The send path after the body has been prepared.\<close>

lemma send_upstream_prepared:
  obtains "hn_sends (send_upstream env server tctx r ob result) = []"
  | ob1 rb rp where "same_send ob ob1" "rp \<Longrightarrow> rb = rd_content (ob_body ob1)"
    "send_upstream env server tctx r ob result =
      (let (sends, res) = proxy_send env 1 ob1 in
       case res of
         Inl e \<Rightarrow> with_sends sends None (failed env StageSend e result)
       | Inr (resp, rbody) \<Rightarrow>
         (case (case retry_handler env ob of None \<Rightarrow> NoRetry
                | Some h \<Rightarrow> decide (pv_retry_env env) (pv_decide env) h (ob_request ob1) resp rp) of
            Retry d \<Rightarrow> send_replay env server (the (retry_handler env ob)) d rb sends tctx r ob1 result
          | _ \<Rightarrow> with_sends sends None (respond env server tctx r (ob_request ob1) resp rbody result)))"
proof -
  let ?prep = "case retry_handler env ob of None \<Rightarrow> Some (ob_body ob, [], False)
      | Some _ \<Rightarrow> prepare_replay_body (ob_body ob) (r_content_length (ob_request ob))
          (bl_max_request (pl_body_limits (pv_pipeline env 0)))"
  consider "?prep = None" | b rb rp where "?prep = Some (b, rb, rp)" by (metis not_None_eq prod_cases3)
  then show thesis
  proof cases
    case 1
    then have "hn_sends (send_upstream env server tctx r ob result) = []"
      by (auto simp: send_upstream_def Let_def)
    then show thesis by (rule that(1))
  next
    case (2 b rb rp)
    let ?ob1 = "\<lparr>ob_request = (if rp then (ob_request ob)\<lparr>r_content_length := int (length rb)\<rparr> else ob_request ob),
        ob_body = b\<rparr>"
    from 2 prepare_replay_body_content [of "ob_body ob" _ _ b rb rp]
    have c: "rd_content b = rd_content (ob_body ob)" "rp \<Longrightarrow> rb = rd_content b" by (auto split: option.splits)
    show thesis
    proof (rule that(2) [of ?ob1 rp rb])
      show "same_send ob ?ob1" using c(1) by (simp add: same_send_def)
      show "rp \<Longrightarrow> rb = rd_content (ob_body ?ob1)" using c(2) by simp
    qed (use 2 in \<open>simp add: send_upstream_def Let_def\<close>)
  qed
qed

lemma send_upstream_sends:
  assumes "hn_sends (send_upstream env server tctx r ob result) = ss"
  shows "ss = [] \<or> sent_once env ob ss \<or> sent_twice env ob ss"
proof (rule send_upstream_prepared [of env server tctx r ob result])
  fix ob1 :: outbound and rb rp
  let ?retry = "retry_handler env ob"
  let ?dec = "\<lambda>resp. case ?retry of None \<Rightarrow> NoRetry
      | Some h \<Rightarrow> decide (pv_retry_env env) (pv_decide env) h (ob_request ob1) resp rp"
  assume same: "same_send ob ob1" and rb: "rp \<Longrightarrow> rb = rd_content (ob_body ob1)"
    and up: "send_upstream env server tctx r ob result = (let (sends, res) = proxy_send env 1 ob1 in
       case res of
         Inl e \<Rightarrow> with_sends sends None (failed env StageSend e result)
       | Inr (resp, rbody) \<Rightarrow>
         (case ?dec resp of
            Retry d \<Rightarrow> send_replay env server (the ?retry) d rb sends tctx r ob1 result
          | _ \<Rightarrow> with_sends sends None (respond env server tctx r (ob_request ob1) resp rbody result)))"
  obtain ss1 res where s: "proxy_send env 1 ob1 = (ss1, res)" by (metis prod.exhaust)
  show ?thesis
  proof (cases "\<exists>resp rbody d. res = Inr (resp, rbody) \<and> ?dec resp = Retry d")
    case False
    then have "ss = ss1" using assms up s by (auto split: sum.splits prod.splits retry_outcome.splits)
    with s same show ?thesis by (auto simp: sent_once_def elim: proxy_send_cases)
  next
    case True
    then obtain resp rbody d where d: "res = Inr (resp, rbody)" "?dec resp = Retry d" by blast
    then obtain h where h: "?retry = Some h" by (auto split: option.splits)
    with d have dec: "decide (pv_retry_env env) (pv_decide env) h (ob_request ob1) resp rp = Retry d" by simp
    note rp = decide_replayable [OF dec]
    from s d(1) obtain t where t: "ss1 = [(t, ob1)]"
      "round_trip (pv_now env 1) (pv_pipeline env 1) (pv_proxied env) (ob_request ob1) = Inr t"
      "pv_send env 1 t ob1 = Some (resp, rbody)"
      by (auto simp: proxy_send_def split: sum.splits option.splits)
    have "ss = (t, ob1) # fst (proxy_send env 2 (replay_outbound d rb ob1))"
      using assms up s d h t by (simp add: send_replay_sends)
    moreover have "pv_retry env = Some h" "response_retry_eligible (ob_request ob)" using h by (auto simp: retry_handler_def split: if_splits)
    ultimately show ?thesis using sent_with_replay [OF t(2) same _ _ rb _ t(3)] dec rp by simp
  qed
qed (use assms in simp)

section \<open>Where a request goes\<close>

lemma evaluate_request_keeps:
  assumes "evaluate_request env p s req tr = (req', tr', out)"
  shows "r_url req' = r_url req" "r_host req' = r_host req" "r_method req' = r_method req" "r_ctx req' = r_ctx req"
    "r_header req' = r_header req" "r_content_length req' = r_content_length req"
  using assms
  by (auto simp: evaluate_request_def Let_def split: option.splits if_splits body.splits prod.splits read_outcome.splits)

lemma mcp_stage_keeps:
  assumes "mcp_stage env r result1 = (server, r2, result, out)"
  shows "r_url r2 = r_url r" "r_host r2 = r_host r" "r_method r2 = r_method r" "r_ctx r2 = r_ctx r"
  using assms evaluate_request_keeps
  by (auto simp: mcp_stage_def Let_def split: option.splits prod.splits)

text \<open>The URL a request is sent to: the client's own, or the upstream of a gateway route.\<close>

definition destination_of :: "'f proxy_env \<Rightarrow> string \<Rightarrow> string \<Rightarrow> srequest \<Rightarrow> parsed_url \<Rightarrow> bool" where
  "destination_of env scheme host r w \<longleftrightarrow>
    w = upstream_url scheme host r
    \<or> (\<exists>route q. match_route (pv_gateway env) r = Some route \<and> w = (gr_upstream route)\<lparr>u_rawquery := q\<rparr>)"

lemma gateway_stage_target:
  assumes "gateway_stage env server r result = Inr (r', result', target)"
  shows "\<exists>w. destination_of env scheme host r w
      \<and> (if target = [] then url_string (upstream_url scheme host r') else target) = url_string w
    \<and> r_method r' = r_method r \<and> r_body r' = r_body r \<and> r_ctx r' = r_ctx r"
proof (cases "server = None \<or> match_route (pv_gateway env) r = None")
  case True
  with assms have "r' = r" "target = []" by (auto simp: gateway_stage_def split: if_splits option.splits)
  then show ?thesis by (auto simp: destination_of_def)
next
  case False
  then obtain route where m: "server \<noteq> None" "match_route (pv_gateway env) r = Some route" by auto
  with assms obtain ap where ap: "route_apply route r = Inr (r', ap)" "target = ap_request_url ap"
    by (auto simp: gateway_stage_def split: sum.splits if_splits)
  then obtain ids where ids: "apply_credentials (gr_credentials route) r [] = Inr (r', ids)"
    by (auto simp: route_apply_def Let_def split: sum.splits)
  from ap ids have "target = url_string ((gr_upstream route)\<lparr>u_rawquery :=
      merge_raw_query (u_rawquery (gr_upstream route)) (u_rawquery (r_url r'))\<rparr>)"
    by (auto simp: route_apply_def Let_def)
  moreover have "url_string w \<noteq> []" for w by (simp add: url_string_def)
  ultimately show ?thesis using m(2) apply_credentials_keeps [OF ids] unfolding destination_of_def by auto
qed

lemma forward_send:
  assumes "hn_sends (forward env server scheme host tctx r result) = ss" "ss \<noteq> []"
  obtains w meth u body ob r' result' where "destination_of env scheme host r w"
    and "new_request_line (r_method r) (url_string w) = Some (meth, u)" "r_body r = Buffered body"
    and "ob_request ob = upstream_request meth (url.truncate u) r' (bb_len body)" "r_ctx r' = r_ctx r"
    and "ob_body ob = snd (streaming_reader body)" "validate_final_destination (pv_now env 0) (ob_request ob)"
    and "sent_once env ob ss \<or> sent_twice env ob ss"
proof -
  from assms obtain r' result' target where g: "gateway_stage env server r result = Inr (r', result', target)"
    by (auto simp: forward_def split: sum.splits)
  let ?raw = "if target = [] then url_string (upstream_url scheme host r') else target"
  from gateway_stage_target [OF g, of scheme host] obtain w where w: "destination_of env scheme host r w"
    "?raw = url_string w" and k: "r_method r' = r_method r" "r_body r' = r_body r" "r_ctx r' = r_ctx r" by blast
  from assms g k obtain body where b: "r_body r = Buffered body"
    by (cases "r_body r") (auto simp: forward_def require_buffered_body_def Let_def)
  obtain b' reader where sr: "streaming_reader body = (b', reader)" by (metis prod.exhaust)
  from assms g k b sr w(2) obtain meth u where n: "new_request_line (r_method r) (url_string w) = Some (meth, u)"
    by (auto simp: forward_def require_buffered_body_def Let_def split: option.splits)
  let ?ob = "\<lparr>ob_request = upstream_request meth (url.truncate u) r' (bb_len body), ob_body = reader\<rparr>"
  from assms g k b sr w(2) n have v: "validate_final_destination (pv_now env 0) (ob_request ?ob)"
    and ss: "hn_sends (send_upstream env server tctx (r'\<lparr>r_body := Buffered b'\<rparr>) ?ob result') = ss"
    by (auto simp: forward_def require_buffered_body_def Let_def split: if_splits)
  from send_upstream_sends [OF ss] assms(2) show thesis
    by (intro that [OF w(1) n b, of ?ob r']) (use k v sr in auto)
qed

lemma new_request_line_string:
  assumes "new_request_line m (url_string w) = Some (meth, u)" "u_scheme w \<in> {''http'', ''https''}"
  shows "u_host u = remove_empty_port (u_host w)" "u_scheme u = u_scheme w" "meth = (if m = [] then ''GET'' else m)"
    "escaped_path (u_path u) (u_rawpath u) = rooted_path (escaped_path (u_path w) (u_rawpath w))"
    "u_rawquery u = fst (cut_char CHR ''#'' (u_rawquery w))" "u_user u \<longleftrightarrow> pu_user w \<noteq> None"
proof -
  from assms(1) obtain v where v: "url_parse (url_string w) = Some v"
    "u = v\<lparr>u_host := remove_empty_port (u_host v)\<rparr>" "meth = (if m = [] then ''GET'' else m)"
    by (auto simp: new_request_line_def Let_def split: if_splits)
  from url_parse_string [OF assms(2) v(1)] v(2,3)
  show "u_host u = remove_empty_port (u_host w)" "u_scheme u = u_scheme w" "meth = (if m = [] then ''GET'' else m)"
    "escaped_path (u_path u) (u_rawpath u) = rooted_path (escaped_path (u_path w) (u_rawpath w))"
    "u_rawquery u = fst (cut_char CHR ''#'' (u_rawquery w))" "u_user u \<longleftrightarrow> pu_user w \<noteq> None" by simp_all
qed

end
