(* ===== verification/Mcp_Safety.thy ===== *)
theory Mcp_Safety
  imports Mcp_Filter
begin

text \<open>
  What the MCP interceptor guarantees: a compiled policy is well formed, a request that passes
  calls only tools the configuration lists with arguments that meet its constraints, every
  message leaves its entry in the audit record, and the record bounds what it keeps of the
  arguments. One theorem shows where the decoder and a server may read a body differently.
\<close>

section \<open>A policy and its requests\<close>

text \<open>Texts are written with a backquote for the double quote.\<close>

definition json_text :: "string \<Rightarrow> string" where
  "json_text s = map (\<lambda>c. if c = CHR 0x60 then CHR 0x22 else c) s"

definition int_env :: "int json_env" where
  "int_env = \<lparr>je_float = atoi, je_format = itoa, je_of_int = (\<lambda>i. i), je_eq = (=)\<rparr>"

definition search_config :: "int mcp_config" where
  "search_config =
    \<lparr>mc_code = None, mc_message = None, mc_servers = [\<lparr>svc_name = ''docs'',
       svc_rules = [\<lparr>rc_host = ''mcp.example.com'', rc_cidr = [], rc_methods = [], rc_paths = [], rc_private = []\<rparr>],
       svc_tools = [\<lparr>tlc_name = ''search'', tlc_when = [\<lparr>cc_path = ''limit'', cc_equals = GInt 5, cc_in = None, cc_matches = []\<rparr>]\<rparr>]\<rparr>]\<rparr>"

definition search_server :: "int server" where
  "search_server =
    \<lparr>sv_name = ''docs'', sv_rules = [\<lparr>rl_matcher = \<lparr>m_domains = [''mcp.example.com''], m_cidrs = []\<rparr>, rl_methods = None, rl_paths = None\<rparr>],
     sv_tools = [(''search'', [\<lparr>cl_path = [''limit''], cl_test = TestEquals (GFloat 5)\<rparr>])], sv_allowed = [''search'']\<rparr>"

definition search_policy :: "int mcp_policy" where
  "search_policy = \<lparr>po_code = -32001, po_message = ''blocked by iron-proxy policy'', po_servers = [search_server]\<rparr>"

definition rpc_request :: "string \<Rightarrow> unit request" where
  "rpc_request body =
    \<lparr>r_method = ''POST'', r_host = ''mcp.example.com'',
     r_url = \<lparr>u_scheme = ''https'', u_host = ''mcp.example.com'', u_path = ''/mcp'', u_rawpath = [], u_rawquery = [], u_user = False\<rparr>,
     r_header = [], r_body = Buffered (new_buffered_body_from_bytes body), r_tls = None, r_remote = [],
     r_content_length = int (length body), r_ctx = None\<rparr>"

definition search_call :: string where
  "search_call = json_text ''{`id`:1,`method`:`tools/call`,`params`:{`name`:`search`,`arguments`:{`limit`:5}}}''"

lemma search_compiles: "mcp_compile int_env (\<lambda>_. None) search_config = Inr (Some search_policy)"
  by (simp add: mcp_compile_def search_config_def search_policy_def search_server_def compile_clause_def
      normalize_json_scalar_def int_env_def split_path_def compile_rules_def compile_rule_def new_matcher_def
      is_wildcard_def default_error_code_def default_error_message_def map_get_def map_set_def map_keys_def Let_def)

lemma search_call_decodes:
  "decode_jsonrpc search_call = (Some [empty_message\<lparr>rm_id := ''1'', rm_method := ''tools/call'',
    rm_params := json_text ''{`name`:`search`,`arguments`:{`limit`:5}}''\<rparr>], False)"
  by code_simp

lemma search_call_entry:
  "call_entry int_env search_server (empty_message\<lparr>rm_id := ''1'', rm_method := ''tools/call'',
    rm_params := json_text ''{`name`:`search`,`arguments`:{`limit`:5}}''\<rparr>)
   = Some ((request_entry ''tools/call'')\<lparr>ms_tool := ''search'', ms_arguments := GMap [(''limit'', GFloat 5)]\<rparr>, False)"
proof -
  have "extract_tool_call_name int_env (json_text ''{`name`:`search`,`arguments`:{`limit`:5}}'')
      = Some (''search'', GMap [(''limit'', GFloat 5)], json_text ''{`limit`:5}'')"
    "encode_arguments int_env (json_text ''{`limit`:5}'') = (GMap [(''limit'', GFloat 5)], [])" by code_simp+
  then show ?thesis
    by (simp add: call_entry_def evaluate_tool_def search_server_def map_get_def clause_evaluate_def
        json_scalar_equals_def normalize_json_scalar_def int_env_def empty_message_def request_entry_def)
qed

lemma search_call_passes:
  "snd (snd (evaluate_request int_env (Some search_policy) (Some search_server) (rpc_request search_call) tr)) = McpPass"
  by (simp add: evaluate_request_def rpc_request_def bb_simps evaluate_body_def search_call_decodes
      search_call_entry method_tools_call_def split: prod.splits)

section \<open>Compilation\<close>

text \<open>
  What a configuration asks of its server \<open>sc\<close>, and the server compiled from it: the rules, the
  tools in order under distinct names with their compiled clauses, and the set of these names.
\<close>

definition server_wf :: "'f json_env \<Rightarrow> regexp_compile \<Rightarrow> 'f server_config \<Rightarrow> 'f server \<Rightarrow> bool" where
  "server_wf env compile sc s \<longleftrightarrow>
    sv_name s = svc_name sc \<and> svc_name sc \<noteq> []
    \<and> svc_rules sc \<noteq> [] \<and> compile_rules (svc_rules sc) = Inr (sv_rules s)
    \<and> distinct (map tlc_name (svc_tools sc)) \<and> [] \<notin> set (map tlc_name (svc_tools sc))
    \<and> list_all2 (\<lambda>tc (name, cs). name = tlc_name tc
        \<and> compile_clauses env compile (svc_name sc) name 0 (tlc_when tc) = Inr cs) (svc_tools sc) (sv_tools s)
    \<and> sv_allowed s = map tlc_name (svc_tools sc)"

lemma compile_tools_exact:
  "compile_tools env compile sv j tcs m (map_keys m) = Inr (m', names) \<Longrightarrow>
    \<exists>new. m' = m @ new \<and> names = map_keys m' \<and> distinct (map tlc_name tcs) \<and> [] \<notin> set (map tlc_name tcs)
      \<and> set (map tlc_name tcs) \<inter> set (map_keys m) = {}
      \<and> list_all2 (\<lambda>tc (name, cs). name = tlc_name tc
          \<and> compile_clauses env compile sv name 0 (tlc_when tc) = Inr cs) tcs new"
proof (induction tcs arbitrary: j m)
  case (Cons tc tcs)
  let ?n = "tlc_name tc"
  from Cons.prems obtain cs where n: "?n \<noteq> []" "?n \<notin> set (map_keys m)"
    and cs: "compile_clauses env compile sv ?n 0 (tlc_when tc) = Inr cs"
    and rest: "compile_tools env compile sv (Suc j) tcs (map_set m ?n cs) (map_keys m @ [?n]) = Inr (m', names)"
    by (auto simp: map_get_None_iff split: if_splits sum.splits)
  have set: "map_set m ?n cs = m @ [(?n, cs)]" using n(2) by (simp add: map_set_fresh map_get_None_iff)
  then have keys: "map_keys m @ [?n] = map_keys (map_set m ?n cs)" by (simp add: map_keys_def)
  from Cons.IH [OF rest [unfolded keys]] obtain new where
    "m' = map_set m ?n cs @ new" "names = map_keys m'" "distinct (map tlc_name tcs)" "[] \<notin> set (map tlc_name tcs)"
    "set (map tlc_name tcs) \<inter> set (map_keys m @ [?n]) = {}"
    "list_all2 (\<lambda>tc (name, cs). name = tlc_name tc
        \<and> compile_clauses env compile sv name 0 (tlc_when tc) = Inr cs) tcs new"
    unfolding keys by blast
  with n cs set show ?case by (intro exI [of _ "(?n, cs) # new"]) auto
qed simp

lemma compiled_tool_names:
  "list_all2 (\<lambda>tc (name, cs). name = tlc_name tc \<and> P tc name cs) tcs m \<Longrightarrow> map_keys m = map tlc_name tcs"
  by (induction rule: list_all2_induct) (auto simp: map_keys_def)

lemma compile_servers_wf:
  "compile_servers env compile i seen scs = Inr svs \<Longrightarrow>
    list_all2 (server_wf env compile) scs svs \<and> distinct (map svc_name scs) \<and> set (map svc_name scs) \<inter> set seen = {}"
proof (induction scs arbitrary: i seen svs)
  case (Cons sc scs)
  from Cons.prems obtain rules tools names rest where
    c: "svc_name sc \<noteq> []" "svc_name sc \<notin> set seen" "svc_rules sc \<noteq> []" "compile_rules (svc_rules sc) = Inr rules"
      "compile_servers env compile (Suc i) (svc_name sc # seen) scs = Inr rest"
    and t: "compile_tools env compile (svc_name sc) 0 (svc_tools sc) [] [] = Inr (tools, names)"
    and svs: "svs = \<lparr>sv_name = svc_name sc, sv_rules = rules, sv_tools = tools, sv_allowed = names\<rparr> # rest"
    by (auto split: if_splits sum.splits)
  have "server_wf env compile sc (hd svs)"
    using compile_tools_exact [of env compile "svc_name sc" 0 "svc_tools sc" "[]" tools names] t c svs compiled_tool_names
    by (fastforce simp: server_wf_def map_keys_def)
  with Cons.IH [OF c(5)] c(2) svs show ?case by auto
qed simp

text \<open>
  C34: A policy that compiles has at least one server, the servers of the configuration in order,
  with distinct names. Every server has a name and rules, the compiled rules of its
  configuration, and one entry for each configured tool, in order, with the compiled clauses of
  that tool; the names of the tools are distinct and not empty, and the cached set of allowed
  names consists of exactly these names. The error code and message are the configured ones or
  the defaults.
\<close>

theorem mcp_compile_wf:
  assumes "mcp_compile env compile c = Inr (Some p)"
  shows "list_all2 (server_wf env compile) (mc_servers c) (po_servers p) \<and> distinct (map svc_name (mc_servers c))
    \<and> po_servers p \<noteq> []
    \<and> po_code p = (case mc_code c of Some n \<Rightarrow> n | None \<Rightarrow> default_error_code)
    \<and> po_message p = (case mc_message c of Some m \<Rightarrow> m | None \<Rightarrow> default_error_message)"
proof -
  from assms have c: "mc_servers c \<noteq> []" "compile_servers env compile 0 [] (mc_servers c) = Inr (po_servers p)"
    "po_code p = (case mc_code c of Some n \<Rightarrow> n | None \<Rightarrow> default_error_code)"
    "po_message p = (case mc_message c of Some m \<Rightarrow> m | None \<Rightarrow> default_error_message)"
    by (auto simp: mcp_compile_def split: if_splits sum.splits)
  from compile_servers_wf [OF c(2)] c(1,3,4) show ?thesis by auto
qed

theorem mcp_compile_wf_witness:
  "list_all2 (server_wf int_env (\<lambda>_. None)) (mc_servers search_config) [search_server]"
  using mcp_compile_wf [OF search_compiles] by (simp add: search_policy_def)

text \<open>What a clause and a tool of the configuration ask of the arguments.\<close>

definition clause_met :: "'f json_env \<Rightarrow> regexp_compile \<Rightarrow> 'f clause_config \<Rightarrow> 'f gval \<Rightarrow> bool" where
  "clause_met env compile cc args \<longleftrightarrow>
    (\<exists>v. resolve_path args (split_path (cc_path cc)) = Some v \<and>
      (cc_equals cc \<noteq> GNil \<and> json_scalar_equals env v (cc_equals cc) = Some True
       \<or> (\<exists>vs. cc_in cc = Some vs \<and> (\<exists>w \<in> set vs. json_scalar_equals env v w = Some True))
       \<or> (\<exists>re s. compile (cc_matches cc) = Some re \<and> v = GStr s \<and> re s)))"

definition call_permitted :: "'f json_env \<Rightarrow> regexp_compile \<Rightarrow> 'f server_config \<Rightarrow> string \<Rightarrow> 'f gval \<Rightarrow> bool" where
  "call_permitted env compile sc name args \<longleftrightarrow>
    (\<exists>tc \<in> set (svc_tools sc). tlc_name tc = name \<and> (\<forall>cc \<in> set (tlc_when tc). clause_met env compile cc args))"

lemma normalize_idem [simp]: "normalize_json_scalar env (normalize_json_scalar env v) = normalize_json_scalar env v"
  by (simp add: normalize_json_scalar_def split: gval.splits)

lemma json_scalar_equals_normalize [simp]:
  "json_scalar_equals env a (normalize_json_scalar env b) = json_scalar_equals env a b"
  by (simp add: json_scalar_equals_def)

lemma any_equals_True: "any_equals env v ws = Some True \<Longrightarrow> \<exists>w \<in> set ws. json_scalar_equals env v w = Some True"
  by (induction ws) (auto split: option.splits bool.splits)

lemma compile_clause_met:
  assumes "compile_clause env compile sv tool i cc = Inr c" "clause_evaluate env c args = Some True"
  shows "clause_met env compile cc args"
proof -
  from assms(1) have path: "cl_path c = split_path (cc_path cc)"
    by (auto simp: compile_clause_def Let_def split: if_splits option.splits)
  from assms(2) path obtain v where v: "resolve_path args (split_path (cc_path cc)) = Some v"
    by (auto simp: clause_evaluate_def split: option.splits)
  from assms v path show ?thesis
    by (auto simp: compile_clause_def clause_evaluate_def clause_met_def Let_def
        dest!: any_equals_True split: if_splits option.splits gval.splits) blast
qed

lemma compile_clauses_met:
  "\<lbrakk>compile_clauses env compile sv tool i ccs = Inr cs; clauses_hold env cs args = Some True\<rbrakk> \<Longrightarrow>
    \<forall>cc \<in> set ccs. clause_met env compile cc args"
proof (induction ccs arbitrary: i cs)
  case (Cons cc ccs)
  from Cons.prems(1) obtain c cs' where c: "compile_clause env compile sv tool i cc = Inr c" "cs = c # cs'"
    "compile_clauses env compile sv tool (Suc i) ccs = Inr cs'" by (auto split: sum.splits)
  with Cons.prems(2) have "clause_evaluate env c args = Some True" "clauses_hold env cs' args = Some True"
    by (auto split: option.splits if_splits)
  with c Cons.IH compile_clause_met show ?case by fastforce
qed simp

lemma compiled_tool_lookup:
  "\<lbrakk>list_all2 (\<lambda>tc (name, cs). name = tlc_name tc \<and> P tc name cs) tcs m; map_get m name = Some cs\<rbrakk> \<Longrightarrow>
    \<exists>tc \<in> set tcs. tlc_name tc = name \<and> P tc name cs"
  unfolding map_get_def by (induction rule: list_all2_induct) (auto split: if_splits)

lemma compile_servers_config:
  assumes "compile_servers env compile i seen scs = Inr svs" "s \<in> set svs"
  shows "\<exists>sc \<in> set scs. server_wf env compile sc s"
proof -
  from compile_servers_wf [OF assms(1)] have "list_all2 (server_wf env compile) scs svs" by blast
  then show ?thesis using assms(2) by (induction rule: list_all2_induct) auto
qed

lemma evaluate_tool_permitted:
  assumes "server_wf env compile sc s" "evaluate_tool env s name args = Some (True, why)"
  shows "call_permitted env compile sc name args"
proof -
  from assms(2) obtain cs where cs: "map_get (sv_tools s) name = Some cs" "clauses_hold env cs args = Some True"
    by (auto simp: evaluate_tool_def split: option.splits if_splits)
  let ?P = "\<lambda>tc name cs. compile_clauses env compile (svc_name sc) name 0 (tlc_when tc) = Inr cs"
  from assms(1) have "list_all2 (\<lambda>tc (name, cs). name = tlc_name tc \<and> ?P tc name cs) (svc_tools sc) (sv_tools s)"
    by (simp add: server_wf_def)
  from compiled_tool_lookup [OF this cs(1)] obtain tc where
    "tc \<in> set (svc_tools sc)" "tlc_name tc = name" "compile_clauses env compile (svc_name sc) name 0 (tlc_when tc) = Inr cs"
    by blast
  with compile_clauses_met [OF this(3) cs(2)] show ?thesis by (auto simp: call_permitted_def)
qed

section \<open>Requests\<close>

text \<open>A call of the message that the server's tools admit.\<close>

definition call_admitted :: "'f json_env \<Rightarrow> 'f server \<Rightarrow> rpc_message \<Rightarrow> bool" where
  "call_admitted env server m \<longleftrightarrow>
    (\<exists>name args raw why. extract_tool_call_name env (rm_params m) = Some (name, args, raw)
      \<and> evaluate_tool env server name args = Some (True, why))"

lemma call_entry_admitted:
  "call_entry env server m = Some (entry, denied) \<Longrightarrow>
    ms_method entry = rm_method m \<and> ms_direction entry = DirectionRequest
    \<and> (denied \<longleftrightarrow> ms_decision entry = DecisionDeny) \<and> (\<not> denied \<longrightarrow> ms_decision entry = DecisionAllow)
    \<and> (denied \<longleftrightarrow> \<not> call_admitted env server m)"
  by (auto simp: call_entry_def call_admitted_def request_entry_def Let_def split: option.splits prod.splits bool.splits)



lemma evaluate_messages_deny: "evaluate_messages env server ms tr True \<noteq> (tr', Some False)"
  by (induction ms arbitrary: tr) (auto split: option.splits)

lemma evaluate_messages_pass:
  "evaluate_messages env server ms tr deny = (tr', Some False) \<Longrightarrow>
    \<forall>m \<in> set ms. rm_method m = method_tools_call \<longrightarrow> call_admitted env server m"
proof (induction ms arbitrary: tr deny)
  case (Cons m ms)
  show ?case
  proof (cases "rm_method m = method_tools_call")
    case True
    with Cons.prems obtain entry denied where e: "call_entry env server m = Some (entry, denied)"
      and r: "evaluate_messages env server ms (trace_append tr entry) (deny \<or> denied) = (tr', Some False)"
      by (auto split: option.splits)
    from r evaluate_messages_deny [of env server ms "trace_append tr entry" tr'] have "\<not> denied" by auto
    with call_entry_admitted [OF e] Cons.IH [OF r] show ?thesis by auto
  next
    case False
    with Cons show ?thesis by auto
  qed
qed simp

lemma match_serverD:
  assumes "match_server (Some p) req = Some s"
  shows "s \<in> set (po_servers p)
    \<and> list_ex (\<lambda>r. rule_matches r (strip_port (r_host req)) (r_method req) (u_path (r_url req))) (sv_rules s)"
  using assms by (auto simp: match_server_def Let_def find_Some_iff in_set_conv_nth)

lemma evaluate_body_pass:
  assumes "evaluate_body env p s n body tr = (tr', McpPass)"
  shows "\<exists>msgs b. decode_jsonrpc body = (Some msgs, b)
    \<and> (\<forall>m \<in> set msgs. rm_method m = method_tools_call \<longrightarrow> call_admitted env s m)"
  using assms evaluate_messages_pass
  by (fastforce simp: evaluate_body_def split: if_splits prod.splits option.splits)

text \<open>
  C15: A POST request that the interceptor lets pass to a server of the policy has a body that
  decodes, and every call in it names a tool that the configuration of a server with matching
  rules lists, with arguments that meet every constraint written there. The body that goes
  upstream is the one that was inspected.
\<close>

theorem mcp_allows_only_listed:
  assumes "mcp_compile env compile c = Inr (Some p)" "match_server (Some p) req = Some s"
    and "r_method req = ''POST''" "evaluate_request env (Some p) (Some s) req tr = (req', tr', McpPass)"
  shows "\<exists>sc \<in> set (mc_servers c). sv_name s = svc_name sc \<and> (\<exists>bb bb' body msgs b.
      r_body req = Buffered bb \<and> bb_read_all bb = (bb', ReadData body) \<and> r_body req' = Buffered (bb_reset bb')
      \<and> decode_jsonrpc body = (Some msgs, b)
      \<and> (\<forall>m \<in> set msgs. rm_method m = method_tools_call \<longrightarrow>
          (\<exists>name args raw. extract_tool_call_name env (rm_params m) = Some (name, args, raw)
            \<and> call_permitted env compile sc name args)))"
proof -
  from assms(1) have "compile_servers env compile 0 [] (mc_servers c) = Inr (po_servers p)"
    by (auto simp: mcp_compile_def split: if_splits sum.splits)
  with compile_servers_config match_serverD [OF assms(2)] obtain sc where
    sc: "sc \<in> set (mc_servers c)" "sv_name s = svc_name sc" "server_wf env compile sc s"
    unfolding server_wf_def by blast
  from assms(3,4) obtain bb bb' body where b: "r_body req = Buffered bb" "bb_read_all bb = (bb', ReadData body)"
    "evaluate_body env p s (r_content_length req) body tr = (tr', McpPass)" "r_body req' = Buffered (bb_reset bb')"
    by (auto simp: evaluate_request_def split: body.splits prod.splits read_outcome.splits)
  from evaluate_body_pass [OF b(3)] obtain msgs q where
    m: "decode_jsonrpc body = (Some msgs, q)" "\<forall>m \<in> set msgs. rm_method m = method_tools_call \<longrightarrow> call_admitted env s m"
    by blast
  have "call_admitted env s m \<Longrightarrow> \<exists>name args raw. extract_tool_call_name env (rm_params m) = Some (name, args, raw)
      \<and> call_permitted env compile sc name args" for m
    using evaluate_tool_permitted [OF sc(3)] unfolding call_admitted_def by blast
  with m sc(1,2) b(1,2,4) show ?thesis by blast
qed

theorem mcp_allows_only_listed_witness:
  "\<exists>sc \<in> set (mc_servers search_config). sv_name search_server = svc_name sc
    \<and> (\<exists>msgs b. decode_jsonrpc search_call = (Some msgs, b))"
proof -
  have "match_server (Some search_policy) (rpc_request search_call) = Some search_server"
  proof -
    have "list_ex (\<lambda>r. rule_matches r (strip_port ''mcp.example.com'') ''POST'' ''/mcp'') (sv_rules search_server)" by code_simp
    then show ?thesis by (simp add: match_server_def search_policy_def rpc_request_def)
  qed
  moreover obtain req' tr' where "evaluate_request int_env (Some search_policy) (Some search_server) (rpc_request search_call) None
      = (req', tr', McpPass)" using search_call_passes by (metis prod.collapse)
  ultimately show ?thesis
    using mcp_allows_only_listed [OF search_compiles, of "rpc_request search_call" search_server None]
    by (fastforce simp: rpc_request_def bb_simps)
qed



section \<open>Arguments in the audit record\<close>

lemma cut_back_le: "cut_back raw n \<le> n"
  by (induction n) auto

lemma cut_back_start: "cut_back raw n \<noteq> 0 \<Longrightarrow> \<not> is_cont (raw ! cut_back raw n)"
  by (induction n) (auto split: if_splits)

text \<open>
  C35: What the record keeps of the arguments as text is never longer than the limit, and is
  the text itself or a proper prefix of it with the marker behind that ends before a character.
\<close>

theorem encode_arguments_bound:
  "length (snd (encode_arguments env raw)) \<le> audit_arguments_max_len
    \<and> (\<exists>k. snd (encode_arguments env raw) \<in> {[], raw, take k raw @ ''...''} \<and> k < audit_arguments_max_len
        \<and> (k = 0 \<or> rune_start (raw ! k)))"
proof -
  let ?k = "cut_back raw (audit_arguments_max_len - 3)"
  have "?k \<le> 61" using cut_back_le [of raw 61] by (simp add: audit_arguments_max_len_def)
  then show ?thesis
    using cut_back_start [of raw "audit_arguments_max_len - 3"]
    by (auto simp: encode_arguments_def audit_arguments_max_len_def rune_start_def intro!: exI [of _ ?k] split: option.splits)
qed

section \<open>Two readings of one body\<close>

definition delete_call :: string where
  "delete_call = json_text ''{`id`:1,`method`:`tools/call`,`params`:{`name`:`delete`}}''"

definition delete_call_hidden :: string where
  "delete_call_hidden = json_text ''{`id`:1,`method`:`tools/call`,`params`:{`name`:`delete`},`Method`:`ping`}''"

text \<open>
  C36: The members of a message are matched without regard to case and the last one counts:
  a call of a tool that is not listed is refused, and passes unchanged when a member
  \<^verbatim>\<open>Method\<close> with another value stands behind \<^verbatim>\<open>method\<close>.
\<close>

theorem mcp_member_case_bypass:
  "snd (snd (evaluate_request int_env (Some search_policy) (Some search_server) (rpc_request delete_call) None)) \<noteq> McpPass
    \<and> snd (snd (evaluate_request int_env (Some search_policy) (Some search_server) (rpc_request delete_call_hidden) None)) = McpPass
    \<and> (\<exists>raw ms. json_parse delete_call_hidden = Some (JObject raw ms)
        \<and> map_option unmarshal_string (map_of ms ''method'') = Some (Some ''tools/call''))"
proof -
  have "decode_jsonrpc delete_call_hidden = (Some [empty_message\<lparr>rm_id := ''1'', rm_method := ''ping'',
      rm_params := json_text ''{`name`:`delete`}''\<rparr>], False)" by code_simp
  then have pass: "snd (snd (evaluate_request int_env (Some search_policy) (Some search_server) (rpc_request delete_call_hidden) None)) = McpPass"
    by (simp add: evaluate_request_def rpc_request_def bb_simps evaluate_body_def method_tools_call_def
        trace_append_def method_tools_list_def)
  have "decode_jsonrpc delete_call = (Some [empty_message\<lparr>rm_id := ''1'', rm_method := ''tools/call'',
      rm_params := json_text ''{`name`:`delete`}''\<rparr>], False)" by code_simp
  moreover have "extract_tool_call_name int_env (json_text ''{`name`:`delete`}'') = Some (''delete'', GNil, [])" by code_simp
  ultimately have "snd (snd (evaluate_request int_env (Some search_policy) (Some search_server) (rpc_request delete_call) None)) \<noteq> McpPass"
    by (simp add: evaluate_request_def rpc_request_def bb_simps evaluate_body_def method_tools_call_def call_entry_def
        trace_append_def evaluate_tool_def search_server_def map_get_def encode_arguments_def)
  moreover have "case json_parse delete_call_hidden of Some (JObject _ ms) \<Rightarrow>
      map_option unmarshal_string (map_of ms ''method'') = Some (Some ''tools/call'') | _ \<Rightarrow> False" by code_simp
  ultimately show ?thesis using pass by (auto split: option.splits jtree.splits)
qed

end
