(* ===== verification/Proxy_Claims.thy ===== *)
theory Proxy_Claims
  imports Proxy_Safety Mcp_Safety
begin

text \<open>
  The properties of the request handler, with a request to a listed host and a paid replay as
  concrete runs.
\<close>

section \<open>A concrete proxy\<close>

definition retry_payment_env :: "int proxy_env" where
  "retry_payment_env =
    \<lparr>pv_ready = True,
     pv_pipeline = (\<lambda>_. \<lparr>pl_transforms = [annotate_transform [], allowlist_transform sample_allowlist],
       pl_body_limits = \<lparr>bl_max_request = 64, bl_max_response = 64\<rparr>\<rparr>),
     pv_now = (\<lambda>_ _. 0), pv_json = int_env, pv_mcp = None, pv_gateway = None, pv_retry = Some plain_handler,
     pv_retry_env = plain_env, pv_decide = (\<lambda>_. Reply 200 \<lparr>rd_content = pay_reply, rd_fails = False\<rparr>),
     pv_report = (\<lambda>_ _. Reply 200 empty_reader), pv_durations = (0, 0), pv_proxied = (\<lambda>_. False),
     pv_send = (\<lambda>_ _ _. Some (paid_response, empty_reader)), pv_websocket = (\<lambda>_. WsNone), pv_accept = Some Gone,
     pv_canceled = (\<lambda>_. False)\<rparr>"

definition items_request :: srequest where
  "items_request =
    \<lparr>r_method = ''GET'', r_host = ''api.example.com:'',
     r_url = \<lparr>u_scheme = [], u_host = [], u_path = ''/v1/items'', u_rawpath = [], u_rawquery = ''q=1'', u_user = False\<rparr>,
     r_header = [(''Connection'', [''x-hop'']), (''X-Hop'', [''1'']), (''Accept'', [''a/b''])],
     r_body = PlainBody [], r_tls = None, r_remote = [], r_content_length = 0, r_ctx = None\<rparr>"

lemma items_sends:
  "map (\<lambda>(t, ob). (t, r_host (ob_request ob), r_header (ob_request ob)))
      (hn_sends (handle_http retry_payment_env items_request None None)) =
    [(PlainTransport, ''api.example.com'', [(''Accept'', [''a/b''])]),
     (PlainTransport, ''api.example.com'', [(''Accept'', [''a/b'']), (''X-Payment'', [''ok''])])]"
  by code_simp

lemma items_contact: "hn_sends (handle_http retry_payment_env items_request None None) \<noteq> []"
  using items_sends by auto

section \<open>Admission\<close>

lemma round_trip_validated: "round_trip now pl proxied req = Inr t \<Longrightarrow> validate_final_destination now req"
  by (auto simp: round_trip_def split: if_splits)

lemma sends_validated:
  assumes "sent_once env ob ss \<or> sent_twice env ob ss"
  shows "list_all (\<lambda>(i, t, ob'). validate_final_destination (pv_now env i) (ob_request ob')) (enumerate 1 ss)"
  using assms by (auto simp: sent_once_def sent_twice_def numeral_2_eq_2 dest: round_trip_validated)

lemma handle_websocket_contact:
  "hn_sends (handle_websocket env h scheme host tctx r result) = []"
  "call \<in> set (hn_dials (handle_websocket env h scheme host tctx r result)) \<Longrightarrow>
    call = websocket_call scheme host r
    \<and> validate_final_destination (pv_now env 0) (r\<lparr>r_url := wc_url call, r_host := host, r_method := ''GET''\<rparr>)"
  by (auto simp: handle_websocket_def refused_def Let_def
      split: if_splits ws_reply.splits option.splits prod.splits run.splits)

lemma send_replay_dials: "hn_dials (send_replay env server h d rb ss tctx r ob result) = []"
  by (simp add: send_replay_def Let_def split: prod.splits sum.splits)

lemma send_upstream_dials: "hn_dials (send_upstream env server tctx r ob result) = []"
  by (simp add: send_upstream_def Let_def send_replay_dials split: prod.splits sum.splits option.splits retry_outcome.splits)

lemma forward_dials: "hn_dials (forward env server scheme host tctx r result) = []"
  by (simp add: forward_def Let_def send_upstream_dials split: prod.splits sum.splits option.splits)

lemma same_send_of:
  assumes "sent_once env ob ss \<or> sent_twice env ob ss" "(t, ob') \<in> set ss"
  shows "same_send ob ob'"
  using assms by (auto simp: sent_once_def sent_twice_def same_send_def replay_outbound_def)

lemma forward_sends_bound:
  assumes "hn_sends (forward env server scheme host tctx r result) = ss" "ss \<noteq> []"
  shows "list_all (\<lambda>(i, t, ob). r_ctx (ob_request ob) = r_ctx r
    \<and> validate_final_destination (pv_now env i) (ob_request ob)) (enumerate 1 ss)"
proof -
  obtain meth body ob r' and u :: parsed_url where o: "ob_request ob = upstream_request meth (url.truncate u) r' (bb_len body)" "r_ctx r' = r_ctx r"
    and ss: "sent_once env ob ss \<or> sent_twice env ob ss" by (rule forward_send [OF assms])
  have "r_ctx (ob_request ob') = r_ctx r" if "(i, t, ob') \<in> set (enumerate 1 ss)" for i t ob'
  proof -
    from that have "(t, ob') \<in> set ss" by (auto simp: enumerate_eq_zip dest: set_zip_rightD)
    from same_send_of [OF ss this] o show ?thesis by (simp add: same_send_def upstream_request_def)
  qed
  with sends_validated [OF ss] show ?thesis by (fastforce simp: list_all_iff)
qed

text \<open>
  C1: An upstream is contacted, by a request or by a WebSocket dial, only for a request that
  names a host, has no dot segments in its path, carries the server name of its TLS connection
  as its host, and arrives when the proxy is ready; after every transform let it pass and the
  MCP policy accepted it. Every send carries the credential record that the transforms left, and
  the check that binds each credential to its destination accepted it for the URL and host it is
  sent to, at the moment of that send; every dial is of the request behind the MCP policy, and the
  check accepted that request, with its credential record, for the URL and host that is dialled.
\<close>

theorem proxy_admission:
  assumes "hn_sends (handle_http env r body tun) \<noteq> [] \<or> hn_dials (handle_http env r body tun) \<noteq> []"
  shows "r_host r \<noteq> [] \<and> \<not> contains_dot_segments (u_path (r_url r)) \<and> sni_matches r \<and> pv_ready env
    \<and> (\<exists>tctx r1 traces result1 server r2 result.
         process_request (pl_transforms (pv_pipeline env 0)) (request_context r tun) (wrapped_request env r body) []
           = (tctx, r1, traces, RunContinue)
         \<and> mcp_stage env r1 result1 = (server, r2, result, McpPass) \<and> r_ctx r2 = r_ctx r1
         \<and> list_all (\<lambda>(i, t, ob). r_ctx (ob_request ob) = r_ctx r1
               \<and> validate_final_destination (pv_now env i) (ob_request ob))
             (enumerate 1 (hn_sends (handle_http env r body tun)))
         \<and> list_all (\<lambda>call. call = websocket_call (request_scheme r) (r_host r) r2
               \<and> validate_final_destination (pv_now env 0)
                   (r2\<lparr>r_url := wc_url call, r_host := wc_host call, r_method := ''GET''\<rparr>))
             (hn_dials (handle_http env r body tun)))"
proof -
  let ?out = "handle_http env r body tun"
  obtain tctx r1 traces result1 server r2 result where e: "entry_ok env r"
    and p: "process_request (pl_transforms (pv_pipeline env 0)) (request_context r tun) (wrapped_request env r body) []
      = (tctx, r1, traces, RunContinue)"
    and m: "mcp_stage env r1 result1 = (server, r2, result, McpPass)"
    and out: "?out = forward env server (request_scheme r) (r_host r) tctx r2 result
      \<or> is_websocket_upgrade r2 \<and> (\<exists>h. ?out
          = handle_websocket env h (request_scheme r) (r_host r) tctx r2 (result\<lparr>pr_action := ActionContinue, pr_status := 101\<rparr>))"
    by (rule handle_http_contact [OF assms])
  have ctx: "r_ctx r2 = r_ctx r1" by (rule mcp_stage_keeps(4) [OF m])
  have "call = websocket_call (request_scheme r) (r_host r) r2
      \<and> validate_final_destination (pv_now env 0) (r2\<lparr>r_url := wc_url call, r_host := wc_host call, r_method := ''GET''\<rparr>)"
    if call: "call \<in> set (hn_dials ?out)" for call
  proof -
    from call out obtain h where h: "?out = handle_websocket env h (request_scheme r) (r_host r) tctx r2
        (result\<lparr>pr_action := ActionContinue, pr_status := 101\<rparr>)" by (auto simp: forward_dials)
    have "wc_host (websocket_call (request_scheme r) (r_host r) r2) = r_host r" by (simp add: websocket_call_def Let_def)
    with handle_websocket_contact(2) [OF call [unfolded h]] show ?thesis by metis
  qed
  moreover have "list_all (\<lambda>(i, t, ob). r_ctx (ob_request ob) = r_ctx r1
      \<and> validate_final_destination (pv_now env i) (ob_request ob)) (enumerate 1 (hn_sends ?out))"
  proof (cases "hn_sends ?out = []")
    case False
    then have f: "hn_sends (forward env server (request_scheme r) (r_host r) tctx r2 result) = hn_sends ?out"
      using out by (auto simp: handle_websocket_contact(1))
    from forward_sends_bound [OF f False] ctx show ?thesis by simp
  qed simp
  ultimately show ?thesis using e p m ctx unfolding entry_ok_def list_all_iff by blast
qed

theorem proxy_admission_witness:
  "\<not> contains_dot_segments (u_path (r_url items_request)) \<and> sni_matches items_request
    \<and> hn_sends (handle_http retry_payment_env items_request None None) \<noteq> []"
  using proxy_admission [OF disjI1 [OF items_contact]] items_contact by blast

section \<open>Destination\<close>

text \<open>A send of the handler, with the URL it was made for.\<close>

lemma handle_http_send:
  assumes "(t, ob) \<in> set (hn_sends (handle_http env r body tun))"
  obtains tctx r1 traces w meth u where
    "process_request (pl_transforms (pv_pipeline env 0)) (request_context r tun) (wrapped_request env r body) []
      = (tctx, r1, traces, RunContinue)"
    and "\<exists>r2. r_url r2 = r_url r1 \<and> r_host r2 = r_host r1 \<and> r_method r2 = r_method r1
      \<and> destination_of env (request_scheme r) (r_host r) r2 w"
    and "new_request_line (r_method r1) (url_string w) = Some (meth, u)"
    and "r_method (ob_request ob) = meth" "r_url (ob_request ob) = url.truncate u" "r_host (ob_request ob) = u_host u"
    "r_ctx (ob_request ob) = r_ctx r1"
proof -
  let ?out = "handle_http env r body tun"
  from assms have ne: "hn_sends ?out \<noteq> []" by auto
  obtain tctx r1 traces result1 server r2 result where
    p: "process_request (pl_transforms (pv_pipeline env 0)) (request_context r tun) (wrapped_request env r body) []
      = (tctx, r1, traces, RunContinue)"
    and m: "mcp_stage env r1 result1 = (server, r2, result, McpPass)"
    and out: "?out = forward env server (request_scheme r) (r_host r) tctx r2 result
      \<or> is_websocket_upgrade r2 \<and> (\<exists>h. ?out
          = handle_websocket env h (request_scheme r) (r_host r) tctx r2 (result\<lparr>pr_action := ActionContinue, pr_status := 101\<rparr>))"
    by (rule handle_http_contact [OF disjI1 [OF ne]])
  from ne out have f: "hn_sends (forward env server (request_scheme r) (r_host r) tctx r2 result) = hn_sends ?out"
    by (auto simp: handle_websocket_contact(1))
  obtain w meth u b ob0 r' where d: "destination_of env (request_scheme r) (r_host r) r2 w"
    "new_request_line (r_method r2) (url_string w) = Some (meth, u)"
    and o0: "ob_request ob0 = upstream_request meth (url.truncate u) r' (bb_len b)" "r_ctx r' = r_ctx r2"
    and ss: "sent_once env ob0 (hn_sends ?out) \<or> sent_twice env ob0 (hn_sends ?out)"
    by (rule forward_send [OF f ne])
  note k = mcp_stage_keeps [OF m]
  from same_send_of [OF ss assms] o0 k(4)
  have "r_method (ob_request ob) = meth" "r_url (ob_request ob) = url.truncate u" "r_host (ob_request ob) = u_host u"
    "r_ctx (ob_request ob) = r_ctx r1"
    by (simp_all add: same_send_def upstream_request_def url.truncate_def)
  then show thesis using d k by (intro that [OF p]) auto
qed

lemma truncate_simps [simp]:
  "u_host (url.truncate u) = u_host u" "u_scheme (url.truncate u) = u_scheme u" "u_rawquery (url.truncate u) = u_rawquery u"
  "u_path (url.truncate u) = u_path u" "u_rawpath (url.truncate u) = u_rawpath u"
  by (simp_all add: url.truncate_def)

lemma request_scheme_cases: "request_scheme r \<in> {''http'', ''https''}"
  by (simp add: request_scheme_def)

text \<open>
  C11: What is sent goes to one of two places. Without a gateway route it goes to the scheme and
  host the client named, with the path spelled as the transforms left it and their query up to
  a fragment mark; with a route of a compiled gateway it goes to the upstream of that route.
  The method, the credential record and the host header agree with it.
\<close>

theorem proxy_target:
  assumes "gateway_compile senv rcs = Inr (pv_gateway env)" "(t, ob) \<in> set (hn_sends (handle_http env r body tun))"
  shows "\<exists>tctx r1 traces w.
    process_request (pl_transforms (pv_pipeline env 0)) (request_context r tun) (wrapped_request env r body) []
      = (tctx, r1, traces, RunContinue)
    \<and> (w = upstream_url (request_scheme r) (r_host r) r1
       \<or> (\<exists>routes route q. pv_gateway env = Some routes \<and> route \<in> set routes \<and> w = (gr_upstream route)\<lparr>u_rawquery := q\<rparr>))
    \<and> r_method (ob_request ob) = (if r_method r1 = [] then ''GET'' else r_method r1)
    \<and> u_scheme (r_url (ob_request ob)) = u_scheme w
    \<and> u_host (r_url (ob_request ob)) = remove_empty_port (u_host w)
    \<and> r_host (ob_request ob) = u_host (r_url (ob_request ob))
    \<and> url_escaped_path (r_url (ob_request ob)) = rooted_path (escaped_path (u_path w) (u_rawpath w))
    \<and> u_rawquery (r_url (ob_request ob)) = fst (cut_char CHR ''#'' (u_rawquery w))
    \<and> r_ctx (ob_request ob) = r_ctx r1"
proof (rule handle_http_send [OF assms(2)])
  fix tctx r1 traces w meth u
  assume p: "process_request (pl_transforms (pv_pipeline env 0)) (request_context r tun) (wrapped_request env r body) []
      = (tctx, r1, traces, RunContinue)"
    and d: "\<exists>r2. r_url r2 = r_url r1 \<and> r_host r2 = r_host r1 \<and> r_method r2 = r_method r1
      \<and> destination_of env (request_scheme r) (r_host r) r2 w"
    and n: "new_request_line (r_method r1) (url_string w) = Some (meth, u)"
    and o: "r_method (ob_request ob) = meth" "r_url (ob_request ob) = url.truncate u" "r_host (ob_request ob) = u_host u"
      "r_ctx (ob_request ob) = r_ctx r1"
  have routes: "route_ok route" "\<exists>routes. pv_gateway env = Some routes \<and> route \<in> set routes"
    if "match_route (pv_gateway env) r2 = Some route" for r2 :: srequest and route
    using that assms(1) compile_routes_ok [of senv 0 "[]" rcs]
    by (auto simp: match_route_def gateway_compile_def Let_def list_all_iff find_Some_iff
        split: option.splits sum.splits if_splits)
  have place: "w = upstream_url (request_scheme r) (r_host r) r1
      \<or> (\<exists>routes route q. pv_gateway env = Some routes \<and> route \<in> set routes \<and> w = (gr_upstream route)\<lparr>u_rawquery := q\<rparr>)"
    using d routes(2) by (fastforce simp: destination_of_def upstream_url_def)
  have "u_scheme w \<in> {''http'', ''https''}"
    using d routes(1) request_scheme_cases [of r] unfolding destination_of_def route_ok_def upstream_url_def
    by (elim exE conjE disjE) (auto dest: routes(1) [unfolded route_ok_def])
  from new_request_line_string [OF n this] p place o show ?thesis
    by (intro exI [of _ tctx] exI [of _ r1] exI [of _ traces] exI [of _ w]) (simp add: url_escaped_path_def)
qed

theorem proxy_target_witness:
  "\<exists>t ob. (t, ob) \<in> set (hn_sends (handle_http retry_payment_env items_request None None))
    \<and> u_scheme (r_url (ob_request ob)) = ''http''"
proof -
  obtain t ob where s: "(t, ob) \<in> set (hn_sends (handle_http retry_payment_env items_request None None))"
    using items_contact by (metis list.set_intros(1) neq_Nil_conv prod.exhaust)
  have g: "gateway_compile (undefined :: unit secrets_env) [] = Inr (pv_gateway retry_payment_env)"
    by (simp add: gateway_compile_def retry_payment_env_def)
  from proxy_target [OF g s] s show ?thesis
    by (auto simp: retry_payment_env_def upstream_url_def request_scheme_def items_request_def)
qed

section \<open>Default deny\<close>

lemma allowlist_allowed_wrapped:
  "allowlist_allowed a tctx (wrapped_request env r body) = allowlist_allowed a tctx r"
  by (simp add: allowlist_allowed_def allowlist_authority_def matches_http_def wrapped_request_def cong: option.case_cong)

text \<open>
  C2: With no gateway configured, and with an enforcing allowlist in the pipeline that has before it
  only transforms that leave the target of the request alone (other allowlists, header allowlists,
  annotations and body captures), the proxy contacts an upstream only for a request whose host, method and path the allowlist lists, for
  a request inside a tunnel with the tunnel's own target as its authority; and whatever the
  transforms behind the allowlist do, the upstream is the host the client named.
\<close>

theorem proxy_default_deny:
  assumes "pl_transforms (pv_pipeline env 0) = ts @ allowlist_transform a # us" "list_all policy_transform ts"
    and "\<not> al_warn a" "pv_gateway env = None"
    and "hn_sends (handle_http env r body tun) \<noteq> [] \<or> hn_dials (handle_http env r body tun) \<noteq> []"
  shows "allowlist_authority (request_context r tun) r
    \<and> (\<exists>rule \<in> set (al_rules a). matches_http rule r (strip_port (r_host r)))
    \<and> list_all (\<lambda>(t, ob). r_host (ob_request ob) = remove_empty_port (r_host r)
          \<and> u_host (r_url (ob_request ob)) = r_host (ob_request ob)) (hn_sends (handle_http env r body tun))
    \<and> list_all (\<lambda>call. wc_host call = r_host r \<and> u_host (wc_url call) = r_host r) (hn_dials (handle_http env r body tun))"
proof -
  let ?out = "handle_http env r body tun"
  obtain tctx r1 traces result1 server r2 result where
    p: "process_request (pl_transforms (pv_pipeline env 0)) (request_context r tun) (wrapped_request env r body) []
      = (tctx, r1, traces, RunContinue)"
    and out: "?out = forward env server (request_scheme r) (r_host r) tctx r2 result
      \<or> is_websocket_upgrade r2 \<and> (\<exists>h. ?out
          = handle_websocket env h (request_scheme r) (r_host r) tctx r2 (result\<lparr>pr_action := ActionContinue, pr_status := 101\<rparr>))"
    by (rule handle_http_contact [OF assms(5)])
  from p assms(1) allowlist_gate [OF assms(2,3), of us] have "allowlist_allowed a (request_context r tun) r"
    by (metis allowlist_allowed_wrapped)
  moreover have "r_host (ob_request ob) = remove_empty_port (r_host r) \<and> u_host (r_url (ob_request ob)) = r_host (ob_request ob)"
    if s: "(t, ob) \<in> set (hn_sends ?out)" for t ob
  proof (rule handle_http_send [OF s])
    fix r1 w meth u
    assume d: "\<exists>r2. r_url r2 = r_url r1 \<and> r_host r2 = r_host r1 \<and> r_method r2 = r_method r1
        \<and> destination_of env (request_scheme r) (r_host r) r2 w"
      and n: "new_request_line (r_method r1) (url_string w) = Some (meth, u)"
      and o: "r_url (ob_request ob) = url.truncate u" "r_host (ob_request ob) = u_host u"
    from d assms(4) have w: "u_host w = r_host r" "u_scheme w = request_scheme r"
      by (auto simp: destination_of_def match_route_def upstream_url_def)
    from new_request_line_string [OF n] w o request_scheme_cases [of r] show ?thesis by simp
  qed
  moreover have "wc_host call = r_host r \<and> u_host (wc_url call) = r_host r" if "call \<in> set (hn_dials ?out)" for call
  proof -
    from that out have "call = websocket_call (request_scheme r) (r_host r) r2"
      by (auto simp: forward_dials dest: handle_websocket_contact(2))
    then show ?thesis by (simp add: websocket_call_def Let_def)
  qed
  ultimately show ?thesis by (auto simp: allowlist_allowed_iff request_context_def list_all_iff)
qed

theorem proxy_default_deny_witness:
  "(\<exists>rule \<in> set (al_rules sample_allowlist). matches_http rule items_request ''api.example.com'')
    \<and> hn_sends (handle_http retry_payment_env items_request None None) \<noteq> []"
proof -
  have pl: "pl_transforms (pv_pipeline retry_payment_env 0) = [annotate_transform []] @ allowlist_transform sample_allowlist # []"
    "pv_gateway retry_payment_env = None" by (simp_all add: retry_payment_env_def)
  have "list_all policy_transform [annotate_transform [] :: request_scrubs transformer]" by (auto simp: policy_transform_def)
  moreover have "\<not> al_warn sample_allowlist" by (simp add: sample_allowlist_def)
  moreover have "strip_port (r_host items_request) = ''api.example.com''" by code_simp
  ultimately show ?thesis using proxy_default_deny [OF pl(1) _ _ pl(2) disjI1 [OF items_contact]] items_contact by simp
qed

section \<open>Replays\<close>

lemma h_values_fold_add:
  "h_values (fold (\<lambda>v h. h_add h name v) vs h) k =
    (if canonical_key k = canonical_key name then h_values h k @ vs else h_values h k)"
  by (induction vs arbitrary: h) (auto simp: h_values_add)

lemma h_values_replace:
  "\<lbrakk>distinct (map fst hs); list_all (\<lambda>(name, _). canonical_key name = name) hs\<rbrakk> \<Longrightarrow>
    h_values (fold (\<lambda>(name, vs) h. fold (\<lambda>v h. h_add h name v) vs (h_del h name)) hs h) k =
      (case map_get hs (canonical_key k) of Some vs \<Rightarrow> vs | None \<Rightarrow> h_values h k)"
proof (induction hs arbitrary: h)
  case (Cons kv hs)
  obtain name vs where kv: "kv = (name, vs)" by (cases kv)
  with Cons.prems have "map_get hs name = None" by (auto simp: map_get_def map_of_eq_None_iff)
  with Cons kv show ?case
    by (auto simp: map_get_def h_values_fold_add h_values_del split: option.splits)
qed (simp add: map_get_def)

text \<open>The values of a header in a replay: the trace context and the headers of the decision, or what was there.\<close>

definition replayed_values :: "retry_decision \<Rightarrow> header \<Rightarrow> string \<Rightarrow> string list" where
  "replayed_values d h name =
    (if dn_traceparent d \<noteq> [] \<and> canonical_key name = ''Traceparent'' then [dn_traceparent d]
     else (case map_get (dn_headers d) (canonical_key name) of Some vs \<Rightarrow> vs | None \<Rightarrow> h_values h name))"

lemma replay_headers_values:
  assumes "decide env service hdl req resp replayable = Retry d"
  shows "h_values (replay_headers d h) name = replayed_values d h name"
proof -
  have "canonical_key ''Traceparent'' = ''Traceparent''" by code_simp
  then show ?thesis
    using h_values_replace [OF decide_headers_wf [OF assms], of h name]
    by (simp add: replay_headers_def replayed_values_def Let_def h_values_set eq_commute)
qed

text \<open>
  C12: A request is sent at most twice. The second send is one the retry service authorised for
  the response that the first one got. It has the body of the first, with that length, and differs
  from it in its headers only, where a name the decision gives has the values of the decision, the
  trace context is the decision's if it gives one, and every other name keeps its values.
\<close>

theorem proxy_replay_once:
  assumes "hn_sends (handle_http env r body tun) = first # second # rest"
  shows "rest = []
    \<and> (\<exists>h resp rbody d h'. pv_retry env = Some h
         \<and> pv_send env 1 (fst first) (snd first) = Some (resp, rbody)
         \<and> decide (pv_retry_env env) (pv_decide env) h (ob_request (snd first)) resp True = Retry d
         \<and> ob_body (snd second) = \<lparr>rd_content = rd_content (ob_body (snd first)), rd_fails = False\<rparr>
         \<and> ob_request (snd second) = (ob_request (snd first))\<lparr>r_header := h',
             r_content_length := int (length (rd_content (ob_body (snd first))))\<rparr>
         \<and> (\<forall>name. h_values h' name = replayed_values d (r_header (ob_request (snd first))) name))"
proof -
  let ?out = "handle_http env r body tun"
  have ne: "hn_sends ?out \<noteq> []" using assms by simp
  obtain server tctx r2 result where out: "?out = forward env server (request_scheme r) (r_host r) tctx r2 result
      \<or> is_websocket_upgrade r2 \<and> (\<exists>h. ?out
          = handle_websocket env h (request_scheme r) (r_host r) tctx r2 (result\<lparr>pr_action := ActionContinue, pr_status := 101\<rparr>))"
    by (rule handle_http_contact [OF disjI1 [OF ne]])
  from assms out have f: "hn_sends (forward env server (request_scheme r) (r_host r) tctx r2 result) = first # second # rest"
    by (auto simp: handle_websocket_contact(1))
  obtain ob where "sent_once env ob (first # second # rest) \<or> sent_twice env ob (first # second # rest)"
    by (rule forward_send [OF f]) auto
  then obtain t ob1 t2 h resp rbody d where s: "first = (t, ob1)" "second = (t2, replay_outbound d (rd_content (ob_body ob1)) ob1)"
    "rest = []" "pv_retry env = Some h" "pv_send env 1 t ob1 = Some (resp, rbody)"
    and d: "decide (pv_retry_env env) (pv_decide env) h (ob_request ob1) resp True = Retry d"
    by (auto simp: sent_once_def sent_twice_def)
  show ?thesis
    using s d replay_headers_values [OF d]
    by (intro conjI exI [of _ h] exI [of _ resp] exI [of _ rbody] exI [of _ d]
        exI [of _ "replay_headers d (r_header (ob_request ob1))"]) (simp_all add: replay_outbound_def)
qed

theorem proxy_replay_once_witness:
  "\<exists>first second d. hn_sends (handle_http retry_payment_env items_request None None) = [first, second]
    \<and> h_values (r_header (ob_request (snd second))) ''Accept''
      = replayed_values d (r_header (ob_request (snd first))) ''Accept''"
proof -
  obtain first second where s: "hn_sends (handle_http retry_payment_env items_request None None) = [first, second]"
    using items_sends by (auto simp: map_eq_Cons_conv)
  with proxy_replay_once [OF s] show ?thesis by fastforce
qed

section \<open>Headers\<close>

lemma h_values_fold_del:
  "h_values (fold (\<lambda>n h. h_del h n) names h) name =
    (if canonical_key name \<in> canonical_key ` set names then [] else h_values h name)"
  by (induction names arbitrary: h) (auto simp: h_values_del)

lemma hop_by_hop_canonical: "canonical_key ` set hop_by_hop_headers = set hop_by_hop_headers"
proof -
  have "list_all (\<lambda>n. canonical_key n = n) hop_by_hop_headers" by code_simp
  then show ?thesis by (auto simp: list_all_iff image_iff)
qed

text \<open>
  C21: The upstream sees no hop-by-hop header and none that the client's Connection header
  names, except Te with the one value trailers when the client accepts trailers; every other
  header keeps its values.
\<close>

theorem upstream_headers_exact:
  "h_values (sanitize_upstream_headers h) name =
    (if header_has_token h ''Te'' ''trailers'' \<and> canonical_key name = ''Te'' then [''trailers'']
     else if canonical_key name \<in> set hop_by_hop_headers
       \<or> canonical_key name \<in> canonical_key ` set (header_tokens h ''Connection'') then []
     else h_values h name)"
proof -
  have "canonical_key ''Te'' = ''Te''" by code_simp
  then show ?thesis
    by (simp add: sanitize_upstream_headers_def Let_def h_values_set h_values_fold_del hop_by_hop_canonical eq_commute)
qed

section \<open>Dialling\<close>

text \<open>
  C20: A connection of the private dialer is tracked under the pipeline of the moment, and its
  address is one the guard does not deny or one that the permission of that pipeline admits,
  whatever pipeline was in place when the dial began.
\<close>

theorem dial_private_safe:
  assumes "dial_private g req address pl0 connected i h = (h', Some remote)"
  shows "remote = address \<and> connected \<and> (\<exists>c \<in> set (h_connections h'). pc_id c = i \<and> \<not> conn_refused (h_current h') c)
    \<and> (\<exists>ip pl. parse_addr_port address = Some ip \<and> h_current h' = Some pl
         \<and> (is_denied g ip \<longrightarrow> (\<exists>permit. private_ip_permission pl (private_policy req) = Some permit
              \<and> permit (without_zone (unmap ip)))))"
  using assms
  by (auto simp: dial_private_def track_private_connection_def holder_load_def conn_refused_def private_allowed_def Let_def
      split: if_splits option.splits)

definition private_allowlist :: allowlist where
  "private_allowlist =
    \<lparr>al_rules = [\<lparr>pr_rule = \<lparr>rl_matcher = \<lparr>m_domains = [''db.internal''], m_cidrs = []\<rparr>, rl_methods = None, rl_paths = None\<rparr>,
       pr_private = [Cidr (V4 0x0A000000) 8]\<rparr>], al_warn = False\<rparr>"

definition private_pipeline :: "request_scrubs pipeline" where
  "private_pipeline =
    \<lparr>pl_transforms = [allowlist_transform private_allowlist], pl_body_limits = \<lparr>bl_max_request = 0, bl_max_response = 0\<rparr>\<rparr>"

definition internal_request :: srequest where
  "internal_request = items_request\<lparr>r_url := (r_url items_request)\<lparr>u_host := ''db.internal''\<rparr>\<rparr>"

theorem dial_private_safe_witness:
  "\<exists>h'. dial_private (Some \<lparr>g_prefixes = [Cidr (V4 0x0A000000) 8]\<rparr>) internal_request ''10.1.2.3:443'' (Some private_pipeline) True 7
      (new_pipeline_holder (Some private_pipeline)) = (h', Some ''10.1.2.3:443'')
    \<and> (\<exists>c \<in> set (h_connections h'). pc_id c = 7 \<and> \<not> conn_refused (h_current h') c)"
proof -
  let ?d = "dial_private (Some \<lparr>g_prefixes = [Cidr (V4 0x0A000000) 8]\<rparr>) internal_request ''10.1.2.3:443'' (Some private_pipeline) True 7
      (new_pipeline_holder (Some private_pipeline))"
  have "snd ?d = Some ''10.1.2.3:443''" by code_simp
  then obtain h' where d: "?d = (h', Some ''10.1.2.3:443'')" by (metis prod.collapse)
  with dial_private_safe [OF d] show ?thesis by blast
qed

section \<open>The audit record\<close>

text \<open>A record agrees with the response when it has its status.\<close>

definition recorded :: "client_out \<Rightarrow> 'f pipeline_result \<Rightarrow> bool" where
  "recorded out result = (case out of Answer c \<Rightarrow> pr_status result = cr_status c | _ \<Rightarrow> True)"

lemma write_response_status [simp]: "cr_status (write_response req resp) = p_status resp"
  by (simp add: write_response_def Let_def split: body.splits)

lemma stream_sse_status: "stream_sse req resp = Some c \<Longrightarrow> cr_status c = p_status resp"
  by (auto simp: stream_sse_def Let_def split: option.splits)

lemma failed_recorded: "recorded (fst (failed env stage e result)) (snd (failed env stage e result))"
  by (simp add: failed_def recorded_def http_error_def)

lemma bad_gateway_recorded: "recorded (fst (bad_gateway e result)) (snd (bad_gateway e result))"
  by (simp add: bad_gateway_def recorded_def http_error_def)

lemma refused_recorded: "recorded (fst (refused result)) (snd (refused result))"
  by (simp add: refused_def recorded_def http_error_def)

lemma deliver_recorded:
  "pr_status result = p_status final \<Longrightarrow> recorded (fst (deliver req final result)) (snd (deliver req final result))"
  by (auto simp: deliver_def recorded_def dest: stream_sse_status split: option.splits)

lemma respond_recorded:
  "recorded (fst (respond env server tctx r sent resp body result)) (snd (respond env server tctx r sent resp body result))"
proof -
  let ?pl = "pv_pipeline env 0"
  obtain tctx' r' traces run where p: "process_response (pl_transforms ?pl) tctx r
      (resp\<lparr>p_body := Buffered (new_buffered_body (Some body) (bl_max_response (pl_body_limits ?pl)))\<rparr>) []
      = (tctx', r', traces, run)" by (metis prod_cases4)
  show ?thesis
  proof (cases run)
    case (RunRespond final)
    let ?w = "wrap_response_body (pv_json env) (pv_mcp env) server (h_get (p_header final) ''Content-Type'') (p_body final) (pr_mcp result)"
    from p RunRespond show ?thesis
      by (cases ?w; cases "server = None \<or> pv_mcp env = None")
         (auto simp: respond_def Let_def intro!: deliver_recorded split: prod.splits)
  qed (use p in \<open>simp_all add: respond_def Let_def failed_recorded, simp_all add: recorded_def\<close>)
qed

lemmas stage_recorded = failed_recorded bad_gateway_recorded refused_recorded respond_recorded

definition handled_recorded :: "'f handled \<Rightarrow> bool" where
  "handled_recorded out = (case hn_result out of None \<Rightarrow> True | Some result \<Rightarrow> recorded (hn_client out) result)"

lemma with_sends_recorded: "recorded (fst o') (snd o') \<Longrightarrow> handled_recorded (with_sends ss rp o')"
  by (simp add: handled_recorded_def)

lemma send_replay_recorded: "handled_recorded (send_replay env server h d rb ss tctx r ob result)"
  by (simp add: send_replay_def Let_def with_sends_recorded stage_recorded split: prod.splits sum.splits)

lemma send_upstream_recorded: "handled_recorded (send_upstream env server tctx r ob result)"
  by (simp add: send_upstream_def Let_def with_sends_recorded stage_recorded send_replay_recorded
      split: prod.splits sum.splits option.splits retry_outcome.splits)

lemma forward_recorded: "handled_recorded (forward env server scheme host tctx r result)"
proof -
  have "handled_recorded (answer Crash (Some x))" for x :: "'a pipeline_result" by (simp add: handled_recorded_def recorded_def)
  then show ?thesis
    by (simp add: forward_def Let_def with_sends_recorded stage_recorded send_upstream_recorded
        split: prod.splits sum.splits option.splits)
qed

lemma websocket_refusal_recorded:
  assumes "hn_dials (handle_websocket env h scheme host tctx r result) = []"
  shows "handled_recorded (handle_websocket env h scheme host tctx r result)"
proof (cases "validate_final_destination (pv_now env 0)
    (r\<lparr>r_url := wc_url (websocket_call scheme host r), r_host := host, r_method := ''GET''\<rparr>)")
  case True
  with assms show ?thesis
    by (auto simp: handle_websocket_def Let_def split: ws_reply.splits option.splits prod.splits run.splits if_splits)
next
  case False
  then show ?thesis
    by (simp add: handle_websocket_def Let_def refused_def handled_recorded_def recorded_def http_error_def)
qed

text \<open>A record that has the client's status, or the empty record of a refused upgrade.\<close>

definition upgrade_refusals :: "client_response list" where
  "upgrade_refusals =
    [http_error ''WebSocket upgrade requires GET'' 400, http_error ''invalid WebSocket upgrade'' 400]"

definition honest :: "'f handled \<Rightarrow> bool" where
  "honest out \<longleftrightarrow> (case hn_result out of
     None \<Rightarrow> False
   | Some result \<Rightarrow> recorded (hn_client out) result
       \<or> (\<exists>c. hn_client out = Answer c \<and> c \<in> set upgrade_refusals) \<and> pr_status result = 0
           \<and> pr_action result = ActionContinue \<and> pr_err result = None)"

lemma honest_recorded: "handled_recorded out \<Longrightarrow> hn_result out \<noteq> None \<Longrightarrow> honest out"
  by (auto simp: honest_def handled_recorded_def)

lemma honest_answer:
  "recorded c result \<Longrightarrow> honest (answer c (Some result))"
  "recorded (fst o') (snd o') \<Longrightarrow> honest (with_sends ss rp o')"
  by (simp_all add: honest_def)

lemma send_upstream_result: "hn_result (send_upstream env server tctx r ob result) \<noteq> None"
  by (auto simp: send_upstream_def send_replay_def Let_def split: prod.splits sum.splits option.splits retry_outcome.splits)

lemma forward_result: "hn_result (forward env server scheme host tctx r result) \<noteq> None"
  using send_upstream_result
  by (auto simp: forward_def Let_def split: prod.splits sum.splits option.splits)

lemma websocket_result: "hn_result (handle_websocket env h scheme host tctx r result) \<noteq> None"
  by (auto simp: handle_websocket_def Let_def split: if_splits ws_reply.splits option.splits prod.splits run.splits)

lemma after_transforms_honest:
  assumes "pr_status result = 0" "pr_action result = ActionContinue" "pr_err result = None"
    and "hn_dials (after_transforms env up scheme host tctx r result) = []"
  shows "honest (after_transforms env up scheme host tctx r result)"
proof -
  obtain server r2 res2 out where m: "mcp_stage env r result = (server, r2, res2, out)" by (metis prod_cases4)
  then have res2: "pr_status res2 = 0" "pr_action res2 = ActionContinue" "pr_err res2 = None"
    using assms(1-3) by (auto simp: mcp_stage_def Let_def split: option.splits prod.splits)
  have refusal: "honest (answer (Answer (http_error ''invalid WebSocket upgrade'' 400)) (Some res2))"
    using res2 by (simp add: honest_def upgrade_refusals_def)
  show ?thesis
  proof (cases out)
    case McpPass
    with assms(4) m refusal show ?thesis
      by (auto simp: after_transforms_def split: option.splits
          intro!: honest_recorded forward_recorded forward_result websocket_refusal_recorded websocket_result)
  qed (use m in \<open>auto simp: after_transforms_def recorded_def intro!: honest_answer failed_recorded\<close>)
qed

lemma run_transforms_honest:
  assumes "pr_status result = 0" "pr_action result = ActionContinue" "pr_err result = None"
    and "hn_dials (run_transforms env scheme tctx r result) = []"
  shows "honest (run_transforms env scheme tctx r result)"
proof -
  obtain tctx' r1 traces out where p: "process_request (pl_transforms (pv_pipeline env 0)) tctx r [] = (tctx', r1, traces, out)"
    by (metis prod_cases4)
  show ?thesis
  proof (cases out)
    case RunContinue
    with assms p show ?thesis by (auto simp: run_transforms_def Let_def intro!: after_transforms_honest)
  qed (use p in \<open>auto simp: run_transforms_def recorded_def Let_def intro!: honest_answer failed_recorded\<close>)
qed

text \<open>
  C22: Every request that gets past the first checks and is answered without a WebSocket dial leaves
  an audit record whose status is the status the client received. The only exception are the two
  answers that refuse an upgrade before the dial, with another method than GET or by a transform
  that made the request an upgrade: the client sees them as 400, the record as an allowed request
  without a status. (After a dial the two may differ: the record keeps the status of the upstream
  when a response transform fails and the client is answered 502.)
\<close>

theorem audit_status:
  fixes env :: "'f proxy_env"
  assumes "hn_dials (handle_http env r body tun) = []" "hn_client (handle_http env r body tun) = Answer c"
    and "r_host r \<noteq> []" "\<not> contains_dot_segments (u_path (r_url r))" "sni_matches r"
  shows "\<exists>result. hn_result (handle_http env r body tun) = Some result
    \<and> (pr_status result = cr_status c
       \<or> c \<in> set upgrade_refusals \<and> pr_status result = 0 \<and> pr_action result = ActionContinue \<and> pr_err result = None)"
proof -
  let ?res = "initial_result r (request_context r tun) :: 'f pipeline_result"
  have init: "pr_status ?res = 0" "pr_action ?res = ActionContinue" "pr_err ?res = None"
    by (simp_all add: initial_result_def)
  then have "honest (answer (Answer (http_error ''WebSocket upgrade requires GET'' 400)) (Some ?res))"
    by (simp add: honest_def upgrade_refusals_def)
  moreover have "honest (answer (Answer (http_error not_ready_message 503)) (Some (mark_not_ready ?res)))"
    by (intro honest_answer) (simp add: recorded_def http_error_def mark_not_ready_def)
  ultimately have "honest (handle_http env r body tun)"
    using assms(1,3-5) run_transforms_honest [OF init] by (auto simp: handle_http_def Let_def split: if_splits)
  with assms(2) show ?thesis by (auto simp: honest_def recorded_def split: option.splits)
qed

theorem audit_status_witness:
  "\<exists>result. hn_result (handle_http retry_payment_env items_request None None) = Some result \<and> pr_status result = 402"
proof -
  let ?out = "handle_http retry_payment_env items_request None None"
  have "case hn_client ?out of Answer c \<Rightarrow> cr_status c = 402 \<and> hn_dials ?out = [] | _ \<Rightarrow> False" by code_simp
  then obtain c where c: "hn_client ?out = Answer c" "cr_status c = 402" "hn_dials ?out = []"
    by (auto split: client_out.splits)
  have "r_host items_request \<noteq> []" "\<not> contains_dot_segments (u_path (r_url items_request))" "sni_matches items_request"
    by code_simp+
  from audit_status [OF c(3,1) this] c(2) show ?thesis by (auto simp: upgrade_refusals_def http_error_def)
qed

text \<open>
  The record of a refused upgrade: an upgrade with POST is answered 400 and audited as an
  allowed request with no status.
\<close>

theorem upgrade_refusal_unrecorded:
  "case handle_http retry_payment_env
      (items_request\<lparr>r_method := ''POST'', r_header := [(''Upgrade'', [''websocket'']), (''Connection'', [''upgrade''])]\<rparr>) None None of
     out \<Rightarrow>
       (case (hn_client out, hn_result out) of
          (Answer c, Some result) \<Rightarrow> cr_status c = 400 \<and> pr_status result = 0 \<and> pr_action result = ActionContinue
        | _ \<Rightarrow> False)"
  by code_simp

end
