(* ===== verification/Tunnel_Claims.thy ===== *)
theory Tunnel_Claims
  imports Proxy_Claims
begin

text \<open>
  The properties of the tunnel entrances: a SOCKS5 request is understood in whatever pieces it
  arrives, a tunnel opens only where the allowlist lists its host, and a passthrough sends the
  client's own bytes to port 443 of the name they ask for.
\<close>

section \<open>Reading from a connection\<close>

definition stream_of :: "conn \<Rightarrow> bytes" where
  "stream_of c = fst c @ concat (snd c)"

lemma read_full_stream:
  "n \<le> length (buf @ concat cs) \<Longrightarrow>
    \<exists>c'. read_full n buf cs = Some (take n (buf @ concat cs), c') \<and> stream_of c' = drop n (buf @ concat cs)"
proof (induction n buf cs rule: read_full.induct)
  case (2 n buf c cs)
  then show ?case by (cases "n \<le> length buf") (auto simp: stream_of_def)
qed (auto simp: stream_of_def)

lemma read_conn_append:
  assumes "stream_of c = a @ rest" "length a = n"
  shows "\<exists>c'. read_conn n c = Some (a, c') \<and> stream_of c' = rest"
proof -
  have s: "fst c @ concat (snd c) = a @ rest" using assms(1) by (simp add: stream_of_def)
  from read_full_stream [of n "fst c" "snd c", unfolded s] assms(2) show ?thesis by (auto simp: read_conn_def)
qed

section \<open>SOCKS5\<close>

text \<open>A request for a domain name, as RFC 1928 writes it.\<close>

definition socks_request :: "bytes \<Rightarrow> string \<Rightarrow> nat \<Rightarrow> bytes" where
  "socks_request methods domain port =
    map char_of [5, length methods] @ methods @ map char_of [5 :: nat, 1, 0, 3] @ [char_of (length domain)] @ domain
    @ map char_of [port div 256, port mod 256]"

definition socks_answer ::
    "string \<Rightarrow> conn \<Rightarrow> tunnel_check \<times> 'f pipeline_result \<Rightarrow> bytes list \<times> socks_out \<times> 'f pipeline_result option" where
  "socks_answer target c check =
    (case check of
       (TunnelOpen info, result) \<Rightarrow> ([socks5_reply 0], SocksTunnel target info c, Some result)
     | (TunnelRefused _, result) \<Rightarrow> ([socks5_reply 0x02], SocksRefused, Some result)
     | (TunnelCrash, result) \<Rightarrow> ([], SocksCrash, Some result))"

lemma byte_char_of [simp]: "n < 256 \<Longrightarrow> byte (char_of n) = n"
  by simp

lemma socks_connect_domain:
  assumes "stream_of c = map char_of [5 :: nat, 1, 0, 3] @ [char_of (length domain)] @ domain
      @ map char_of [port div 256, port mod 256 :: nat] @ rest"
    and "length domain < 256" "port < 65536"
  defines "target \<equiv> join_host_port domain (itoa (int port))"
  shows "\<exists>c'. stream_of c' = rest \<and> socks_connect env sniOnly remoteAddr c =
    socks_answer target c' (tunnel_transform_check env sniOnly remoteAddr target None)"
proof -
  obtain c1 where c1: "read_conn 4 c = Some (map char_of [5 :: nat, 1, 0, 3], c1)"
    "stream_of c1 = [char_of (length domain)] @ domain @ map char_of [port div 256, port mod 256] @ rest"
    using read_conn_append [OF assms(1), of 4] by (auto simp del: append_Cons append_Nil list.map)
  obtain c2 where c2: "read_conn 1 c1 = Some ([char_of (length domain)], c2)"
    "stream_of c2 = domain @ map char_of [port div 256, port mod 256] @ rest"
    using read_conn_append [OF c1(2), of 1] by auto
  obtain c3 where c3: "read_conn (length domain) c2 = Some (domain, c3)"
    "stream_of c3 = map char_of [port div 256, port mod 256] @ rest"
    using read_conn_append [OF c2(2) refl] by blast
  obtain c4 where c4: "read_conn 2 c3 = Some (map char_of [port div 256, port mod 256], c4)" "stream_of c4 = rest"
    using read_conn_append [OF c3(2), of 2] by (auto simp del: append_Cons append_Nil list.map)
  have h: "socks_target_host 3 c1 = HostRead domain c3"
    using c2(1) c3(1) assms(2) by (simp add: socks_target_host_def)
  have "port div 256 < 256" using assms(3) by (simp add: less_mult_imp_div_less)
  then have p: "big_endian_uint16 (map char_of [port div 256, port mod 256]) = port" by (simp add: big_endian_uint16_def)
  have "socks_connect env sniOnly remoteAddr c =
      socks_answer target c4 (tunnel_transform_check env sniOnly remoteAddr target None)"
    using c1(1) c4(1) h p by (simp add: socks_connect_def socks_answer_def target_def Let_def del: list.map split: prod.splits tunnel_check.splits)
  with c4(2) show ?thesis by blast
qed

text \<open>
  C23: A SOCKS5 request for a domain name is read right in whatever pieces it arrives: the
  pipeline is asked about exactly that name and port, the client is answered with the success
  code only when the tunnel opens, and the bytes behind the request stay unread.
\<close>

theorem socks5_request_read:
  assumes "stream_of c = socks_request methods domain port @ rest"
    and "length methods < 256" "CHR 0x00 \<in> set methods" "length domain < 256" "port < 65536"
  shows "\<exists>c' written out. stream_of c' = rest
    \<and> (written, out) = socks_answer (join_host_port domain (itoa (int port))) c'
        (tunnel_transform_check env sniOnly remoteAddr (join_host_port domain (itoa (int port))) None)
    \<and> handle_socks5 env sniOnly remoteAddr c = (map char_of [0x05, 0x00 :: nat] # written, out)"
proof -
  let ?tail = "map char_of [5 :: nat, 1, 0, 3] @ [char_of (length domain)] @ domain @ map char_of [port div 256, port mod 256] @ rest"
  have "stream_of c = map char_of [5, length methods] @ methods @ ?tail" using assms(1) by (simp add: socks_request_def)
  from read_conn_append [OF this, of 2]
  obtain c1 where c1: "read_conn 2 c = Some (map char_of [5, length methods], c1)" "stream_of c1 = methods @ ?tail"
    by (auto simp del: append_Cons append_Nil list.map)
  obtain c2 where c2: "read_conn (length methods) c1 = Some (methods, c2)" "stream_of c2 = ?tail"
    using read_conn_append [OF c1(2) refl] by blast
  have "list_ex (\<lambda>m. byte m = 0) methods" using assms(3) by (auto simp: list_ex_iff intro!: bexI [of _ "CHR 0x00"])
  with c1(1) c2(1) assms(2) have hs: "handle_socks5 env sniOnly remoteAddr c =
      (let (written, out) = socks_connect env sniOnly remoteAddr c2 in (map char_of [0x05, 0x00 :: nat] # written, out))"
    by (simp add: handle_socks5_def)
  obtain c' where c': "stream_of c' = rest" "socks_connect env sniOnly remoteAddr c2 =
      socks_answer (join_host_port domain (itoa (int port))) c'
        (tunnel_transform_check env sniOnly remoteAddr (join_host_port domain (itoa (int port))) None)"
    using socks_connect_domain [OF c2(2) assms(4,5)] by blast
  obtain written out where w: "socks_connect env sniOnly remoteAddr c2 = (written, out)" by (metis prod.exhaust)
  from hs w have "handle_socks5 env sniOnly remoteAddr c = (map char_of [0x05, 0x00 :: nat] # written, out)" by simp
  with c' w show ?thesis by (intro exI [of _ c'] exI [of _ written] exI [of _ out]) simp
qed

text \<open>A request in two pieces, with the first bytes of the tunnel behind it.\<close>

definition pipelined_client :: "bytes \<Rightarrow> conn" where
  "pipelined_client hello = ([], [take 3 (socks_request [CHR 0x00] ''api.example.com'' 443),
     drop 3 (socks_request [CHR 0x00] ''api.example.com'' 443) @ hello])"

theorem socks5_request_read_witness:
  "\<exists>c' written out. stream_of c' = [CHR 0x16] \<and> (written, out) = socks_answer ''api.example.com:443'' c'
        (tunnel_transform_check retry_payment_env False [] ''api.example.com:443'' None)
    \<and> handle_socks5 retry_payment_env False [] (pipelined_client [CHR 0x16]) = (map char_of [0x05, 0x00 :: nat] # written, out)"
proof -
  have s: "stream_of (pipelined_client [CHR 0x16]) = socks_request [CHR 0x00] ''api.example.com'' 443 @ [CHR 0x16]"
    by (simp add: stream_of_def pipelined_client_def)
  have t: "join_host_port ''api.example.com'' (itoa (int 443)) = ''api.example.com:443''" by code_simp
  have h: "length [CHR 0x00] < 256" "CHR 0x00 \<in> set [CHR 0x00]" "length ''api.example.com'' < 256" "(443 :: nat) < 65536"
    by simp_all
  from socks5_request_read [OF s h, of retry_payment_env False "[]"] show ?thesis by (simp only: t)
qed

text \<open>
  Bytes a SOCKS5 client sends right behind its request are lost: the tunnel is served from
  the socket, and what the reader of the exchange already holds is dropped.
\<close>

theorem socks5_pipelined_bytes_lost:
  "(case handle_socks5 retry_payment_env False [] (pipelined_client [CHR 0x16]) of
      (written, out, result) \<Rightarrow> last written = socks5_reply 0 \<and> socks_service False out = Some ServeNothing)
   \<and> serve_tunnel False [[CHR 0x16]] = ServeTls"
  by code_simp

section \<open>Admission of a tunnel\<close>

text \<open>
  C13: With an enforcing allowlist in the pipeline that has before it only transforms that leave the
  target of the request alone (other allowlists, header allowlists, annotations and body captures),
  a tunnel that is terminated here opens only when the proxy is ready and the allowlist lists the
  host of the target; the target handed to the requests inside is the one that was admitted.
\<close>

theorem tunnel_default_deny:
  assumes "pl_transforms (pv_pipeline env 0) = ts @ allowlist_transform a # us" "list_all policy_transform ts" "\<not> al_warn a"
    and "tunnel_transform_check env False remoteAddr target headers = (TunnelOpen info, result)"
  shows "pv_ready env \<and> tun_target info = target
    \<and> (\<exists>rule \<in> set (al_rules a). rule_matches_host (pr_rule rule) (strip_port target))"
proof -
  let ?req = "connect_request remoteAddr target headers" and ?c = "connect_context False target"
  obtain tctx' req' traces out where p: "process_request (pl_transforms (pv_pipeline env 0)) ?c ?req [] = (tctx', req', traces, out)"
    by (metis prod_cases4)
  from assms(4) p have r: "pv_ready env" "out = RunContinue" "tun_target info = target"
    by (auto simp: tunnel_transform_check_def Let_def split: if_splits run.splits)
  with p assms(1) allowlist_gate [OF assms(2,3), of us ?c ?req "[]" tctx' req' traces] have "allowlist_allowed a ?c ?req" by simp
  with r show ?thesis by (auto simp: allowlist_allowed_iff connect_context_def connect_request_def)
qed

theorem tunnel_default_deny_witness:
  "\<exists>rule \<in> set (al_rules sample_allowlist). rule_matches_host (pr_rule rule) ''api.example.com''"
proof -
  have pl: "pl_transforms (pv_pipeline retry_payment_env 0) = [annotate_transform []] @ allowlist_transform sample_allowlist # []"
    by (simp add: retry_payment_env_def)
  have ts: "list_all policy_transform [annotate_transform [] :: request_scrubs transformer]" "\<not> al_warn sample_allowlist"
    by (auto simp: policy_transform_def sample_allowlist_def)
  have "case tunnel_transform_check retry_payment_env False [] ''api.example.com:443'' None of (TunnelOpen _, _) \<Rightarrow> True | _ \<Rightarrow> False"
    by code_simp
  then obtain info result where c: "tunnel_transform_check retry_payment_env False [] ''api.example.com:443'' None = (TunnelOpen info, result)"
    by (auto split: prod.splits tunnel_check.splits)
  have "strip_port ''api.example.com:443'' = ''api.example.com''" by code_simp
  with tunnel_default_deny [OF pl ts c] show ?thesis by simp
qed

section \<open>Passthrough\<close>

lemma recording_read_stream:
  assumes "recording_read k buf chunks = Some (buf', got, chunks')"
  shows "buf' @ concat chunks' = buf @ concat chunks" "length buf' < max_client_hello_bytes + k"
  using assms by (auto simp: recording_read_def Let_def split: if_splits list.splits)

lemma peek_sni_stream:
  "\<lbrakk>peek_sni hello ks buf chunks = Some (sni, peeked, rest); length buf < max_client_hello_bytes + m; \<And>k. k \<in> set ks \<Longrightarrow> k \<le> m\<rbrakk>
    \<Longrightarrow> hello peeked = Some sni \<and> peeked @ concat rest = buf @ concat chunks \<and> length peeked < max_client_hello_bytes + m"
proof (induction ks arbitrary: buf chunks)
  case Nil
  then show ?case by (auto simp: peek_sni.simps [of hello "[]"] split: option.splits)
next
  case (Cons k ks)
  show ?case
  proof (cases "hello buf")
    case (Some s)
    with Cons.prems show ?thesis by (auto simp: peek_sni.simps [of hello "k # ks"])
  next
    case None
    with Cons.prems(1) obtain buf' got chunks' where r: "recording_read k buf chunks = Some (buf', got, chunks')"
      "peek_sni hello ks buf' chunks' = Some (sni, peeked, rest)"
      by (auto simp: peek_sni.simps [of hello "k # ks"] split: option.splits)
    moreover have "length buf' < max_client_hello_bytes + m"
      using recording_read_stream(2) [OF r(1)] Cons.prems(3) [of k] by simp
    ultimately show ?thesis using Cons.IH [OF r(2)] Cons.prems(3) recording_read_stream(1) [OF r(1)] by simp
  qed
qed

text \<open>
  C14: A passthrough dials port 443 of the name in the client's own hello, after the pipeline let
  that name pass, whatever port a tunnel was opened for; the upstream receives exactly the
  bytes the client sent; and the hello held in memory stays within the limit and one read.
\<close>

theorem sni_passthrough_exact:
  assumes "peek_sni hello ks [] chunks = Some (sni, peeked, rest)" "\<And>k. k \<in> set ks \<Longrightarrow> k \<le> m"
    and "ps_upstream (serve_sni_passthrough env dial remoteAddr (Some (sni, peeked, rest))) = Some stream"
  shows "stream = concat chunks \<and> hello peeked = Some sni \<and> length peeked < max_client_hello_bytes + m
    \<and> ps_dialled (serve_sni_passthrough env dial remoteAddr (Some (sni, peeked, rest))) = Some (join_host_port sni ''443'')
    \<and> sni \<noteq> [] \<and> pv_ready env
    \<and> snd (snd (snd (process_request (pl_transforms (pv_pipeline env 0)) (sni_context sni) (sni_request sni remoteAddr) [])))
        = RunContinue"
proof -
  have "length ([] :: bytes) < max_client_hello_bytes + m" by (simp add: max_client_hello_bytes_def)
  from peek_sni_stream [OF assms(1) this assms(2)] have p: "hello peeked = Some sni" "peeked @ concat rest = concat chunks"
    "length peeked < max_client_hello_bytes + m" by simp_all
  obtain tctx' req' traces out where
    run: "process_request (pl_transforms (pv_pipeline env 0)) (sni_context sni) (sni_request sni remoteAddr) [] = (tctx', req', traces, out)"
    by (metis prod_cases4)
  from assms(3) p run show ?thesis
    by (auto simp: serve_sni_passthrough_def default_sni_upstream_def Let_def split: if_splits run.splits)
qed

definition listed_hello :: "bytes \<Rightarrow> string option" where
  "listed_hello buf = (if 4 \<le> length buf then Some ''api.example.com'' else None)"

definition sni_env :: "int proxy_env" where
  "sni_env = retry_payment_env\<lparr>pv_pipeline := \<lambda>_. \<lparr>pl_transforms = [], pl_body_limits = \<lparr>bl_max_request = 0, bl_max_response = 0\<rparr>\<rparr>\<rparr>"

theorem sni_passthrough_exact_witness:
  "peek_sni listed_hello [2, 5, 5] [] [''abc'', ''de'', ''f''] = Some (''api.example.com'', ''abcde'', [''f''])
    \<and> ps_upstream (serve_sni_passthrough sni_env (\<lambda>_ _. True) [] (Some (''api.example.com'', ''abcde'', [''f'']))) = Some ''abcdef''
    \<and> ps_dialled (serve_sni_passthrough sni_env (\<lambda>_ _. True) [] (Some (''api.example.com'', ''abcde'', [''f''])))
        = Some ''api.example.com:443''"
proof -
  have p: "peek_sni listed_hello [2, 5, 5] [] [''abc'', ''de'', ''f''] = Some (''api.example.com'', ''abcde'', [''f''])" by code_simp
  have u: "ps_upstream (serve_sni_passthrough sni_env (\<lambda>_ _. True) [] (Some (''api.example.com'', ''abcde'', [''f'']))) = Some ''abcdef''"
    by code_simp
  have k: "k \<in> set [2, 5, 5] \<Longrightarrow> k \<le> (5 :: nat)" for k by auto
  have "join_host_port ''api.example.com'' ''443'' = ''api.example.com:443''" by code_simp
  with sni_passthrough_exact [OF p k u] p u show ?thesis by simp
qed

section \<open>Closing a relay\<close>

lemma close_reason_step:
  assumes "123 < length s"
  shows "close_reason s = close_reason (take (length s - snd (decode_last_rune s)) s)"
  using assms by (subst close_reason.simps) simp

lemma decode_last_rune_size: "snd (decode_last_rune (xs @ encode_rune r)) = length (encode_rune r)"
proof (cases "valid_rune r")
  case False
  then have "encode_rune r = encode_rune rune_error" by (simp add: encode_rune_def)
  then show ?thesis using decode_last_rune_encoded [of rune_error xs] by simp
qed (simp add: decode_last_rune_encoded)

text \<open>
  C39: The loop that shortens the text of a close frame ends with at most 123 bytes of the text,
  and cuts a text of whole characters between characters.
\<close>

theorem close_reason_ends:
  "length (close_reason s) \<le> 123 \<and> prefix (close_reason s) s
    \<and> (\<exists>k. close_reason (concat (map encode_rune rs)) = concat (map encode_rune (take k rs)))"
proof -
  have "length (close_reason s) \<le> 123 \<and> prefix (close_reason s) s"
  proof (induction s rule: close_reason.induct)
    case (1 s)
    show ?case
    proof (cases "123 < length s")
      case True
      with 1 close_reason_step [OF True] show ?thesis by (metis take_is_prefix prefix_order.trans)
    qed (simp add: close_reason.simps [of s])
  qed
  moreover have "\<exists>k. close_reason (concat (map encode_rune rs)) = concat (map encode_rune (take k rs))"
  proof (induction rs rule: rev_induct)
    case (snoc r rs)
    let ?s = "concat (map encode_rune (rs @ [r]))"
    show ?case
    proof (cases "123 < length ?s")
      case True
      have "close_reason ?s = close_reason (concat (map encode_rune rs))"
        using close_reason_step [OF True] decode_last_rune_size by simp
      moreover from snoc obtain k where "close_reason (concat (map encode_rune rs)) = concat (map encode_rune (take k rs))" by auto
      ultimately show ?thesis by (intro exI [of _ "min k (length rs)"]) (simp add: min_def)
    next
      case False
      then have "close_reason ?s = ?s" by (subst close_reason.simps) simp
      then show ?thesis by (intro exI [of _ "length (rs @ [r])"]) simp
    qed
  qed (simp add: close_reason.simps)
  ultimately show ?thesis by blast
qed

end
