(* ===== verification/Spec2Isabelle.thy ===== *)
theory Spec2Isabelle
  imports Secrets_Flow Scrub_Escape Tunnel_Claims
begin

text \<open>
  A verification library for iron-proxy, the default-deny egress proxy under
  \<^verbatim>\<open>src/\<close>.
\<close>

end
